(* ===== verification/Prelude.thy ===== *)
theory Prelude
  imports
    Complex_Main
    "HOL-Library.Stream"
    "HOL-Library.State_Monad"
    "HOL-Library.Sublist"
    "HOL-Library.Multiset"
begin

text \<open>
  Shared vocabulary of the development: the pieces of the JavaScript runtime the
  application's code relies on, written once and used by every component.
  \<^item> \<open>jsnum\<close>: a JavaScript number that is an integer or \<open>NaN\<close> (what
    \<open>Math.floor(total / 0)\<close> gives for an empty platform set);
  \<^item> \<open>'v jsobj\<close>: a JavaScript object whose keys are array indices (the platform
    ids \<open>"1"\<close>, \<open>"2"\<close>, ... of the forms). ECMAScript orders such keys
    ascending in \<open>Object.keys\<close> and \<open>for ... in\<close>, whatever the insertion
    order, so the object is an association list kept sorted by key;
  \<^item> \<open>js_lower\<close> and \<open>js_includes\<close>: \<open>String.prototype.toLowerCase\<close>
    (ASCII letters) and \<open>String.prototype.includes\<close>;
  \<^item> the collection \<open>rand_wf\<close> of the random-source theory and generic list facts.
\<close>

named_theorems rand_wf "computations that keep the Math.random source well-formed"
named_theorems obj_simps "evaluation rules of index-keyed JavaScript objects"

subsection \<open>Numbers that may be NaN\<close>

datatype jsnum = JsInt int | JsNaN

text \<open>\<open>Math.floor(total / n)\<close> for an integer total and a count \<open>n\<close>:
  \<open>0 / 0\<close> is \<open>NaN\<close>; otherwise floor division.\<close>

definition js_floor_div :: "int \<Rightarrow> nat \<Rightarrow> jsnum" where
  "js_floor_div t n = (if n = 0 then JsNaN else JsInt (t div int n))"

definition js_ge :: "jsnum \<Rightarrow> int \<Rightarrow> bool" where
  "js_ge x t = (case x of JsInt i \<Rightarrow> t \<le> i | JsNaN \<Rightarrow> False)"

subsection \<open>Objects keyed by array indices\<close>

type_synonym 'v jsobj = "(nat \<times> 'v) list"

definition obj_keys :: "'v jsobj \<Rightarrow> nat list" where
  "obj_keys ob = map fst ob"

definition obj_get :: "'v jsobj \<Rightarrow> nat \<Rightarrow> 'v option" where
  "obj_get ob k = map_of ob k"

definition obj_wf :: "'v jsobj \<Rightarrow> bool" where
  "obj_wf ob \<longleftrightarrow> sorted_wrt (<) (obj_keys ob)"

text \<open>\<open>ob[k] = v\<close>: overwrite the value of an existing key, or add the key at its
  place in ascending order.\<close>

fun obj_set :: "nat \<Rightarrow> 'v \<Rightarrow> 'v jsobj \<Rightarrow> 'v jsobj" where
  "obj_set k v [] = [(k, v)]"
| "obj_set k v ((k', v') # ob) =
     (if k = k' then (k, v) # ob
      else if k < k' then (k, v) # (k', v') # ob
      else (k', v') # obj_set k v ob)"

text \<open>\<open>delete ob[k]\<close>.\<close>

definition obj_delete :: "nat \<Rightarrow> 'v jsobj \<Rightarrow> 'v jsobj" where
  "obj_delete k ob = filter (\<lambda>(k', _). k' \<noteq> k) ob"

text \<open>An object built by assigning the keys of a list in turn, as a
  \<open>forEach\<close> loop that writes \<open>obj[key] = value\<close> does.\<close>

definition obj_of_list :: "(nat \<times> 'v) list \<Rightarrow> 'v jsobj" where
  "obj_of_list kvs = fold (\<lambda>(k, v). obj_set k v) kvs []"

subsection \<open>Strings\<close>

text \<open>\<open>toLowerCase\<close> on the ASCII range; the characters of a HOL \<open>string\<close>
  are bytes, so letters outside ASCII are not modelled.\<close>

definition js_lower_char :: "char \<Rightarrow> char" where
  "js_lower_char c =
     (let n = (of_char c :: nat) in if 65 \<le> n \<and> n \<le> 90 then char_of (n + 32) else c)"

definition js_lower :: "string \<Rightarrow> string" where
  "js_lower s = map js_lower_char s"

text \<open>\<open>haystack.includes(needle)\<close>: a contiguous occurrence.\<close>

definition js_includes :: "string \<Rightarrow> string \<Rightarrow> bool" where
  "js_includes hay needle \<longleftrightarrow> sublist needle hay"

subsection \<open>Ranges\<close>

definition in_range :: "int \<Rightarrow> int \<Rightarrow> int \<Rightarrow> bool" where
  "in_range lo hi x \<longleftrightarrow> lo \<le> x \<and> x \<le> hi"

subsection \<open>Facts\<close>

lemma js_ge_simps [simp]:
  "js_ge (JsInt i) t \<longleftrightarrow> t \<le> i"
  "\<not> js_ge JsNaN t"
  by (simp_all add: js_ge_def)

lemma obj_keys_simps [simp, obj_simps]:
  "obj_keys [] = []" "obj_keys ((k, v) # ob) = k # obj_keys ob"
  by (simp_all add: obj_keys_def)

lemma obj_get_simps [simp, obj_simps]:
  "obj_get [] k = None"
  "obj_get ((k', v) # ob) k = (if k' = k then Some v else obj_get ob k)"
  by (simp_all add: obj_get_def)

lemma set_obj_keys_set: "set (obj_keys (obj_set k v ob)) = insert k (set (obj_keys ob))"
  by (induction k v ob rule: obj_set.induct) (auto simp: obj_keys_def)

lemma obj_wf_Cons [simp]:
  "obj_wf ((k, v) # ob) \<longleftrightarrow> (\<forall>k' \<in> set (obj_keys ob). k < k') \<and> obj_wf ob"
  by (simp add: obj_wf_def)

lemma obj_wf_Nil [simp]: "obj_wf []"
  by (simp add: obj_wf_def)

lemma obj_set_wf [intro]: "obj_wf ob \<Longrightarrow> obj_wf (obj_set k v ob)"
proof (induction k v ob rule: obj_set.induct)
  case (2 k v k' v' ob)
  then show ?case by (fastforce simp: set_obj_keys_set)
qed simp

lemma obj_get_set [simp]: "obj_get (obj_set k v ob) k' = (if k' = k then Some v else obj_get ob k')"
  by (induction ob) auto

lemma obj_delete_wf [intro]: "obj_wf ob \<Longrightarrow> obj_wf (obj_delete k ob)"
  by (induction ob) (auto simp: obj_delete_def obj_keys_def)

lemma obj_get_delete [simp]:
  "obj_get (obj_delete k ob) k' = (if k' = k then None else obj_get ob k')"
  by (induction ob) (auto simp: obj_delete_def)

lemma obj_of_list_wf: "obj_wf (obj_of_list (kvs :: 'v jsobj))"
proof -
  have "obj_wf ob \<Longrightarrow> obj_wf (fold (\<lambda>(k, v). obj_set k v) kvs ob)" for ob :: "'v jsobj"
    by (induction kvs arbitrary: ob) auto
  then show ?thesis by (simp add: obj_of_list_def)
qed

lemma obj_of_list_keys: "set (obj_keys (obj_of_list (kvs :: 'v jsobj))) = set (map fst kvs)"
proof -
  have "set (obj_keys (fold (\<lambda>(k, v). obj_set k v) kvs ob)) = set (map fst kvs) \<union> set (obj_keys ob)"
    for ob :: "'v jsobj"
    by (induction kvs arbitrary: ob) (auto simp: set_obj_keys_set)
  then show ?thesis by (simp add: obj_of_list_def)
qed

text \<open>On sorted distinct keys the assignments of a \<open>forEach\<close> leave the list as
  it is: the object's key order is the order of \<open>Object.keys\<close>.\<close>

lemma obj_set_append_greater:
  "\<forall>k' \<in> set (map fst ob). k' < k \<Longrightarrow> obj_set k v ob = ob @ [(k, v)]"
  by (induction ob) auto

lemma obj_of_list_sorted:
  assumes "sorted_wrt (<) (map fst (kvs :: 'v jsobj))"
  shows "obj_of_list kvs = kvs"
proof -
  have "sorted_wrt (<) (map fst ob @ map fst kvs) \<Longrightarrow>
        fold (\<lambda>(k, v). obj_set k v) kvs ob = ob @ kvs" for ob :: "'v jsobj"
  proof (induction kvs arbitrary: ob)
    case Nil
    then show ?case by simp
  next
    case (Cons kv kvs)
    obtain k v where kv: "kv = (k, v)" by fastforce
    from Cons.prems kv have "\<forall>k' \<in> set (map fst ob). k' < k"
      by (auto simp: sorted_wrt_append)
    then have "obj_set k v ob = ob @ [(k, v)]" by (rule obj_set_append_greater)
    moreover from Cons.prems have "sorted_wrt (<) (map fst (ob @ [kv]) @ map fst kvs)"
      by simp
    ultimately show ?case using Cons.IH kv by simp
  qed
  from this [of "[]"] assms show ?thesis by (simp add: obj_of_list_def)
qed

subsection \<open>Lists\<close>

lemma distinct_take_mset:
  "mset ys = mset xs \<Longrightarrow> distinct xs \<Longrightarrow> distinct (take n ys)"
  by (metis distinct_take mset_eq_imp_distinct_iff)

lemma set_take_mset:
  assumes "mset ys = mset xs"
  shows "set (take n ys) \<subseteq> set xs"
proof -
  have "set ys = set xs" using assms by (rule mset_eq_setD)
  then show ?thesis using set_take_subset [of n ys] by simp
qed

lemma length_take_mset:
  assumes "mset ys = mset xs"
  shows "length (take n ys) = min n (length xs)"
proof -
  have "length ys = length xs" using assms by (rule mset_eq_length)
  then show ?thesis by simp
qed

text \<open>Two deletions by position: the second index counts in the shortened list.\<close>

lemma delete_twice:
  assumes "i < j" and "Suc j < length xs"
  shows "take j (take i xs @ drop (Suc i) xs) @ drop (Suc j) (take i xs @ drop (Suc i) xs) =
         take i xs @ drop (Suc i) (take (Suc j) xs) @ drop (Suc (Suc j)) xs"
proof -
  have "take j (take i xs @ drop (Suc i) xs) = take i xs @ take (j - i) (drop (Suc i) xs)"
    using assms by (simp add: take_append min_def)
  moreover have "take (j - i) (drop (Suc i) xs) = drop (Suc i) (take (Suc j) xs)"
    using assms(1) by (simp add: take_drop)
  moreover have "drop (Suc j) (take i xs @ drop (Suc i) xs) = drop (Suc (Suc j)) xs"
    using assms by (simp add: drop_append min_def)
  ultimately show ?thesis by simp
qed

lemma fold_max_ge: "x \<in> set xs \<or> x \<le> a \<Longrightarrow> x \<le> fold max xs (a :: nat)"
  by (induction xs arbitrary: a) (auto intro: le_trans [OF _ max.cobounded2])

lemma map_of_keyed: "map_of (map (\<lambda>i. (i, g i)) xs) n = (if n \<in> set xs then Some (g n) else None)"
  by (induction xs) auto

lemma mean_floor_bounds:
  assumes "xs \<noteq> []" and "list_all (in_range lo hi) xs"
  shows "in_range lo hi (sum_list xs div int (length xs))"
proof -
  let ?n = "int (length xs)"
  have n: "0 < ?n" using assms(1) by simp
  have "?n * lo \<le> sum_list xs"
    using assms(2) by (induction xs) (auto simp: algebra_simps in_range_def)
  then have "?n * lo div ?n \<le> sum_list xs div ?n" using n by (rule zdiv_mono1)
  moreover have "sum_list xs \<le> ?n * hi"
    using assms(2) by (induction xs) (auto simp: algebra_simps in_range_def)
  then have "sum_list xs div ?n \<le> ?n * hi div ?n" using n by (rule zdiv_mono1)
  ultimately show ?thesis using n by (simp add: in_range_def)
qed

lemma obj_get_member: "distinct (obj_keys ob) \<Longrightarrow> (k, v) \<in> set ob \<Longrightarrow> obj_get ob k = Some v"
  by (simp add: obj_get_def obj_keys_def)

text \<open>Reading every key of an object in key order yields its values in order.\<close>

lemma obj_values_in_key_order:
  assumes "distinct (obj_keys kvs)"
  shows "map (\<lambda>p. case obj_get kvs p of Some r \<Rightarrow> g r | None \<Rightarrow> d) (obj_keys kvs) =
         map (\<lambda>e. g (snd e)) kvs"
proof -
  have "\<And>e. e \<in> set kvs \<Longrightarrow> obj_get kvs (fst e) = Some (snd e)"
    using assms obj_get_member by fastforce
  then show ?thesis by (simp add: obj_keys_def cong: map_cong)
qed

text \<open>An object filled by a \<open>forEach\<close> over sorted keys, then read back in key
  order, as the engine's totals are computed.\<close>

lemma keyed_total:
  assumes "map fst scores = ks" and "sorted_wrt (<) ks"
  shows "obj_of_list scores = scores"
    and "map (\<lambda>p. case obj_get (obj_of_list scores) p of Some r \<Rightarrow> g r | None \<Rightarrow> d) ks =
         map (\<lambda>e. g (snd e)) scores"
proof -
  show obj: "obj_of_list scores = scores" using assms by (simp add: obj_of_list_sorted)
  have "distinct (obj_keys scores)" using assms by (simp add: obj_keys_def strict_sorted_iff)
  from obj_values_in_key_order [OF this] assms obj
  show "map (\<lambda>p. case obj_get (obj_of_list scores) p of Some r \<Rightarrow> g r | None \<Rightarrow> d) ks =
        map (\<lambda>e. g (snd e)) scores"
    by (simp add: obj_keys_def)
qed

end
