(* ===== verification/Random_Source.thy ===== *)
theory Random_Source
  imports Prelude
begin

text \<open>
  \<open>Math.random\<close> and the random helpers of \<open>src/js/analysis-engine.js\<close>.
  The generator is the stream of the values \<open>Math.random()\<close> will return; a call
  takes the head and leaves the tail. Its contract (ECMAScript: a number in
  \<open>[0, 1)\<close>) is the well-formedness \<open>rng_wf\<close> of the stream. The engine threads
  the generator through all its helpers, so they are written in the state monad of
  \<open>HOL-Library.State_Monad\<close> with the stream as state.

  Two predicates carry the proofs: \<open>keeps_wf m\<close> (running \<open>m\<close> from a
  well-formed stream leaves a well-formed stream) and \<open>ensures P m\<close> (from a
  well-formed stream the result of \<open>m\<close> satisfies \<open>P\<close>), with rules for
  \<open>return\<close>, \<open>bind\<close> and \<open>traverse_list\<close>, so that each engine bound is a
  few rule applications.
\<close>

type_synonym rng = "real stream"
type_synonym 'a rand = "(rng, 'a) state"

definition rng_wf :: "rng \<Rightarrow> bool" where
  "rng_wf s \<longleftrightarrow> s \<in> streams {0..<1}"

definition math_random :: "real rand" where
  "math_random = State (\<lambda>s. (shd s, stl s))"

text \<open>\<open>Math.floor(Math.random() * n)\<close>, computed on the reals; the header of the
  root theory says why the floating-point product gives the same integers in the ranges
  the engine uses.\<close>

definition floor_random :: "nat \<Rightarrow> int rand" where
  "floor_random n = do { r \<leftarrow> math_random; State_Monad.return \<lfloor>r * real n\<rfloor> }"

subsection \<open>The array sort with a random comparator\<close>

text \<open>
  \<open>[...array].sort(() => 0.5 - Math.random())\<close>. The comparator is not consistent,
  so ECMAScript leaves the resulting order to the engine; what every engine guarantees is
  that the result is a permutation of the array. The model is a stable insertion sort
  that calls the comparator once per comparison, \<open>comparefn(x, y) < 0\<close> placing
  \<open>x\<close> before \<open>y\<close>. The lemmas about its callers use only the permutation
  property, so they hold for any engine.
\<close>

fun insert_by_random :: "'a \<Rightarrow> 'a list \<Rightarrow> 'a list rand" where
  "insert_by_random x [] = State_Monad.return [x]"
| "insert_by_random x (y # ys) = do {
     r \<leftarrow> math_random;
     if 1 / 2 - r < 0 then State_Monad.return (x # y # ys)
     else do { zs \<leftarrow> insert_by_random x ys; State_Monad.return (y # zs) }
   }"

fun sort_random_acc :: "'a list \<Rightarrow> 'a list \<Rightarrow> 'a list rand" where
  "sort_random_acc acc [] = State_Monad.return acc"
| "sort_random_acc acc (x # xs) = do {
     acc' \<leftarrow> insert_by_random x acc;
     sort_random_acc acc' xs
   }"

definition js_sort_random :: "'a list \<Rightarrow> 'a list rand" where
  "js_sort_random xs = sort_random_acc [] xs"

text \<open>\<open>xs.slice(0, count)\<close>: a negative end counts from the back.\<close>

definition js_slice0 :: "'a list \<Rightarrow> int \<Rightarrow> 'a list" where
  "js_slice0 xs cnt =
     (if 0 \<le> cnt then take (nat cnt) xs else take (nat (int (length xs) + cnt)) xs)"

text \<open>\<open>getRandomElements(array, count)\<close> (analysis-engine.js, lines 334--337).\<close>

definition getRandomElements :: "'a list \<Rightarrow> int \<Rightarrow> 'a list rand" where
  "getRandomElements array cnt = do {
     shuffled \<leftarrow> js_sort_random array;
     State_Monad.return (js_slice0 shuffled cnt)
   }"

subsection \<open>Reasoning rules\<close>

definition keeps_wf :: "'a rand \<Rightarrow> bool" where
  "keeps_wf m \<longleftrightarrow> (\<forall>s. rng_wf s \<longrightarrow> rng_wf (snd (run_state m s)))"

definition ensures :: "('a \<Rightarrow> bool) \<Rightarrow> 'a rand \<Rightarrow> bool" where
  "ensures P m \<longleftrightarrow> (\<forall>s. rng_wf s \<longrightarrow> P (fst (run_state m s)))"

text \<open>\<open>always P m\<close>: the result satisfies \<open>P\<close> whatever \<open>Math.random\<close>
  returns (structural facts: which keys, which pairs, which elements).\<close>

definition always :: "('a \<Rightarrow> bool) \<Rightarrow> 'a rand \<Rightarrow> bool" where
  "always P m \<longleftrightarrow> (\<forall>s. P (fst (run_state m s)))"

lemma rng_wf_stl [intro]: "rng_wf s \<Longrightarrow> rng_wf (stl s)"
  by (simp add: rng_wf_def streams_stl)

lemma rng_wf_shd: "rng_wf s \<Longrightarrow> 0 \<le> shd s \<and> shd s < 1"
  using streams_shd by (fastforce simp: rng_wf_def)

lemma keeps_wf_return [rand_wf]: "keeps_wf (State_Monad.return x)"
  by (simp add: keeps_wf_def)

lemma keeps_wf_math_random [rand_wf]: "keeps_wf math_random"
  by (auto simp: keeps_wf_def math_random_def)

lemma keeps_wf_bind [rand_wf]:
  "keeps_wf m \<Longrightarrow> (\<And>x. keeps_wf (f x)) \<Longrightarrow> keeps_wf (m \<bind> f)"
  by (simp add: keeps_wf_def case_prod_beta)

lemma keeps_wf_if [rand_wf]: "keeps_wf a \<Longrightarrow> keeps_wf b \<Longrightarrow> keeps_wf (if c then a else b)"
  by simp

lemma keeps_wf_traverse [rand_wf]:
  "(\<And>x. keeps_wf (f x)) \<Longrightarrow> keeps_wf (traverse_list f xs)"
  by (induction xs) (simp_all add: keeps_wf_return keeps_wf_bind)

lemma keeps_wf_floor_random [rand_wf]: "keeps_wf (floor_random n)"
  unfolding floor_random_def by (intro rand_wf)

lemma keeps_wf_insert_by_random [rand_wf]: "keeps_wf (insert_by_random x ys)"
  by (induction ys) (simp_all add: rand_wf)

lemma keeps_wf_sort_random_acc [rand_wf]: "keeps_wf (sort_random_acc acc xs)"
  by (induction xs arbitrary: acc) (simp_all add: rand_wf)

lemma keeps_wf_getRandomElements [rand_wf]: "keeps_wf (getRandomElements xs c)"
  unfolding getRandomElements_def js_sort_random_def by (intro rand_wf)

lemma ensures_return: "P x \<Longrightarrow> ensures P (State_Monad.return x)"
  by (simp add: ensures_def)

lemma ensures_bind:
  assumes "keeps_wf m" and "ensures P m" and "\<And>x. P x \<Longrightarrow> ensures Q (f x)"
  shows "ensures Q (m \<bind> f)"
  using assms by (simp add: ensures_def keeps_wf_def case_prod_beta)

lemma ensures_mono: "ensures P m \<Longrightarrow> (\<And>x. P x \<Longrightarrow> Q x) \<Longrightarrow> ensures Q m"
  by (simp add: ensures_def)

lemma ensures_conj: "ensures P m \<Longrightarrow> ensures Q m \<Longrightarrow> ensures (\<lambda>x. P x \<and> Q x) m"
  by (simp add: ensures_def)

lemma ensures_always: "(\<And>s. P (fst (run_state m s))) \<Longrightarrow> ensures P m"
  by (simp add: ensures_def)

lemma always_return: "P x \<Longrightarrow> always P (State_Monad.return x)"
  by (simp add: always_def)

lemma always_bind: "always P m \<Longrightarrow> (\<And>x. P x \<Longrightarrow> always Q (f x)) \<Longrightarrow> always Q (m \<bind> f)"
  by (simp add: always_def case_prod_beta)

lemma always_ensures: "always P m \<Longrightarrow> ensures P m"
  by (simp add: always_def ensures_def)

lemma map_traverse:
  assumes "\<And>x s. g (fst (run_state (f x) s)) = h x"
  shows "map g (fst (run_state (traverse_list f xs) s)) = map h xs"
  using assms by (induction xs arbitrary: s) (simp_all add: case_prod_beta)

lemma always_traverse_keys:
  assumes "\<And>x. always (\<lambda>e. fst e = x) (f x)"
  shows "always (\<lambda>es. map fst es = xs) (traverse_list f xs)"
proof (induction xs)
  case Nil
  then show ?case by (simp add: always_return)
next
  case (Cons x xs)
  show ?case
    by (simp, rule always_bind [OF assms], rule always_bind [OF Cons.IH], simp add: always_return)
qed

lemma always_True: "always (\<lambda>_. True) m"
  by (simp add: always_def)

lemma always_traverse_map:
  assumes "\<And>x. always (\<lambda>e. g e = h x) (f x)"
  shows "always (\<lambda>es. map g es = map h xs) (traverse_list f xs)"
proof (induction xs)
  case Nil
  then show ?case by (simp add: always_return)
next
  case (Cons x xs)
  show ?case
    by (simp, rule always_bind [OF assms], rule always_bind [OF Cons.IH], simp add: always_return)
qed

lemma ensures_traverse:
  assumes "\<And>x. keeps_wf (f x)" and "\<And>x. ensures P (f x)"
  shows "ensures (list_all P) (traverse_list f xs)"
proof (induction xs)
  case Nil
  then show ?case by (simp add: ensures_return)
next
  case (Cons x xs)
  show ?case
    by (simp, rule ensures_bind [OF assms(1) assms(2)],
        rule ensures_bind [OF keeps_wf_traverse [OF assms(1)] Cons.IH],
        simp add: ensures_return)
qed

lemma ensures_traverse_keyed:
  assumes "\<And>x. keeps_wf (f x)" and "\<And>x. always (\<lambda>e. fst e = x) (f x)"
    and "\<And>x. ensures (\<lambda>e. P (snd e)) (f x)"
  shows "ensures (\<lambda>es. map fst es = xs \<and> list_all (\<lambda>e. P (snd e)) es) (traverse_list f xs)"
  by (rule ensures_conj [OF always_ensures [OF always_traverse_keys [OF assms(2)]]
        ensures_traverse [OF assms(1,3)]])

lemma ensures_traverse_rel:
  assumes "\<And>x. keeps_wf (f x)" and "\<And>x. ensures (R x) (f x)"
  shows "ensures (list_all2 R xs) (traverse_list f xs)"
proof (induction xs)
  case Nil
  then show ?case by (simp add: ensures_return)
next
  case (Cons x xs)
  show ?case
    by (simp, rule ensures_bind [OF assms(1) assms(2)],
        rule ensures_bind [OF keeps_wf_traverse [OF assms(1)] Cons.IH],
        simp add: ensures_return)
qed

lemma length_traverse: "length (fst (run_state (traverse_list f xs) s)) = length xs"
  by (induction xs arbitrary: s) (simp_all add: case_prod_beta)

subsection \<open>Bounds of \<open>Math.floor(Math.random() * n)\<close>\<close>

lemma floor_random_bounds:
  assumes "0 < n"
  shows "ensures (\<lambda>i. 0 \<le> i \<and> i < int n) (floor_random n)"
proof (unfold ensures_def, intro allI impI)
  fix s :: rng
  assume "rng_wf s"
  then have r: "0 \<le> shd s" "shd s < 1" by (auto dest: rng_wf_shd)
  then have "0 \<le> shd s * real n" by simp
  moreover from r assms have "shd s * real n < real n" by simp
  ultimately show "0 \<le> fst (run_state (floor_random n) s) \<and>
      fst (run_state (floor_random n) s) < int n"
    by (simp add: floor_random_def math_random_def floor_less_iff)
qed

lemma floor_random_range:
  "0 < n \<Longrightarrow> ensures (\<lambda>i. in_range b (b + int n - 1) (i + b)) (floor_random n)"
  by (rule ensures_mono [OF floor_random_bounds]) (auto simp: in_range_def)

subsection \<open>The sort permutes\<close>

lemma mset_insert_by_random:
  "mset (fst (run_state (insert_by_random x ys) s)) = add_mset x (mset ys)"
  by (induction ys arbitrary: s) (simp_all add: math_random_def case_prod_beta)

lemma mset_sort_random_acc:
  "mset (fst (run_state (sort_random_acc acc xs) s)) = mset acc + mset xs"
  by (induction xs arbitrary: acc s) (simp_all add: mset_insert_by_random case_prod_beta)

lemma mset_js_sort_random: "mset (fst (run_state (js_sort_random xs) s)) = mset xs"
  by (simp add: js_sort_random_def mset_sort_random_acc)

lemma js_slice0_nonneg [simp]: "0 \<le> c \<Longrightarrow> js_slice0 xs c = take (nat c) xs"
  by (simp add: js_slice0_def)

text \<open>Sampling without replacement: for a count \<open>c \<ge> 0\<close> the sample holds
  \<open>min c (length array)\<close> elements of the array, distinct when the array is.\<close>

lemma getRandomElements_sample:
  assumes "0 \<le> c"
  shows "ensures (\<lambda>ys. set ys \<subseteq> set xs \<and> length ys = min (nat c) (length xs) \<and>
                        (distinct xs \<longrightarrow> distinct ys)) (getRandomElements xs c)"
proof (rule ensures_always)
  fix s
  let ?zs = "fst (run_state (js_sort_random xs) s)"
  have m: "mset ?zs = mset xs" by (rule mset_js_sort_random)
  show "(\<lambda>ys. set ys \<subseteq> set xs \<and> length ys = min (nat c) (length xs) \<and>
          (distinct xs \<longrightarrow> distinct ys)) (fst (run_state (getRandomElements xs c) s))"
    using assms m set_take_mset [OF m] length_take_mset [OF m] distinct_take_mset [OF m]
    by (simp add: getRandomElements_def case_prod_beta)
qed

subsection \<open>Property\<close>

text \<open>C9: \<open>getRandomElements(array, count)\<close> returns the first \<open>count\<close>
  elements (in the sense of \<open>slice(0, count)\<close>) of a permutation of the array,
  whatever the engine's sort does with the inconsistent comparator and whatever
  \<open>Math.random\<close> returns: a sample without replacement, not a uniform one.\<close>

theorem getRandomElements_prefix_of_permutation:
  "\<exists>ys. mset ys = mset array \<and> fst (run_state (getRandomElements array c) s) = js_slice0 ys c"
  by (rule exI [of _ "fst (run_state (js_sort_random array) s)"])
     (simp add: mset_js_sort_random getRandomElements_def case_prod_beta)

end
