(* ===== verification/Benchmark.thy ===== *)
theory Benchmark
  imports Prelude
begin

text \<open>
  The benchmark comparison of \<open>src/js/analysis-engine.js\<close>: the constant table
  \<open>industryBenchmarks\<close> (lines 13--26), \<open>compareToBenchmark\<close> (lines 448--470)
  and \<open>calculatePercentile\<close> (lines 478--486). The category string
  (\<open>'coherence'\<close> or \<open>'consistency'\<close>, the only two the engine passes) is a
  datatype; the rating strings are a datatype ordered from \<open>Poor\<close> to
  \<open>Excellent\<close>, so that the spec's "highest bucket whose threshold the score
  meets" is the \<open>Max\<close> of a set of ratings.
\<close>

datatype category = Coherence | Consistency

record thresholds =
  excellent :: int
  good :: int
  average :: int
  poor :: int

definition industryBenchmarks :: "category \<Rightarrow> thresholds" where
  "industryBenchmarks c = (case c of
     Coherence \<Rightarrow> \<lparr>excellent = 85, good = 70, average = 55, poor = 40\<rparr>
   | Consistency \<Rightarrow> \<lparr>excellent = 80, good = 65, average = 50, poor = 35\<rparr>)"

datatype rating = Poor | BelowAverage | Average | Good | Excellent

definition rating_string :: "rating \<Rightarrow> string" where
  "rating_string r = (case r of
     Excellent \<Rightarrow> ''excellent'' | Good \<Rightarrow> ''good'' | Average \<Rightarrow> ''average''
   | BelowAverage \<Rightarrow> ''below average'' | Poor \<Rightarrow> ''poor'')"

record benchmark_comparison =
  bc_score :: jsnum
  industryAverage :: int
  rating :: rating
  percentile :: jsnum

text \<open>\<open>Math.floor(((score - min) / (max - min)) * 100)\<close> with
  \<open>min = poor - 10\<close>, \<open>max = excellent + 10\<close>; \<open>NaN\<close> stays \<open>NaN\<close>.\<close>

definition calculatePercentile :: "jsnum \<Rightarrow> category \<Rightarrow> jsnum" where
  "calculatePercentile score category =
     (let b = industryBenchmarks category;
          mn = poor b - 10;
          mx = excellent b + 10
      in case score of
           JsInt s \<Rightarrow> JsInt ((s - mn) * 100 div (mx - mn))
         | JsNaN \<Rightarrow> JsNaN)"

definition compareToBenchmark :: "jsnum \<Rightarrow> category \<Rightarrow> benchmark_comparison" where
  "compareToBenchmark score category =
     (let b = industryBenchmarks category;
          r = (if js_ge score (excellent b) then Excellent
               else if js_ge score (good b) then Good
               else if js_ge score (average b) then Average
               else if js_ge score (poor b) then BelowAverage
               else Poor)
      in \<lparr>bc_score = score, industryAverage = average b, rating = r,
          percentile = calculatePercentile score category\<rparr>)"

fun rating_rank :: "rating \<Rightarrow> nat" where
  "rating_rank Poor = 0"
| "rating_rank BelowAverage = 1"
| "rating_rank Average = 2"
| "rating_rank Good = 3"
| "rating_rank Excellent = 4"

text \<open>The spec's reading of a rating: a score meets a bucket when it reaches the
  bucket's threshold; every score meets \<open>Poor\<close>.\<close>

definition meets :: "category \<Rightarrow> rating \<Rightarrow> int \<Rightarrow> bool" where
  "meets c r s = (let b = industryBenchmarks c in case r of
      Excellent \<Rightarrow> excellent b \<le> s | Good \<Rightarrow> good b \<le> s | Average \<Rightarrow> average b \<le> s
    | BelowAverage \<Rightarrow> poor b \<le> s | Poor \<Rightarrow> True)"

subsection \<open>Ratings are ordered\<close>

instantiation rating :: linorder
begin

definition less_eq_rating :: "rating \<Rightarrow> rating \<Rightarrow> bool" where
  "less_eq_rating r r' \<longleftrightarrow> rating_rank r \<le> rating_rank r'"

definition less_rating :: "rating \<Rightarrow> rating \<Rightarrow> bool" where
  "less_rating r r' \<longleftrightarrow> rating_rank r < rating_rank r'"

instance
proof
  fix x y :: rating
  show "x \<le> y \<Longrightarrow> y \<le> x \<Longrightarrow> x = y"
    by (cases x; cases y) (simp_all add: less_eq_rating_def)
qed (auto simp: less_eq_rating_def less_rating_def)

end

lemma UNIV_rating: "UNIV = {Poor, BelowAverage, Average, Good, Excellent}"
  using rating.exhaust by auto

lemma finite_rating [simp, intro]: "finite (A :: rating set)"
  by (rule finite_subset [OF subset_UNIV]) (simp add: UNIV_rating)

lemma meets_Poor [simp]: "meets c Poor s"
  by (simp add: meets_def)

lemma Max_meets_eqI:
  assumes "meets c r s" and "\<And>r'. meets c r' s \<Longrightarrow> r' \<le> r"
  shows "Max {r. meets c r s} = r"
  using assms by (intro Max_eqI) auto

lemma percentile_formula:
  "calculatePercentile (JsInt s) c =
     JsInt ((s - (poor (industryBenchmarks c) - 10)) * 100 div
            ((excellent (industryBenchmarks c) + 10) - (poor (industryBenchmarks c) - 10)))"
  by (simp add: calculatePercentile_def Let_def)

lemma percentile_span: "(excellent (industryBenchmarks c) + 10) - (poor (industryBenchmarks c) - 10) = 65"
  by (cases c) (simp_all add: industryBenchmarks_def)

lemma percentile_in_range:
  assumes "poor (industryBenchmarks c) - 10 \<le> s" and "s \<le> excellent (industryBenchmarks c) + 10"
  shows "calculatePercentile (JsInt s) c = JsInt ((s - (poor (industryBenchmarks c) - 10)) * 100 div 65) \<and>
         in_range 0 100 ((s - (poor (industryBenchmarks c) - 10)) * 100 div 65)"
proof -
  let ?d = "s - (poor (industryBenchmarks c) - 10)"
  have d: "0 \<le> ?d" "?d \<le> 65" using assms percentile_span [of c] by linarith+
  then have "?d * 100 div 65 \<le> 65 * 100 div 65" by (intro zdiv_mono1) simp_all
  then show ?thesis using d by (simp add: percentile_formula percentile_span in_range_def)
qed

lemma div65_bounds:
  fixes x :: int
  shows "0 \<le> x * 100 div 65 \<longleftrightarrow> 0 \<le> x" and "x * 100 div 65 \<le> 100 \<longleftrightarrow> x \<le> 65"
proof -
  show "0 \<le> x * 100 div 65 \<longleftrightarrow> 0 \<le> x"
    by (simp add: pos_imp_zdiv_nonneg_iff zero_le_mult_iff)
  show "x * 100 div 65 \<le> 100 \<longleftrightarrow> x \<le> 65"
  proof
    assume a: "x * 100 div 65 \<le> 100"
    show "x \<le> 65"
    proof (rule ccontr)
      assume "\<not> x \<le> 65"
      then have "66 * 100 \<le> x * 100" by simp
      then have "66 * 100 div 65 \<le> x * 100 div (65::int)" by (rule zdiv_mono1) simp
      with a show False by simp
    qed
  next
    assume "x \<le> 65"
    then have "x * 100 div 65 \<le> 65 * 100 div (65::int)" by (intro zdiv_mono1) simp_all
    then show "x * 100 div 65 \<le> 100" by simp
  qed
qed

subsection \<open>Properties\<close>

text \<open>C5: the rating \<open>compareToBenchmark\<close> gives an integer score is the highest
  bucket whose threshold the score meets, \<open>poor\<close> when it meets none (the
  if-chain of lines 452--462 implements the spec's reading).\<close>

theorem compareToBenchmark_rating_max:
  "rating (compareToBenchmark (JsInt s) c) = Max {r. meets c r s}"
proof (rule sym, rule Max_meets_eqI)
  show "meets c (rating (compareToBenchmark (JsInt s) c)) s"
    by (cases c) (simp_all add: compareToBenchmark_def meets_def industryBenchmarks_def Let_def)
  fix r' assume "meets c r' s"
  then show "r' \<le> rating (compareToBenchmark (JsInt s) c)"
    by (cases c; cases r')
       (simp_all add: compareToBenchmark_def meets_def industryBenchmarks_def Let_def less_eq_rating_def)
qed

text \<open>C6: the percentile of an integer score lies in \<open>[0, 100]\<close> exactly when
  the score lies in \<open>[poor - 10, excellent + 10]\<close> of its category; outside that
  band the unclamped linear rescale leaves \<open>[0, 100]\<close>, although the doc comment
  of \<open>calculatePercentile\<close> promises a percentile in \<open>0-100\<close>.\<close>

theorem calculatePercentile_in_range_iff:
  "(case calculatePercentile (JsInt s) c of JsInt p \<Rightarrow> in_range 0 100 p | JsNaN \<Rightarrow> False) \<longleftrightarrow>
   in_range (poor (industryBenchmarks c) - 10) (excellent (industryBenchmarks c) + 10) s"
proof
  assume "in_range (poor (industryBenchmarks c) - 10) (excellent (industryBenchmarks c) + 10) s"
  then show "case calculatePercentile (JsInt s) c of JsInt p \<Rightarrow> in_range 0 100 p | JsNaN \<Rightarrow> False"
    using percentile_in_range [of c s] by (simp add: in_range_def)
next
  assume h: "case calculatePercentile (JsInt s) c of JsInt p \<Rightarrow> in_range 0 100 p | JsNaN \<Rightarrow> False"
  let ?d = "s - (poor (industryBenchmarks c) - 10)"
  from h have "0 \<le> ?d * 100 div 65" "?d * 100 div 65 \<le> 100"
    by (simp_all add: percentile_formula percentile_span in_range_def)
  then have "0 \<le> ?d" "?d \<le> 65" by (simp_all add: div65_bounds)
  then show "in_range (poor (industryBenchmarks c) - 10) (excellent (industryBenchmarks c) + 10) s"
    using percentile_span [of c] by (simp add: in_range_def)
qed

text \<open>The spec's examples: for the coherence thresholds, scores 90, 72, 60, 45
  and 10 are rated excellent, good, average, below average and poor (shown as those
  strings), and a coherence score of 85 has percentile
  \<open>floor((85 - 30) / 65 * 100) = 84\<close>.\<close>

theorem benchmark_spec_examples:
  "map (\<lambda>s. rating (compareToBenchmark (JsInt s) Coherence)) [90, 72, 60, 45, 10] =
     [Excellent, Good, Average, BelowAverage, Poor] \<and>
   map (\<lambda>r. rating_string r) [Excellent, Good, Average, BelowAverage, Poor] =
     [''excellent'', ''good'', ''average'', ''below average'', ''poor''] \<and>
   percentile (compareToBenchmark (JsInt 85) Coherence) = JsInt 84"
  by (simp add: compareToBenchmark_def industryBenchmarks_def calculatePercentile_def rating_string_def)

end
