(* ===== verification/Engine.thy ===== *)
theory Engine
  imports Random_Source Benchmark
begin

text \<open>
  The analysis engine, \<open>src/js/analysis-engine.js\<close>: the input records the UI
  collects (\<open>platformData\<close>, \<open>audienceData\<close>, objects keyed by platform id), the
  three analyses, the canned findings and recommendations, \<open>analyze\<close> and the
  module state \<open>analysisResults\<close> behind \<open>getResults\<close>/\<open>setResults\<close>.
  Every helper that calls \<open>Math.random\<close> is a computation of \<open>'a rand\<close>,
  with the calls in the order JavaScript evaluates them (object literal fields left to
  right, call arguments before the call, \<open>forEach\<close> in key order).
\<close>

subsection \<open>Input records\<close>

text \<open>The form values of one platform card (\<open>getAllPlatformData\<close>).\<close>

record platform_rec =
  name :: string
  content :: string
  tone :: string
  format :: string
  platform_keywords :: string

text \<open>The numbers of one audience card; \<open>parseFloat\<close> results, with \<open>NaN\<close>
  already mapped to 0 by \<open>getInputValueAsNumber\<close>.\<close>

record age_dist =
  age_18_24 :: real
  age_25_34 :: real
  age_35_44 :: real
  age_45_54 :: real
  age_55_64 :: real
  age_65plus :: real

record gender_dist =
  male :: real
  female :: real
  other :: real

record audience_rec =
  audienceSize :: real
  engagementRate :: real
  ageDistribution :: age_dist
  genderDistribution :: gender_dist
  interests :: string

subsection \<open>Result records\<close>

record platform_coherence =
  coh_score :: int
  strengths :: "string list"
  weaknesses :: "string list"

record comparison =
  platforms :: "nat \<times> nat"
  similarity :: int
  commonThemes :: "string list"
  divergentElements :: "string list"

record coherence_result =
  coh_overallScore :: jsnum
  coh_platformScores :: "platform_coherence jsobj"
  comparisons :: "comparison list"
  coh_benchmarkComparison :: benchmark_comparison

record reach =
  reach_size :: real
  engagement :: real
  primaryAgeGroup :: "string option"
  reach_genderDistribution :: gender_dist

record overlap =
  ov_platforms :: "nat \<times> nat"
  overlapPercentage :: int
  uniqueToFirst :: int
  uniqueToSecond :: int

record audience_result =
  fragmentationScore :: int
  audienceOverlap :: "overlap list"
  platformReach :: "reach jsobj"
  audienceGaps :: "string list"

record platform_consistency =
  cons_score :: int
  keyMessagePresence :: int
  toneConsistency :: int
  valueAlignment :: int

record consistency_result =
  cons_overallScore :: jsnum
  cons_platformScores :: "platform_consistency jsobj"
  cons_benchmarkComparison :: benchmark_comparison

record platform_recommendation =
  title :: string
  recs :: "string list"

record recommendation_set =
  strategyRecommendations :: "string list"
  platformRecommendations :: "platform_recommendation jsobj"
  nextSteps :: "string list"

record analysis_result =
  coherence :: coherence_result
  audience :: audience_result
  consistency :: consistency_result
  keyFindings :: "string list"
  recommendations :: recommendation_set

subsection \<open>Catalogs and random selections (lines 259--337)\<close>

definition strengths_catalog :: "string list" where
  "strengths_catalog = [''Clear brand voice'', ''Consistent key messages'',
     ''Strong visual identity'', ''Engaging content format'',
     ''Well-defined audience targeting'', ''Effective call-to-action'', ''Authentic tone'']"

definition weaknesses_catalog :: "string list" where
  "weaknesses_catalog = [''Inconsistent messaging'', ''Tone mismatch with audience'',
     ''Missing key brand elements'', ''Unclear value proposition'',
     ''Content format limitations'', ''Lack of audience targeting'', ''Weak call-to-action'']"

definition themes_catalog :: "string list" where
  "themes_catalog = [''Core brand values'', ''Key product benefits'', ''Target audience needs'',
     ''Company mission'', ''Service offerings'', ''Customer testimonials'', ''Industry expertise'']"

definition elements_catalog :: "string list" where
  "elements_catalog = [''Tone of voice'', ''Content depth'', ''Call-to-action style'',
     ''Visual presentation'', ''Feature emphasis'', ''Technical detail level'', ''Promotional focus'']"

text \<open>\<open>getRandomElements(catalog, base + Math.floor(Math.random() * 2))\<close>: the count
  is drawn before the sort runs.\<close>

definition pick_from :: "string list \<Rightarrow> int \<Rightarrow> string list rand" where
  "pick_from catalog base = do { k \<leftarrow> floor_random 2; getRandomElements catalog (base + k) }"

definition generateRandomStrengths :: "string list rand" where
  "generateRandomStrengths = pick_from strengths_catalog 2"

definition generateRandomWeaknesses :: "string list rand" where
  "generateRandomWeaknesses = pick_from weaknesses_catalog 1"

definition generateRandomCommonThemes :: "string list rand" where
  "generateRandomCommonThemes = pick_from themes_catalog 2"

definition generateRandomDivergentElements :: "string list rand" where
  "generateRandomDivergentElements = pick_from elements_catalog 2"

subsection \<open>Content coherence (lines 57--104)\<close>

text \<open>The nested loop \<open>for i, for j > i\<close> over the keys.\<close>

definition index_pairs :: "'a list \<Rightarrow> ('a \<times> 'a) list" where
  "index_pairs xs =
     concat (map (\<lambda>i. map (\<lambda>j. (xs ! i, xs ! j)) [Suc i..<length xs]) [0..<length xs])"

text \<open>The order in which the nested loops visit positions \<open>(i, j)\<close>: by \<open>i\<close>,
  then by \<open>j\<close>.\<close>

definition pair_lt :: "nat \<times> nat \<Rightarrow> nat \<times> nat \<Rightarrow> bool" where
  "pair_lt p q \<longleftrightarrow> fst p < fst q \<or> fst p = fst q \<and> snd p < snd q"

definition coherence_entry :: "nat \<Rightarrow> (nat \<times> platform_coherence) rand" where
  "coherence_entry p = do {
     sc \<leftarrow> floor_random 30;
     st \<leftarrow> generateRandomStrengths;
     wk \<leftarrow> generateRandomWeaknesses;
     State_Monad.return (p, \<lparr>coh_score = sc + 60, strengths = st, weaknesses = wk\<rparr>)
   }"

definition comparison_entry :: "nat \<times> nat \<Rightarrow> comparison rand" where
  "comparison_entry pq = do {
     sim \<leftarrow> floor_random 40;
     th \<leftarrow> generateRandomCommonThemes;
     de \<leftarrow> generateRandomDivergentElements;
     State_Monad.return \<lparr>platforms = pq, similarity = sim + 50, commonThemes = th,
                          divergentElements = de\<rparr>
   }"

definition analyzeContentCoherence :: "platform_rec jsobj \<Rightarrow> coherence_result rand" where
  "analyzeContentCoherence platformData = do {
     let platforms = obj_keys platformData;
     scores \<leftarrow> traverse_list coherence_entry platforms;
     comps \<leftarrow> traverse_list comparison_entry (index_pairs platforms);
     let coherenceScores = obj_of_list scores;
     let totalScore = sum_list (map (\<lambda>p. case obj_get coherenceScores p of
                                              Some r \<Rightarrow> coh_score r | None \<Rightarrow> 0) platforms);
     let overallScore = js_floor_div totalScore (length platforms);
     State_Monad.return \<lparr>coh_overallScore = overallScore, coh_platformScores = coherenceScores,
       comparisons = comps, coh_benchmarkComparison = compareToBenchmark overallScore Coherence\<rparr>
   }"

subsection \<open>Audience fragmentation (lines 111--158, 344--376)\<close>

definition ageGroups :: "string list" where
  "ageGroups = [''18-24'', ''25-34'', ''35-44'', ''45-54'', ''55-64'', ''65+'']"

text \<open>\<open>array[i]\<close>: \<open>undefined\<close> (here \<open>None\<close>) outside the array.\<close>

definition js_index :: "'a list \<Rightarrow> int \<Rightarrow> 'a option" where
  "js_index xs i = (if 0 \<le> i \<and> nat i < length xs then Some (xs ! nat i) else None)"

definition calculatePrimaryAgeGroup :: "audience_rec \<Rightarrow> string option rand" where
  "calculatePrimaryAgeGroup a = do {
     i \<leftarrow> floor_random (length ageGroups);
     State_Monad.return (js_index ageGroups i)
   }"

definition calculateFragmentationScore :: "overlap list \<Rightarrow> int rand" where
  "calculateFragmentationScore overlapData = do {
     r \<leftarrow> floor_random 40; State_Monad.return (r + 40) }"

definition identifyAudienceGaps :: "audience_rec jsobj \<Rightarrow> string list" where
  "identifyAudienceGaps audienceData =
     [''35-44 age demographic is underrepresented across all platforms'',
      ''Male audience engagement is lower on Instagram compared to other platforms'',
      ''Technical audience segment shows low engagement with video content'',
      ''International audience has limited representation in current content strategy'']"

text \<open>\<open>audienceSize || 0\<close> and \<open>engagementRate || 0\<close> are the identity on the
  numbers the form produces (\<open>NaN\<close> is already 0); the gender object is always
  present, so its \<open>||\<close> default is never taken.\<close>

definition reach_entry :: "nat \<times> audience_rec \<Rightarrow> (nat \<times> reach) rand" where
  "reach_entry pa = (case pa of (p, a) \<Rightarrow> do {
     g \<leftarrow> calculatePrimaryAgeGroup a;
     State_Monad.return (p, \<lparr>reach_size = audienceSize a, engagement = engagementRate a,
                            primaryAgeGroup = g, reach_genderDistribution = genderDistribution a\<rparr>)
   })"

definition overlap_entry :: "nat \<times> nat \<Rightarrow> overlap rand" where
  "overlap_entry pq = do {
     r \<leftarrow> floor_random 60;
     let overlapPercentage = r + 20;
     State_Monad.return \<lparr>ov_platforms = pq, overlapPercentage = overlapPercentage,
       uniqueToFirst = 100 - overlapPercentage, uniqueToSecond = 100 - overlapPercentage\<rparr>
   }"

definition analyzeAudienceFragmentation :: "audience_rec jsobj \<Rightarrow> audience_result rand" where
  "analyzeAudienceFragmentation audienceData = do {
     let platforms = obj_keys audienceData;
     reach \<leftarrow> traverse_list reach_entry audienceData;
     ovl \<leftarrow> traverse_list overlap_entry (index_pairs platforms);
     fs \<leftarrow> calculateFragmentationScore ovl;
     State_Monad.return \<lparr>fragmentationScore = fs, audienceOverlap = ovl,
       platformReach = obj_of_list reach, audienceGaps = identifyAudienceGaps audienceData\<rparr>
   }"

subsection \<open>Message consistency (lines 165--193)\<close>

definition consistency_entry :: "nat \<Rightarrow> (nat \<times> platform_consistency) rand" where
  "consistency_entry p = do {
     a \<leftarrow> floor_random 35;
     b \<leftarrow> floor_random 30;
     c \<leftarrow> floor_random 40;
     d \<leftarrow> floor_random 30;
     State_Monad.return (p, \<lparr>cons_score = a + 55, keyMessagePresence = b + 70,
                            toneConsistency = c + 60, valueAlignment = d + 65\<rparr>)
   }"

definition analyzeMessageConsistency :: "platform_rec jsobj \<Rightarrow> consistency_result rand" where
  "analyzeMessageConsistency platformData = do {
     let platforms = obj_keys platformData;
     scores \<leftarrow> traverse_list consistency_entry platforms;
     let consistencyScores = obj_of_list scores;
     let totalScore = sum_list (map (\<lambda>p. case obj_get consistencyScores p of
                                              Some r \<Rightarrow> cons_score r | None \<Rightarrow> 0) platforms);
     let overallScore = js_floor_div totalScore (length platforms);
     State_Monad.return \<lparr>cons_overallScore = overallScore, cons_platformScores = consistencyScores,
       cons_benchmarkComparison = compareToBenchmark overallScore Consistency\<rparr>
   }"

subsection \<open>Findings and recommendations (lines 201--252, 384--440)\<close>

definition generateKeyFindings :: "platform_rec jsobj \<Rightarrow> audience_rec jsobj \<Rightarrow> string list" where
  "generateKeyFindings platformData audienceData =
     [''Your message consistency across platforms is 72% (Industry average: 65%)'',
      ''There is a 68% audience overlap between your website and social media platforms'',
      ''Your brand voice varies significantly between your website (formal) and social media (casual)'',
      ''Key messages are consistently present in 85% of content across all platforms'',
      ''Primary audience demographics show significant variation across platforms'']"

definition website_recs :: "string list" where
  "website_recs = [''Ensure key brand messages are prominently displayed on your homepage'',
     ''Align website tone more closely with overall brand voice'',
     ''Include clear links to your social media platforms'',
     ''Develop more in-depth content that can be repurposed for other channels'']"

definition instagram_recs :: "string list" where
  "instagram_recs = [''Maintain visual consistency with your brand guidelines'',
     ''Use stories to highlight content from other platforms'',
     ''Adapt formal content into more engaging visual formats'',
     ''Include clear calls-to-action that direct to your website'']"

definition twitter_recs :: "string list" where
  "twitter_recs = [''Keep brand voice consistent while adapting to platform constraints'',
     ''Create thread formats for longer content pieces from other platforms'',
     ''Engage directly with audience to strengthen community'',
     ''Use platform-specific features like polls to increase engagement'']"

definition linkedin_recs :: "string list" where
  "linkedin_recs = [''Maintain professional tone while aligning with overall brand voice'',
     ''Repurpose detailed content from website into digestible formats'',
     ''Focus on industry expertise and thought leadership'',
     ''Cross-promote content from other platforms in a professional context'']"

definition facebook_recs :: "string list" where
  "facebook_recs = [''Optimize content for both feed and groups'',
     ''Use events feature to drive cross-platform engagement'',
     ''Develop community-focused content that aligns with website messaging'',
     ''Balance promotional content with value-driven posts'']"

definition youtube_recs :: "string list" where
  "youtube_recs = [''Maintain consistent intro/outro across all videos'',
     ''Align video descriptions with website messaging'',
     ''Create video content that complements written content on other platforms'',
     ''Use end screens to direct viewers to your website and other channels'']"

definition generic_recs :: "string list" where
  "generic_recs = [''Ensure brand voice remains consistent while adapting to platform format'',
     ''Cross-reference content from other platforms for message alignment'',
     ''Develop platform-specific content calendar aligned with overall strategy'',
     ''Review engagement metrics to optimize content format and frequency'']"

definition generatePlatformSpecificRecommendations :: "nat \<Rightarrow> platform_rec \<Rightarrow> string list" where
  "generatePlatformSpecificRecommendations platformId pd =
     (let platformName = js_lower (name pd) in
      if js_includes platformName ''website'' then website_recs
      else if js_includes platformName ''instagram'' then instagram_recs
      else if js_includes platformName ''twitter'' \<or> js_includes platformName ''x'' then twitter_recs
      else if js_includes platformName ''linkedin'' then linkedin_recs
      else if js_includes platformName ''facebook'' then facebook_recs
      else if js_includes platformName ''youtube'' then youtube_recs
      else generic_recs)"

definition strategy_catalog :: "string list" where
  "strategy_catalog =
     [''Develop a centralized content calendar to coordinate messaging across all platforms'',
      ''Create platform-specific content guidelines while maintaining core brand elements'',
      ''Consider implementing a cross-platform campaign to bridge audience segments'',
      ''Focus on increasing content consistency across primary platforms'',
      ''Develop platform-specific KPIs aligned with audience engagement patterns'']"

definition nextsteps_catalog :: "string list" where
  "nextsteps_catalog =
     [''Review your content strategy to address identified consistency gaps'',
      ''Develop platform-specific content guidelines based on audience preferences'',
      ''Implement A/B testing to validate optimization recommendations'',
      ''Schedule a follow-up analysis in 3 months to track improvements'',
      ''Consider audience research to better understand segment overlap'']"

definition generateRecommendations ::
  "platform_rec jsobj \<Rightarrow> audience_rec jsobj \<Rightarrow> recommendation_set" where
  "generateRecommendations platformData audienceData =
     \<lparr>strategyRecommendations = strategy_catalog,
      platformRecommendations = obj_of_list (map (\<lambda>(p, pd).
          (p, \<lparr>title = ''Optimize Your '' @ name pd @ '' Strategy'',
               recs = generatePlatformSpecificRecommendations p pd\<rparr>)) platformData),
      nextSteps = nextsteps_catalog\<rparr>"

subsection \<open>\<open>analyze\<close> and the module state (lines 8--50, 488--497)\<close>

definition analyze :: "platform_rec jsobj \<Rightarrow> audience_rec jsobj \<Rightarrow> analysis_result rand" where
  "analyze platformData audienceData = do {
     c \<leftarrow> analyzeContentCoherence platformData;
     a \<leftarrow> analyzeAudienceFragmentation audienceData;
     m \<leftarrow> analyzeMessageConsistency platformData;
     State_Monad.return \<lparr>coherence = c, audience = a, consistency = m,
       keyFindings = generateKeyFindings platformData audienceData,
       recommendations = generateRecommendations platformData audienceData\<rparr>
   }"

text \<open>The closure's state: \<open>analysisResults\<close> (\<open>null\<close> is \<open>None\<close>) and the
  generator behind \<open>Math.random\<close>.\<close>

record engine_state =
  analysisResults :: "analysis_result option"
  random_source :: rng

definition engine_analyze ::
  "platform_rec jsobj \<Rightarrow> audience_rec jsobj \<Rightarrow> engine_state \<Rightarrow> analysis_result \<times> engine_state" where
  "engine_analyze platformData audienceData st =
     (case run_state (analyze platformData audienceData) (random_source st) of
        (results, s') \<Rightarrow> (results, st\<lparr>analysisResults := Some results, random_source := s'\<rparr>))"

definition getResults :: "engine_state \<Rightarrow> analysis_result option" where
  "getResults st = analysisResults st"

definition setResults :: "analysis_result option \<Rightarrow> engine_state \<Rightarrow> engine_state" where
  "setResults results st = st\<lparr>analysisResults := results\<rparr>"

subsection \<open>The documented ranges (spec, section 4.1)\<close>

text \<open>What the spec promises of one result bundle, as executable predicates: each
  score in its range, each text selection a sample without replacement of its catalog
  with the documented size, each overall score the floor of a mean.\<close>

definition sample_of :: "string list \<Rightarrow> nat \<Rightarrow> nat \<Rightarrow> string list \<Rightarrow> bool" where
  "sample_of catalog lo hi ys \<longleftrightarrow>
     set ys \<subseteq> set catalog \<and> distinct ys \<and> lo \<le> length ys \<and> length ys \<le> hi"

definition coherence_entry_ok :: "platform_coherence \<Rightarrow> bool" where
  "coherence_entry_ok r \<longleftrightarrow> in_range 60 89 (coh_score r) \<and>
     sample_of strengths_catalog 2 3 (strengths r) \<and> sample_of weaknesses_catalog 1 2 (weaknesses r)"

definition comparison_ok :: "comparison \<Rightarrow> bool" where
  "comparison_ok c \<longleftrightarrow> in_range 50 89 (similarity c) \<and>
     sample_of themes_catalog 2 3 (commonThemes c) \<and> sample_of elements_catalog 2 3 (divergentElements c)"

definition consistency_entry_ok :: "platform_consistency \<Rightarrow> bool" where
  "consistency_entry_ok r \<longleftrightarrow> in_range 55 89 (cons_score r) \<and>
     in_range 70 99 (keyMessagePresence r) \<and> in_range 60 99 (toneConsistency r) \<and>
     in_range 65 94 (valueAlignment r)"

definition overlap_ok :: "overlap \<Rightarrow> bool" where
  "overlap_ok ov \<longleftrightarrow> in_range 20 79 (overlapPercentage ov) \<and>
     uniqueToFirst ov = 100 - overlapPercentage ov \<and> uniqueToSecond ov = 100 - overlapPercentage ov"

definition reach_ok :: "audience_rec \<Rightarrow> reach \<Rightarrow> bool" where
  "reach_ok a re \<longleftrightarrow> reach_size re = audienceSize a \<and> engagement re = engagementRate a \<and>
     primaryAgeGroup re \<in> Some ` set ageGroups"

text \<open>An overall score over \<open>n\<close> platforms: \<open>NaN\<close> for none, else an integer in
  the range.\<close>

definition overall_ok :: "int \<Rightarrow> int \<Rightarrow> nat \<Rightarrow> jsnum \<Rightarrow> bool" where
  "overall_ok lo hi n x \<longleftrightarrow>
     (if n = 0 then x = JsNaN else (case x of JsInt v \<Rightarrow> in_range lo hi v | JsNaN \<Rightarrow> False))"

subsection \<open>Example inputs\<close>

text \<open>Two platform cards and their audience cards as the forms produce them, and a
  generator that always returns \<open>0.5\<close>; the witnesses below apply the theorems to them.\<close>

definition example_platform :: "string \<Rightarrow> platform_rec" where
  "example_platform n = \<lparr>name = n, content = ''Our mission is clarity'', tone = ''formal'',
     format = ''article'', platform_keywords = ''brand, clarity''\<rparr>"

definition example_audience :: audience_rec where
  "example_audience = \<lparr>audienceSize = 10000, engagementRate = 5 / 2,
     ageDistribution = \<lparr>age_18_24 = 20, age_25_34 = 30, age_35_44 = 20, age_45_54 = 15,
                        age_55_64 = 10, age_65plus = 5\<rparr>,
     genderDistribution = \<lparr>male = 48, female = 50, other = 2\<rparr>, interests = ''Technology''\<rparr>"

definition example_platformData :: "platform_rec jsobj" where
  "example_platformData = [(1, example_platform ''Website''), (2, example_platform ''Instagram'')]"

definition example_audienceData :: "audience_rec jsobj" where
  "example_audienceData = [(1, example_audience), (2, example_audience)]"

definition example_rng :: rng where
  "example_rng = sconst (1 / 2)"

subsection \<open>Lemmas: catalogs, generator discipline, samples\<close>

lemma catalogs_distinct:
  "distinct strengths_catalog" "distinct weaknesses_catalog"
  "distinct themes_catalog" "distinct elements_catalog"
  by (simp_all add: strengths_catalog_def weaknesses_catalog_def themes_catalog_def elements_catalog_def)

lemma catalog_lengths:
  "length strengths_catalog = 7" "length weaknesses_catalog = 7"
  "length themes_catalog = 7" "length elements_catalog = 7"
  by (simp_all add: strengths_catalog_def weaknesses_catalog_def themes_catalog_def elements_catalog_def)

lemma keeps_wf_generate [rand_wf]:
  "keeps_wf (pick_from c b)"
  "keeps_wf generateRandomStrengths" "keeps_wf generateRandomWeaknesses"
  "keeps_wf generateRandomCommonThemes" "keeps_wf generateRandomDivergentElements"
  by (simp_all add: pick_from_def generateRandomStrengths_def generateRandomWeaknesses_def
      generateRandomCommonThemes_def generateRandomDivergentElements_def rand_wf)

lemma keeps_wf_engine [rand_wf]:
  "keeps_wf (coherence_entry p)" "keeps_wf (comparison_entry pq)"
  "keeps_wf (analyzeContentCoherence pd)"
  "keeps_wf (calculatePrimaryAgeGroup a)" "keeps_wf (calculateFragmentationScore ov)"
  "keeps_wf (reach_entry pa)" "keeps_wf (overlap_entry pq)"
  "keeps_wf (analyzeAudienceFragmentation ad)"
  "keeps_wf (consistency_entry p)" "keeps_wf (analyzeMessageConsistency pd)"
  "keeps_wf (analyze pd ad)"
  by (simp_all add: coherence_entry_def comparison_entry_def analyzeContentCoherence_def
      calculatePrimaryAgeGroup_def calculateFragmentationScore_def reach_entry_def
      overlap_entry_def analyzeAudienceFragmentation_def consistency_entry_def
      analyzeMessageConsistency_def analyze_def Let_def rand_wf split: prod.split)

lemma pick_from_sample:
  assumes "0 \<le> base" and "distinct catalog" and "nat base + 1 \<le> length catalog"
  shows "ensures (sample_of catalog (nat base) (nat base + 1)) (pick_from catalog base)"
  unfolding pick_from_def
proof (rule ensures_bind [OF keeps_wf_floor_random floor_random_bounds [of 2]])
  fix k :: int
  assume k: "0 \<le> k \<and> k < int 2"
  then have "0 \<le> base + k" using assms(1) by simp
  then show "ensures (sample_of catalog (nat base) (nat base + 1)) (getRandomElements catalog (base + k))"
    by (rule ensures_mono [OF getRandomElements_sample])
       (use k assms in \<open>auto simp: sample_of_def\<close>)
qed simp

lemma generateRandom_samples:
  "ensures (sample_of strengths_catalog 2 3) generateRandomStrengths"
  "ensures (sample_of weaknesses_catalog 1 2) generateRandomWeaknesses"
  "ensures (sample_of themes_catalog 2 3) generateRandomCommonThemes"
  "ensures (sample_of elements_catalog 2 3) generateRandomDivergentElements"
  using pick_from_sample [OF _ catalogs_distinct(1), of 2] pick_from_sample [OF _ catalogs_distinct(2), of 1]
    pick_from_sample [OF _ catalogs_distinct(3), of 2] pick_from_sample [OF _ catalogs_distinct(4), of 2]
  by (simp_all add: generateRandomStrengths_def generateRandomWeaknesses_def
      generateRandomCommonThemes_def generateRandomDivergentElements_def catalog_lengths
      numeral_2_eq_2 numeral_3_eq_3)

lemma entry_keys:
  "always (\<lambda>e. fst e = p) (coherence_entry p)"
  "always (\<lambda>e. fst e = p) (consistency_entry p)"
  "always (\<lambda>e. fst e = fst pa) (reach_entry pa)"
  "always (\<lambda>c. platforms c = pq) (comparison_entry pq)"
  "always (\<lambda>ov. ov_platforms ov = pq) (overlap_entry pq)"
  by (simp_all add: always_def coherence_entry_def consistency_entry_def comparison_entry_def
      overlap_entry_def reach_entry_def case_prod_beta Let_def)

lemma coherence_entry_in_range: "ensures (\<lambda>e. coherence_entry_ok (snd e)) (coherence_entry p)"
  unfolding coherence_entry_def
  by (rule ensures_bind [OF keeps_wf_floor_random floor_random_range [of 30 60]], simp,
      rule ensures_bind [OF keeps_wf_generate(2) generateRandom_samples(1)],
      rule ensures_bind [OF keeps_wf_generate(3) generateRandom_samples(2)],
      rule ensures_return, simp add: coherence_entry_ok_def add.commute)

lemma comparison_entry_in_range: "ensures comparison_ok (comparison_entry pq)"
  unfolding comparison_entry_def
  by (rule ensures_bind [OF keeps_wf_floor_random floor_random_range [of 40 50]], simp,
      rule ensures_bind [OF keeps_wf_generate(4) generateRandom_samples(3)],
      rule ensures_bind [OF keeps_wf_generate(5) generateRandom_samples(4)],
      rule ensures_return, simp add: comparison_ok_def add.commute)

lemma consistency_entry_in_range: "ensures (\<lambda>e. consistency_entry_ok (snd e)) (consistency_entry p)"
  unfolding consistency_entry_def
  by (rule ensures_bind [OF keeps_wf_floor_random floor_random_range [of 35 55]], simp,
      rule ensures_bind [OF keeps_wf_floor_random floor_random_range [of 30 70]], simp,
      rule ensures_bind [OF keeps_wf_floor_random floor_random_range [of 40 60]], simp,
      rule ensures_bind [OF keeps_wf_floor_random floor_random_range [of 30 65]], simp,
      rule ensures_return, simp add: consistency_entry_ok_def add.commute)

lemma overlap_entry_in_range: "ensures overlap_ok (overlap_entry pq)"
  unfolding overlap_entry_def Let_def
  by (rule ensures_bind [OF keeps_wf_floor_random floor_random_range [of 60 20]], simp,
      rule ensures_return, simp add: overlap_ok_def add.commute)

lemma reach_entry_in_range: "ensures (\<lambda>e. reach_ok (snd pa) (snd e)) (reach_entry pa)"
proof -
  have "ensures (\<lambda>g. g \<in> Some ` set ageGroups) (calculatePrimaryAgeGroup a)" for a
    unfolding calculatePrimaryAgeGroup_def
    by (rule ensures_bind [OF keeps_wf_floor_random floor_random_bounds], simp add: ageGroups_def,
        rule ensures_return, auto simp: js_index_def)
  then show ?thesis
    unfolding reach_entry_def
    by (cases pa) (simp, rule ensures_bind [OF keeps_wf_engine(4)], assumption,
                   rule ensures_return, simp add: reach_ok_def)
qed

lemma fragmentation_in_range: "ensures (in_range 40 79) (calculateFragmentationScore ov)"
  unfolding calculateFragmentationScore_def
  by (rule ensures_bind [OF keeps_wf_floor_random floor_random_range [of 40 40]], simp,
      rule ensures_return, simp add: add.commute)


lemma keyed_overall:
  assumes "map fst scores = ks" and "sorted_wrt (<) ks"
    and "list_all (\<lambda>e. in_range lo hi (g (snd e))) scores"
  shows "overall_ok lo hi (length ks)
           (js_floor_div (sum_list (map (\<lambda>p. case obj_get (obj_of_list scores) p of
              Some r \<Rightarrow> g r | None \<Rightarrow> 0) ks)) (length ks))"
proof -
  have len: "length ks = length scores" using assms(1) by (metis length_map)
  have vals: "list_all (in_range lo hi) (map (\<lambda>e. g (snd e)) scores)"
    using assms(3) by (simp add: list_all_iff)
  show ?thesis
  proof (cases "scores = []")
    case True
    then show ?thesis using len by (simp add: overall_ok_def js_floor_div_def)
  next
    case False
    then show ?thesis
      using keyed_total(2) [OF assms(1,2), where g = g and d = 0] mean_floor_bounds [OF _ vals] len
      by (simp add: overall_ok_def js_floor_div_def)
  qed
qed

lemma analyzeContentCoherence_in_range:
  assumes "obj_wf platformData"
  shows "ensures (\<lambda>r. obj_keys (coh_platformScores r) = obj_keys platformData \<and>
            list_all (\<lambda>e. coherence_entry_ok (snd e)) (coh_platformScores r) \<and>
            list_all comparison_ok (comparisons r) \<and>
            overall_ok 60 89 (length (obj_keys platformData)) (coh_overallScore r))
          (analyzeContentCoherence platformData)"
  unfolding analyzeContentCoherence_def Let_def
proof (rule ensures_bind [OF keeps_wf_traverse ensures_traverse_keyed [OF _ entry_keys(1)
         coherence_entry_in_range]], goal_cases)
  case (3 scores)
  then have sc: "map fst scores = obj_keys platformData"
    and ok: "list_all (\<lambda>e. coherence_entry_ok (snd e)) scores" by simp_all
  have sorted: "sorted_wrt (<) (obj_keys platformData)" using assms by (simp add: obj_wf_def)
  have obj: "obj_of_list scores = scores" using sc sorted by (rule keyed_total(1))
  have ov: "overall_ok 60 89 (length (obj_keys platformData))
             (js_floor_div (sum_list (map (\<lambda>p. case obj_get (obj_of_list scores) p of
               Some r \<Rightarrow> coh_score r | None \<Rightarrow> 0) (obj_keys platformData))) (length (obj_keys platformData)))"
    using sc sorted ok by (intro keyed_overall) (auto simp: list_all_iff coherence_entry_ok_def)
  show ?case
    by (rule ensures_bind [OF keeps_wf_traverse ensures_traverse [OF _ comparison_entry_in_range]])
       (use sc ok ov obj in \<open>auto simp: rand_wf obj_keys_def intro!: ensures_return\<close>)
qed (simp_all add: rand_wf)

lemma analyzeMessageConsistency_in_range:
  assumes "obj_wf platformData"
  shows "ensures (\<lambda>r. obj_keys (cons_platformScores r) = obj_keys platformData \<and>
            list_all (\<lambda>e. consistency_entry_ok (snd e)) (cons_platformScores r) \<and>
            overall_ok 55 89 (length (obj_keys platformData)) (cons_overallScore r))
          (analyzeMessageConsistency platformData)"
  unfolding analyzeMessageConsistency_def Let_def
proof (rule ensures_bind [OF keeps_wf_traverse ensures_traverse_keyed [OF _ entry_keys(2)
         consistency_entry_in_range]], goal_cases)
  case (3 scores)
  then have sc: "map fst scores = obj_keys platformData"
    and ok: "list_all (\<lambda>e. consistency_entry_ok (snd e)) scores" by simp_all
  have sorted: "sorted_wrt (<) (obj_keys platformData)" using assms by (simp add: obj_wf_def)
  have obj: "obj_of_list scores = scores" using sc sorted by (rule keyed_total(1))
  have ov: "overall_ok 55 89 (length (obj_keys platformData))
             (js_floor_div (sum_list (map (\<lambda>p. case obj_get (obj_of_list scores) p of
               Some r \<Rightarrow> cons_score r | None \<Rightarrow> 0) (obj_keys platformData))) (length (obj_keys platformData)))"
    using sc sorted ok by (intro keyed_overall) (auto simp: list_all_iff consistency_entry_ok_def)
  show ?case
    using sc ok ov obj by (auto simp: obj_keys_def intro!: ensures_return)
qed (simp_all add: rand_wf)

lemma analyzeAudienceFragmentation_in_range:
  assumes "obj_wf audienceData"
  shows "ensures (\<lambda>r. list_all2 (\<lambda>pa e. fst e = fst pa \<and> reach_ok (snd pa) (snd e))
              audienceData (platformReach r) \<and>
            list_all overlap_ok (audienceOverlap r) \<and> in_range 40 79 (fragmentationScore r))
          (analyzeAudienceFragmentation audienceData)"
  unfolding analyzeAudienceFragmentation_def Let_def
proof (rule ensures_bind [OF keeps_wf_traverse ensures_traverse_rel [OF _
         ensures_conj [OF always_ensures [OF entry_keys(3)] reach_entry_in_range]]], goal_cases)
  case (3 reach)
  then have rel: "list_all2 (\<lambda>pa e. fst e = fst pa \<and> reach_ok (snd pa) (snd e)) audienceData reach"
    by simp
  then have "map fst reach = map fst audienceData"
    by (induction rule: list_all2_induct) simp_all
  then have obj: "obj_of_list reach = reach"
    using assms by (intro obj_of_list_sorted) (simp add: obj_wf_def obj_keys_def)
  show ?case
  proof (rule ensures_bind [OF keeps_wf_traverse ensures_traverse [OF _ overlap_entry_in_range]],
         goal_cases)
    case (3 ovl)
    show ?case
      by (rule ensures_bind [OF keeps_wf_engine(5) fragmentation_in_range])
         (use rel obj 3 in \<open>auto intro!: ensures_return\<close>)
  qed (simp_all add: rand_wf)
qed (simp_all add: rand_wf)

lemma map_pair_nth: "map (\<lambda>j. (x, xs ! j)) [0..<length xs] = map (Pair x) xs"
  by (metis (no_types, lifting) map_eq_conv map_map map_nth comp_apply)

lemma index_pairs_Cons: "index_pairs (x # xs) = map (Pair x) xs @ index_pairs xs"
proof -
  let ?F = "\<lambda>i. map (\<lambda>j. ((x # xs) ! i, (x # xs) ! j)) [Suc i..<Suc (length xs)]"
  have e1: "index_pairs (x # xs) = ?F 0 @ concat (map (\<lambda>i. ?F (Suc i)) [0..<length xs])"
    by (simp add: index_pairs_def upt_conv_Cons map_Suc_upt[symmetric] comp_def del: upt_Suc)
  have e2: "?F 0 = map (Pair x) xs"
    by (simp add: map_Suc_upt[symmetric] comp_def map_pair_nth del: upt_Suc)
  have e3: "?F (Suc i) = map (\<lambda>j. (xs ! i, xs ! j)) [Suc i..<length xs]" for i
    by (simp add: map_Suc_upt[symmetric] comp_def del: upt_Suc)
  show ?thesis using e1 e2 e3 by (simp add: index_pairs_def)
qed

lemma length_index_pairs: "length (index_pairs xs) = length xs * (length xs - 1) div 2"
proof (induction xs)
  case Nil
  then show ?case by (simp add: index_pairs_def)
next
  case (Cons x xs)
  then show ?case
    by (cases xs) (auto simp: index_pairs_Cons algebra_simps)
qed

lemma ensures_analyze:
  assumes "ensures Pc (analyzeContentCoherence pd)"
    and "ensures Pa (analyzeAudienceFragmentation ad)"
    and "ensures Pm (analyzeMessageConsistency pd)"
  shows "ensures (\<lambda>r. Pc (coherence r) \<and> Pa (audience r) \<and> Pm (consistency r)) (analyze pd ad)"
  unfolding analyze_def
  by (rule ensures_bind [OF keeps_wf_engine(3) assms(1)],
      rule ensures_bind [OF keeps_wf_engine(8) assms(2)],
      rule ensures_bind [OF keeps_wf_engine(10) assms(3)], simp add: ensures_return)

lemma example_wf: "obj_wf example_platformData" "obj_wf example_audienceData" "rng_wf example_rng"
  by (simp_all add: example_platformData_def example_audienceData_def example_rng_def rng_wf_def sconst_streams)

lemma always_analyze:
  assumes "always Pc (analyzeContentCoherence pd)"
    and "always Pa (analyzeAudienceFragmentation ad)"
    and "always Pm (analyzeMessageConsistency pd)"
  shows "always (\<lambda>r. Pc (coherence r) \<and> Pa (audience r) \<and> Pm (consistency r)) (analyze pd ad)"
  unfolding analyze_def
  by (rule always_bind [OF assms(1)], rule always_bind [OF assms(2)],
      rule always_bind [OF assms(3)], simp add: always_return)

lemma analyzeContentCoherence_structure:
  assumes "obj_wf platformData"
  shows "always (\<lambda>c. obj_keys (coh_platformScores c) = obj_keys platformData \<and>
            coh_overallScore c = js_floor_div (sum_list (map (\<lambda>e. coh_score (snd e)) (coh_platformScores c)))
                                   (length (obj_keys platformData)))
          (analyzeContentCoherence platformData)"
  unfolding analyzeContentCoherence_def Let_def
proof (rule always_bind [OF always_traverse_keys [OF entry_keys(1)]], goal_cases)
  case (1 scores)
  have sorted: "sorted_wrt (<) (obj_keys platformData)" using assms by (simp add: obj_wf_def)
  note kt = keyed_total(1) [OF 1 sorted] keyed_total(2) [OF 1 sorted, where g = coh_score and d = 0]
  have keys: "obj_keys scores = obj_keys platformData" using 1 by (simp add: obj_keys_def)
  show ?case
    by (rule always_bind [OF always_True]) (use keys kt in \<open>auto intro!: always_return\<close>)
qed

lemma analyzeMessageConsistency_structure:
  assumes "obj_wf platformData"
  shows "always (\<lambda>m. obj_keys (cons_platformScores m) = obj_keys platformData \<and>
            cons_overallScore m = js_floor_div (sum_list (map (\<lambda>e. cons_score (snd e)) (cons_platformScores m)))
                                   (length (obj_keys platformData)))
          (analyzeMessageConsistency platformData)"
  unfolding analyzeMessageConsistency_def Let_def
proof (rule always_bind [OF always_traverse_keys [OF entry_keys(2)]], goal_cases)
  case (1 scores)
  have sorted: "sorted_wrt (<) (obj_keys platformData)" using assms by (simp add: obj_wf_def)
  note kt = keyed_total(1) [OF 1 sorted] keyed_total(2) [OF 1 sorted, where g = cons_score and d = 0]
  have keys: "obj_keys scores = obj_keys platformData" using 1 by (simp add: obj_keys_def)
  show ?case using keys kt by (auto intro!: always_return)
qed

lemma analyses_shape:
  "always (\<lambda>c. map platforms (comparisons c) = index_pairs (obj_keys platformData) \<and>
            coh_benchmarkComparison c = compareToBenchmark (coh_overallScore c) Coherence)
     (analyzeContentCoherence platformData)"
  "always (\<lambda>m. cons_benchmarkComparison m = compareToBenchmark (cons_overallScore m) Consistency)
     (analyzeMessageConsistency platformData)"
  unfolding analyzeContentCoherence_def analyzeMessageConsistency_def Let_def
  by (rule always_bind [OF always_True], rule always_bind [OF always_traverse_map [OF entry_keys(4)]],
      simp add: always_return) (rule always_bind [OF always_True], simp add: always_return)

lemma analyzeAudienceFragmentation_structure:
  "always (\<lambda>a. map ov_platforms (audienceOverlap a) = index_pairs (obj_keys audienceData))
     (analyzeAudienceFragmentation audienceData)"
  unfolding analyzeAudienceFragmentation_def Let_def
  by (rule always_bind [OF always_True], rule always_bind [OF always_traverse_map [OF entry_keys(5)]],
      rule always_bind [OF always_True], simp add: always_return)


lemma overall_percentile:
  assumes "overall_ok lo hi n x" and "0 < n"
    and "poor (industryBenchmarks c) - 10 \<le> lo" and "hi \<le> excellent (industryBenchmarks c) + 10"
  shows "case percentile (compareToBenchmark x c) of JsInt p \<Rightarrow> in_range 0 100 p | JsNaN \<Rightarrow> False"
proof -
  obtain v where v: "x = JsInt v" "in_range lo hi v"
    using assms(1,2) by (cases x) (auto simp: overall_ok_def)
  then show ?thesis using percentile_in_range [of c v] assms(3,4)
    by (simp add: compareToBenchmark_def Let_def in_range_def)
qed

subsection \<open>Properties of \<open>analyze\<close>\<close>

text \<open>C1: for every sequence of values \<open>Math.random\<close> may return, each category's
  overall score is the floor of the mean of that category's per-platform scores
  (\<open>NaN\<close> for no platform), and the per-platform scores are keyed by exactly the
  submitted platform ids, in key order.\<close>

theorem analyze_overall_is_floor_mean:
  assumes "obj_wf platformData"
  shows "let r = fst (run_state (analyze platformData audienceData) s) in
     obj_keys (coh_platformScores (coherence r)) = obj_keys platformData \<and>
     coh_overallScore (coherence r) =
       js_floor_div (sum_list (map (\<lambda>e. coh_score (snd e)) (coh_platformScores (coherence r))))
                    (length (obj_keys platformData)) \<and>
     obj_keys (cons_platformScores (consistency r)) = obj_keys platformData \<and>
     cons_overallScore (consistency r) =
       js_floor_div (sum_list (map (\<lambda>e. cons_score (snd e)) (cons_platformScores (consistency r))))
                    (length (obj_keys platformData))"
  using always_analyze [OF analyzeContentCoherence_structure [OF assms]
      always_True analyzeMessageConsistency_structure [OF assms]]
  by (simp add: always_def)

theorem analyze_overall_is_floor_mean_witness:
  "obj_wf example_platformData \<and>
   (let r = fst (run_state (analyze example_platformData example_audienceData) example_rng) in
     obj_keys (coh_platformScores (coherence r)) = obj_keys example_platformData \<and>
     coh_overallScore (coherence r) =
       js_floor_div (sum_list (map (\<lambda>e. coh_score (snd e)) (coh_platformScores (coherence r))))
                    (length (obj_keys example_platformData)) \<and>
     obj_keys (cons_platformScores (consistency r)) = obj_keys example_platformData \<and>
     cons_overallScore (consistency r) =
       js_floor_div (sum_list (map (\<lambda>e. cons_score (snd e)) (cons_platformScores (consistency r))))
                    (length (obj_keys example_platformData)))"
  by (rule conjI [OF example_wf(1) analyze_overall_is_floor_mean [OF example_wf(1)]])

text \<open>C2: when \<open>Math.random\<close> keeps its contract (values in \<open>[0, 1)\<close>), every
  per-platform coherence score lies in \<open>[60, 89]\<close> with 2--3 distinct strengths and
  1--2 distinct weaknesses drawn from their catalogs, every pairwise similarity lies in
  \<open>[50, 89]\<close> with 2--3 common themes and divergent elements, and the overall
  coherence score lies in \<open>[60, 89]\<close> (or is \<open>NaN\<close> for no platform).\<close>

theorem analyze_coherence_in_range:
  assumes "obj_wf platformData" and "rng_wf s"
  shows "let c = coherence (fst (run_state (analyze platformData audienceData) s)) in
     list_all (\<lambda>e. coherence_entry_ok (snd e)) (coh_platformScores c) \<and>
     list_all comparison_ok (comparisons c) \<and>
     overall_ok 60 89 (length (obj_keys platformData)) (coh_overallScore c)"
  using ensures_analyze [OF analyzeContentCoherence_in_range [OF assms(1)]
      ensures_mono [OF always_ensures [OF always_True]] ensures_mono [OF always_ensures [OF always_True]]] assms(2)
  by (simp add: ensures_def)

theorem analyze_coherence_in_range_witness:
  "obj_wf example_platformData \<and> rng_wf example_rng \<and>
   (let c = coherence (fst (run_state (analyze example_platformData example_audienceData) example_rng)) in
     list_all (\<lambda>e. coherence_entry_ok (snd e)) (coh_platformScores c) \<and>
     list_all comparison_ok (comparisons c) \<and>
     overall_ok 60 89 (length (obj_keys example_platformData)) (coh_overallScore c))"
  using example_wf(1,3) analyze_coherence_in_range [OF example_wf(1,3)] by blast

text \<open>C3: under the same contract, every per-platform consistency score lies in
  \<open>[55, 89]\<close>, key-message presence in \<open>[70, 99]\<close>, tone consistency in
  \<open>[60, 99]\<close>, value alignment in \<open>[65, 94]\<close>, and the overall consistency
  score in \<open>[55, 89]\<close> (or \<open>NaN\<close> for no platform).\<close>

theorem analyze_consistency_in_range:
  assumes "obj_wf platformData" and "rng_wf s"
  shows "let m = consistency (fst (run_state (analyze platformData audienceData) s)) in
     list_all (\<lambda>e. consistency_entry_ok (snd e)) (cons_platformScores m) \<and>
     overall_ok 55 89 (length (obj_keys platformData)) (cons_overallScore m)"
  using ensures_analyze [OF ensures_mono [OF always_ensures [OF always_True]]
      ensures_mono [OF always_ensures [OF always_True]] analyzeMessageConsistency_in_range [OF assms(1)]] assms(2)
  by (simp add: ensures_def)

theorem analyze_consistency_in_range_witness:
  "obj_wf example_platformData \<and> rng_wf example_rng \<and>
   (let m = consistency (fst (run_state (analyze example_platformData example_audienceData) example_rng)) in
     list_all (\<lambda>e. consistency_entry_ok (snd e)) (cons_platformScores m) \<and>
     overall_ok 55 89 (length (obj_keys example_platformData)) (cons_overallScore m))"
  using example_wf(1,3) analyze_consistency_in_range [OF example_wf(1,3)] by blast

text \<open>C4: under the same contract, the audience analysis reports each platform's
  size and engagement as entered and a primary age group from the six buckets, every
  pairwise overlap lies in \<open>[20, 79]\<close> with \<open>uniqueToFirst = uniqueToSecond =
  100 - overlap\<close>, and the fragmentation score lies in \<open>[40, 79]\<close>.\<close>

theorem analyze_audience_in_range:
  assumes "obj_wf audienceData" and "rng_wf s"
  shows "let a = audience (fst (run_state (analyze platformData audienceData) s)) in
     list_all2 (\<lambda>pa e. fst e = fst pa \<and> reach_ok (snd pa) (snd e)) audienceData (platformReach a) \<and>
     list_all overlap_ok (audienceOverlap a) \<and> in_range 40 79 (fragmentationScore a)"
  using ensures_analyze [OF ensures_mono [OF always_ensures [OF always_True]]
      analyzeAudienceFragmentation_in_range [OF assms(1)] ensures_mono [OF always_ensures [OF always_True]]] assms(2)
  by (simp add: ensures_def)

theorem analyze_audience_in_range_witness:
  "obj_wf example_audienceData \<and> rng_wf example_rng \<and>
   (let a = audience (fst (run_state (analyze example_platformData example_audienceData) example_rng)) in
     list_all2 (\<lambda>pa e. fst e = fst pa \<and> reach_ok (snd pa) (snd e)) example_audienceData (platformReach a) \<and>
     list_all overlap_ok (audienceOverlap a) \<and> in_range 40 79 (fragmentationScore a))"
  using example_wf(2,3) analyze_audience_in_range [OF example_wf(2,3)] by blast

lemma sorted_pair_blocks:
  "sorted_wrt (<) L \<Longrightarrow> sorted_wrt pair_lt (concat (map (\<lambda>i. map (Pair i) [Suc i..<n]) L))"
proof (induction L)
  case (Cons a L)
  have "sorted_wrt pair_lt (map (Pair a) [Suc a..<n])"
    by (simp add: sorted_wrt_map pair_lt_def sorted_wrt_iff_nth_less)
  then show ?case using Cons by (auto simp: sorted_wrt_append) (auto simp: pair_lt_def)
qed simp

lemma set_pair_blocks:
  "set (concat (map (\<lambda>i. map (Pair i) [Suc i..<n]) [0..<n])) = {(i, j). i < j \<and> j < n}"
  by (auto intro!: bexI [where x = "fst _"] simp: image_iff)

text \<open>The loop's pairs read through the positions it visits.\<close>

lemma index_pairs_positions:
  "\<exists>ps. sorted_wrt pair_lt ps \<and> set ps = {(i, j). i < j \<and> j < length xs} \<and>
        index_pairs xs = map (\<lambda>(i, j). (xs ! i, xs ! j)) ps"
proof (intro exI conjI)
  let ?ps = "concat (map (\<lambda>i. map (Pair i) [Suc i..<length xs]) [0..<length xs])"
  show "sorted_wrt pair_lt ?ps" by (rule sorted_pair_blocks) simp
  show "set ?ps = {(i, j). i < j \<and> j < length xs}" by (rule set_pair_blocks)
  show "index_pairs xs = map (\<lambda>(i, j). (xs ! i, xs ! j)) ?ps"
    by (simp add: index_pairs_def map_concat comp_def)
qed

text \<open>C8: the pairwise coherence comparisons and audience overlaps are one entry
  \<open>(ks ! i, ks ! j)\<close> for each pair of positions \<open>i < j\<close> of the keys \<open>ks\<close>, each pair
  once, ordered by \<open>i\<close> and then by \<open>j\<close> as the nested loops visit them, so
  \<open>n (n - 1) / 2\<close> comparisons, whatever \<open>Math.random\<close> returns.\<close>

theorem analyze_pairwise_entries:
  "let r = fst (run_state (analyze platformData audienceData) s);
       ks = obj_keys platformData; as = obj_keys audienceData in
     (\<exists>ps. sorted_wrt pair_lt ps \<and> set ps = {(i, j). i < j \<and> j < length ks} \<and>
           map platforms (comparisons (coherence r)) = map (\<lambda>(i, j). (ks ! i, ks ! j)) ps) \<and>
     (\<exists>ps. sorted_wrt pair_lt ps \<and> set ps = {(i, j). i < j \<and> j < length as} \<and>
           map ov_platforms (audienceOverlap (audience r)) = map (\<lambda>(i, j). (as ! i, as ! j)) ps) \<and>
     length (comparisons (coherence r)) = length platformData * (length platformData - 1) div 2"
proof -
  have "always (\<lambda>r. (map platforms (comparisons (coherence r)) = index_pairs (obj_keys platformData) \<and>
            coh_benchmarkComparison (coherence r) = compareToBenchmark (coh_overallScore (coherence r)) Coherence) \<and>
          map ov_platforms (audienceOverlap (audience r)) = index_pairs (obj_keys audienceData) \<and> True)
          (analyze platformData audienceData)"
    by (rule always_analyze [OF analyses_shape(1) analyzeAudienceFragmentation_structure always_True])
  then have m: "map platforms (comparisons (coherence (fst (run_state (analyze platformData audienceData) s))))
                  = index_pairs (obj_keys platformData)"
    and a: "map ov_platforms (audienceOverlap (audience (fst (run_state (analyze platformData audienceData) s))))
                  = index_pairs (obj_keys audienceData)"
    by (simp_all add: always_def)
  have "length (comparisons (coherence (fst (run_state (analyze platformData audienceData) s))))
        = length (index_pairs (obj_keys platformData))"
    using m by (metis length_map)
  then show ?thesis
    using m a index_pairs_positions [of "obj_keys platformData"] index_pairs_positions [of "obj_keys audienceData"]
    by (simp add: Let_def length_index_pairs obj_keys_def)
qed

text \<open>C10: a platform whose lower-cased name contains the letter \<open>x\<close> (and
  neither \<open>website\<close> nor \<open>instagram\<close>) receives the Twitter/X recommendations,
  whatever else its name says: \<open>includes('x')\<close> is a substring test, so a
  LinkedIn platform named "LinkedIn Executives" gets Twitter advice.\<close>

theorem platform_recommendations_x_substring:
  assumes "js_includes (js_lower (name pd)) ''x''"
    and "\<not> js_includes (js_lower (name pd)) ''website''"
    and "\<not> js_includes (js_lower (name pd)) ''instagram''"
  shows "generatePlatformSpecificRecommendations k pd = twitter_recs"
  using assms by (simp add: generatePlatformSpecificRecommendations_def Let_def)

theorem platform_recommendations_x_substring_witness:
  "js_includes (js_lower (name (example_platform ''LinkedIn Executives''))) ''x'' \<and>
   \<not> js_includes (js_lower (name (example_platform ''LinkedIn Executives''))) ''website'' \<and>
   \<not> js_includes (js_lower (name (example_platform ''LinkedIn Executives''))) ''instagram'' \<and>
   generatePlatformSpecificRecommendations 3 (example_platform ''LinkedIn Executives'') = twitter_recs \<and>
   twitter_recs \<noteq> linkedin_recs"
proof -
  have h: "js_includes (js_lower (name (example_platform ''LinkedIn Executives''))) ''x''"
          "\<not> js_includes (js_lower (name (example_platform ''LinkedIn Executives''))) ''website''"
          "\<not> js_includes (js_lower (name (example_platform ''LinkedIn Executives''))) ''instagram''"
    by (code_simp, code_simp, code_simp)
  have "twitter_recs \<noteq> linkedin_recs" by (simp add: twitter_recs_def linkedin_recs_def)
  then show ?thesis using h platform_recommendations_x_substring [OF h] by blast
qed

text \<open>With no platform, both overall scores are \<open>NaN\<close> (\<open>0 / 0\<close>),
  the benchmark comparison rates them \<open>poor\<close> and their percentiles are
  \<open>NaN\<close>: the engine does not reject the input, it propagates \<open>NaN\<close>.\<close>

lemma analyze_no_platforms:
  "let r = fst (run_state (analyze [] audienceData) s) in
     coh_overallScore (coherence r) = JsNaN \<and> cons_overallScore (consistency r) = JsNaN \<and>
     rating (coh_benchmarkComparison (coherence r)) = Poor \<and>
     percentile (coh_benchmarkComparison (coherence r)) = JsNaN \<and>
     rating (cons_benchmarkComparison (consistency r)) = Poor \<and>
     percentile (cons_benchmarkComparison (consistency r)) = JsNaN"
  by (simp add: analyze_def analyzeContentCoherence_def analyzeMessageConsistency_def Let_def
      index_pairs_def js_floor_div_def compareToBenchmark_def calculatePercentile_def case_prod_beta)

end
