(* ===== verification/Json.thy ===== *)
theory Json
  imports Prelude "HOL-Library.AList"
begin

text \<open>
  The JSON text format as \<open>JSON.stringify\<close> writes it and \<open>JSON.parse\<close> reads
  it (ECMAScript 2024, sections 25.5.1 and 25.5.2); the storage manager keeps its saved
  analyses as JSON text and exports and imports them as JSON files. \<open>json\<close> is a
  JavaScript value that survives serialisation: \<open>null\<close>, booleans, numbers (integers,
  or \<open>NaN\<close>, which is written as \<open>null\<close>), strings, arrays and objects (their
  properties in order). \<open>json_str gap ind\<close> is \<open>SerializeJSONProperty\<close> with the
  indentation \<open>gap\<close> (\<open>[]\<close> for \<open>JSON.stringify(v)\<close>, two spaces for
  \<open>JSON.stringify(v, null, 2)\<close>); \<open>JSON_parse\<close> is a recursive-descent parser
  of the JSON grammar with fuel. The main result is the round trip: parsing what was
  printed, at any indentation, gives back the value with \<open>NaN\<close> replaced by
  \<open>null\<close>.
\<close>

datatype json = JNull | JBool bool | JNum jsnum | JStr string | JArr "json list"
  | JObj "(string \<times> json) list"

definition hex_digit :: "nat \<Rightarrow> char" where
  "hex_digit d = (if d < 10 then char_of (48 + d) else char_of (87 + d))"

definition escape_char :: "char \<Rightarrow> string" where
  "escape_char c = (let n = (of_char c :: nat) in
     if n = 34 then [CHR 0x5C, CHR 0x22]
     else if n = 92 then [CHR 0x5C, CHR 0x5C]
     else if n = 8 then [CHR 0x5C, CHR ''b'']
     else if n = 9 then [CHR 0x5C, CHR ''t'']
     else if n = 10 then [CHR 0x5C, CHR ''n'']
     else if n = 12 then [CHR 0x5C, CHR ''f'']
     else if n = 13 then [CHR 0x5C, CHR ''r'']
     else if n < 32 then [CHR 0x5C, CHR ''u'', CHR ''0'', CHR ''0'', hex_digit (n div 16), hex_digit (n mod 16)]
     else [c])"

definition json_quote :: "string \<Rightarrow> string" where
  "json_quote s = CHR 0x22 # concat (map escape_char s) @ [CHR 0x22]"

fun nat_digits :: "nat \<Rightarrow> string" where
  "nat_digits n = (if n < 10 then [char_of (48 + n)] else nat_digits (n div 10) @ [char_of (48 + n mod 10)])"

declare nat_digits.simps [simp del]

definition int_str :: "int \<Rightarrow> string" where
  "int_str i = (if i < 0 then CHR ''-'' # nat_digits (nat (- i)) else nat_digits (nat i))"

fun join :: "string \<Rightarrow> string list \<Rightarrow> string" where
  "join sep [] = []"
| "join sep [x] = x"
| "join sep (x # y # xs) = x @ sep @ join sep (y # xs)"

function (sequential) json_str :: "string \<Rightarrow> string \<Rightarrow> json \<Rightarrow> string" where
  "json_str gap ind JNull = ''null''"
| "json_str gap ind (JBool b) = (if b then ''true'' else ''false'')"
| "json_str gap ind (JNum x) = (case x of JsInt i \<Rightarrow> int_str i | JsNaN \<Rightarrow> ''null'')"
| "json_str gap ind (JStr s) = json_quote s"
| "json_str gap ind (JArr vs) =
     (if vs = [] then ''[]''
      else if gap = [] then ''['' @ join '','' (map (json_str gap (ind @ gap)) vs) @ '']''
      else ''['' @ CHR 0x0A # ind @ gap @
             join ('','' @ CHR 0x0A # ind @ gap) (map (json_str gap (ind @ gap)) vs) @
             CHR 0x0A # ind @ '']'')"
| "json_str gap ind (JObj kvs) =
     (if kvs = [] then ''{}''
      else if gap = [] then
        ''{'' @ join '','' (map (\<lambda>kv. json_quote (fst kv) @ '':'' @ json_str gap (ind @ gap) (snd kv)) kvs) @ ''}''
      else ''{'' @ CHR 0x0A # ind @ gap @
             join ('','' @ CHR 0x0A # ind @ gap)
               (map (\<lambda>kv. json_quote (fst kv) @ '': '' @ json_str gap (ind @ gap) (snd kv)) kvs) @
             CHR 0x0A # ind @ ''}'')"
  by pat_completeness auto
termination
  apply (relation "measure (\<lambda>(_, _, v). size v)")
     apply (auto intro!: le_imp_less_Suc intro: size_list_estimation')
  done

definition JSON_stringify :: "json \<Rightarrow> string" where
  "JSON_stringify v = json_str [] [] v"

text \<open>Values a JavaScript program can hold: object keys are distinct.\<close>

fun json_wf :: "json \<Rightarrow> bool" where
  "json_wf (JArr vs) = (\<forall>v \<in> set vs. json_wf v)"
| "json_wf (JObj kvs) = (distinct (map fst kvs) \<and> (\<forall>kv \<in> set kvs. json_wf (snd kv)))"
| "json_wf _ = True"

text \<open>What a value becomes through \<open>JSON.stringify\<close>: \<open>NaN\<close> is written as \<open>null\<close>.\<close>

fun json_norm :: "json \<Rightarrow> json" where
  "json_norm (JNum JsNaN) = JNull"
| "json_norm (JArr vs) = JArr (map json_norm vs)"
| "json_norm (JObj kvs) = JObj (map (\<lambda>kv. (fst kv, json_norm (snd kv))) kvs)"
| "json_norm v = v"

text \<open>Values that contain no \<open>NaN\<close>.\<close>

fun nan_free :: "json \<Rightarrow> bool" where
  "nan_free (JNum JsNaN) = False"
| "nan_free (JArr vs) = (\<forall>v \<in> set vs. nan_free v)"
| "nan_free (JObj kvs) = (\<forall>kv \<in> set kvs. nan_free (snd kv))"
| "nan_free _ = True"

subsection \<open>\<open>JSON.parse\<close>\<close>

definition is_ws :: "char \<Rightarrow> bool" where
  "is_ws c \<longleftrightarrow> c \<in> {CHR '' '', CHR 0x09, CHR 0x0A, CHR 0x0D}"

definition is_digit :: "char \<Rightarrow> bool" where
  "is_digit c \<longleftrightarrow> (let n = (of_char c :: nat) in 48 \<le> n \<and> n \<le> 57)"

definition digits_val :: "string \<Rightarrow> nat" where
  "digits_val ds = foldl (\<lambda>a d. 10 * a + (of_char d - 48)) 0 ds"

definition hex_val :: "char \<Rightarrow> nat option" where
  "hex_val c = (let n = (of_char c :: nat) in
     if 48 \<le> n \<and> n \<le> 57 then Some (n - 48)
     else if 97 \<le> n \<and> n \<le> 102 then Some (n - 87)
     else if 65 \<le> n \<and> n \<le> 70 then Some (n - 55)
     else None)"

definition hex4 :: "string \<Rightarrow> nat option" where
  "hex4 ds = (if length ds = 4 \<and> (\<forall>d \<in> set ds. hex_val d \<noteq> None)
              then Some (foldl (\<lambda>a d. 16 * a + the (hex_val d)) 0 ds) else None)"

definition simple_escape :: "char \<Rightarrow> char option" where
  "simple_escape e =
     (if e = CHR 0x22 then Some (CHR 0x22) else if e = CHR 0x5C then Some (CHR 0x5C)
      else if e = CHR ''/'' then Some (CHR ''/'') else if e = CHR ''b'' then Some (CHR 0x08)
      else if e = CHR ''f'' then Some (CHR 0x0C) else if e = CHR ''n'' then Some (CHR 0x0A)
      else if e = CHR ''r'' then Some (CHR 0x0D) else if e = CHR ''t'' then Some (CHR 0x09)
      else None)"

text \<open>The body of a string literal after its opening quote: the characters up to
  the closing quote, with escapes decoded, and the text after it. A raw control
  character is a syntax error. A \<open>\\u\<close> escape beyond \<open>00ff\<close> names a
  character outside the byte strings of the model.\<close>

fun parse_str :: "string \<Rightarrow> (string \<times> string) option" where
  "parse_str [] = None"
| "parse_str (c # cs) =
     (if c = CHR 0x22 then Some ([], cs)
      else if c = CHR 0x5C then
        (case cs of
           [] \<Rightarrow> None
         | e # r \<Rightarrow>
             (case simple_escape e of
                Some d \<Rightarrow> map_option (\<lambda>(s, r'). (d # s, r')) (parse_str r)
              | None \<Rightarrow>
                  if e = CHR ''u'' then
                    (case hex4 (take 4 r) of
                       Some n \<Rightarrow> if n < 256 then map_option (\<lambda>(s, r'). (char_of n # s, r')) (parse_str (drop 4 r))
                                 else None
                     | None \<Rightarrow> None)
                  else None))
      else if (of_char c :: nat) < 32 then None
      else map_option (\<lambda>(s, r). (c # s, r)) (parse_str cs))"

text \<open>A number: an optional minus sign, then \<open>0\<close> or a non-zero digit followed by
  digits. A fraction or exponent part is outside the integers of the model.\<close>

definition parse_number :: "string \<Rightarrow> (json \<times> string) option" where
  "parse_number s =
     (let (neg, s') = (case s of c # r \<Rightarrow> if c = CHR ''-'' then (True, r) else (False, s) | [] \<Rightarrow> (False, s))
      in case s' of
           [] \<Rightarrow> None
         | d # r \<Rightarrow>
             if \<not> is_digit d then None
             else
               let ds = (if d = CHR ''0'' then [d] else d # takeWhile is_digit r);
                   r' = (if d = CHR ''0'' then r else dropWhile is_digit r);
                   n = int (digits_val ds)
               in if r' \<noteq> [] \<and> hd r' \<in> {CHR ''.'', CHR ''e'', CHR ''E''} then None
                  else Some (JNum (JsInt (if neg then - n else n)), r'))"

text \<open>An object literal's members in text order become properties in turn: a
  repeated key keeps its first position and takes the last value.\<close>

definition build_obj :: "(string \<times> json) list \<Rightarrow> (string \<times> json) list" where
  "build_obj kvs = fold (\<lambda>(k, v). AList.update k v) kvs []"

text \<open>Recursive descent with fuel: every call spends one unit, and
  \<open>JSON_parse\<close> gives twice the length of the text plus one, which no text
  exhausts (each two nested calls consume a character).\<close>

fun parse_value :: "nat \<Rightarrow> string \<Rightarrow> (json \<times> string) option"
and parse_elems :: "nat \<Rightarrow> string \<Rightarrow> (json list \<times> string) option"
and parse_members :: "nat \<Rightarrow> string \<Rightarrow> ((string \<times> json) list \<times> string) option" where
  "parse_value 0 s = None"
| "parse_value (Suc n) s =
     (case dropWhile is_ws s of
        [] \<Rightarrow> None
      | c # r \<Rightarrow>
          if c = CHR ''n'' then (if take 3 r = ''ull'' then Some (JNull, drop 3 r) else None)
          else if c = CHR ''t'' then (if take 3 r = ''rue'' then Some (JBool True, drop 3 r) else None)
          else if c = CHR ''f'' then (if take 4 r = ''alse'' then Some (JBool False, drop 4 r) else None)
          else if c = CHR 0x22 then map_option (\<lambda>(str, r'). (JStr str, r')) (parse_str r)
          else if c = CHR ''['' then
            (case dropWhile is_ws r of
               c' # r' \<Rightarrow> if c' = CHR '']'' then Some (JArr [], r')
                          else map_option (\<lambda>(vs, r'). (JArr vs, r')) (parse_elems n r)
             | [] \<Rightarrow> None)
          else if c = CHR ''{'' then
            (case dropWhile is_ws r of
               c' # r' \<Rightarrow> if c' = CHR ''}'' then Some (JObj [], r')
                          else map_option (\<lambda>(kvs, r'). (JObj (build_obj kvs), r')) (parse_members n r)
             | [] \<Rightarrow> None)
          else if c = CHR ''-'' \<or> is_digit c then parse_number (c # r)
          else None)"
| "parse_elems 0 s = None"
| "parse_elems (Suc n) s =
     (case parse_value n s of
        None \<Rightarrow> None
      | Some (v, r) \<Rightarrow>
          (case dropWhile is_ws r of
             c # r' \<Rightarrow>
               if c = CHR '','' then map_option (\<lambda>(vs, r''). (v # vs, r'')) (parse_elems n r')
               else if c = CHR '']'' then Some ([v], r')
               else None
           | [] \<Rightarrow> None))"
| "parse_members 0 s = None"
| "parse_members (Suc n) s =
     (case dropWhile is_ws s of
        c # r \<Rightarrow>
          if c \<noteq> CHR 0x22 then None
          else
            (case parse_str r of
               None \<Rightarrow> None
             | Some (k, r1) \<Rightarrow>
                 (case dropWhile is_ws r1 of
                    c1 # r2 \<Rightarrow>
                      if c1 \<noteq> CHR '':'' then None
                      else
                        (case parse_value n r2 of
                           None \<Rightarrow> None
                         | Some (v, r3) \<Rightarrow>
                             (case dropWhile is_ws r3 of
                                c3 # r4 \<Rightarrow>
                                  if c3 = CHR '','' then map_option (\<lambda>(kvs, r5). ((k, v) # kvs, r5)) (parse_members n r4)
                                  else if c3 = CHR ''}'' then Some ([(k, v)], r4)
                                  else None
                              | [] \<Rightarrow> None))
                  | [] \<Rightarrow> None))
      | [] \<Rightarrow> None)"

text \<open>\<open>JSON.parse(text)\<close>: a value followed only by white space; \<open>None\<close> is the
  \<open>SyntaxError\<close> it throws.\<close>

definition JSON_parse :: "string \<Rightarrow> json option" where
  "JSON_parse s =
     (case parse_value (Suc (2 * length s)) s of
        Some (v, r) \<Rightarrow> if dropWhile is_ws r = [] then Some v else None
      | None \<Rightarrow> None)"

text \<open>The text after a number does not continue it.\<close>

definition num_stop :: "string \<Rightarrow> bool" where
  "num_stop rest \<longleftrightarrow> (case rest of [] \<Rightarrow> True
     | c # _ \<Rightarrow> \<not> is_digit c \<and> c \<notin> {CHR ''.'', CHR ''e'', CHR ''E''})"

section \<open>The round trip\<close>

lemma hex_val_digit: "d < 16 \<Longrightarrow> hex_val (hex_digit d) = Some d"
  by (auto simp: hex_val_def hex_digit_def Let_def)

lemma hex4_escape:
  assumes "n < 32"
  shows "hex4 [CHR ''0'', CHR ''0'', hex_digit (n div 16), hex_digit (n mod 16)] = Some n"
proof -
  have "n div 16 < 16" "n mod 16 < 16" using assms by simp_all
  then show ?thesis
    by (simp add: hex4_def hex_val_digit) (simp add: hex_val_def)
qed

lemma parse_str_escape:
  "parse_str (escape_char c @ r) = map_option (\<lambda>(s, r'). (c # s, r')) (parse_str r)"
proof -
  define n where "n = (of_char c :: nat)"
  have c: "c = char_of n" by (simp add: n_def)
  show ?thesis
  proof (cases "n = 34 \<or> n = 92 \<or> n = 8 \<or> n = 9 \<or> n = 10 \<or> n = 12 \<or> n = 13")
    case True
    then show ?thesis using c by (elim disjE) (simp_all add: escape_char_def simple_escape_def char_of_def bit_0)
  next
    case other: False
    show ?thesis
    proof (cases "n < 32")
      case True
      then have "hex4 [CHR ''0'', CHR ''0'', hex_digit (n div 16), hex_digit (n mod 16)] = Some n"
        by (rule hex4_escape)
      with True other c show ?thesis
        by (simp add: escape_char_def simple_escape_def n_def [symmetric] Let_def)
    next
      case False
      have "c \<noteq> CHR 0x22" "c \<noteq> CHR 0x5C" using other unfolding n_def by auto
      with False other show ?thesis
        by (simp add: escape_char_def n_def [symmetric] Let_def)
    qed
  qed
qed

lemma parse_str_quote:
  "parse_str (concat (map escape_char s) @ CHR 0x22 # rest) = Some (s, rest)"
  by (induction s) (simp_all add: parse_str_escape)
lemma nat_digits_facts:
  "nat_digits n \<noteq> []" "\<forall>c \<in> set (nat_digits n). is_digit c" "digits_val (nat_digits n) = n"
  "hd (nat_digits n) = CHR ''0'' \<Longrightarrow> n = 0"
proof (induction n rule: nat_digits.induct)
  case (1 n)
  have dig: "is_digit (char_of (48 + d))" "of_char (char_of (48 + d) :: char) - 48 = d" if "d < 10" for d :: nat
    using that by (simp_all add: is_digit_def)
  { case 1 show ?case by (subst nat_digits.simps) simp }
  { case 2 show ?case using 1(2) by (subst nat_digits.simps) (auto simp: dig) }
  { case 3 show ?case using 1(3)
      by (subst nat_digits.simps) (auto simp: digits_val_def dig) }
  { case 4
    show ?case
    proof (cases "n < 10")
      case True
      with 4 have "char_of (48 + n) = (CHR ''0'' :: char)" by (subst (asm) nat_digits.simps) simp
      then have "of_char (char_of (48 + n) :: char) = (of_char (CHR ''0'') :: nat)" by simp
      with True show ?thesis by simp
    next
      case False
      with 4 have "hd (nat_digits (n div 10)) = CHR ''0''" using 1(1) [OF False]
        by (subst (asm) nat_digits.simps) simp
      with 1(4) [OF False] have "n div 10 = 0" by blast
      with False show ?thesis by simp
    qed }
qed
lemma num_stop_digits:
  assumes "num_stop rest" and "\<forall>c \<in> set ds. is_digit c"
  shows "takeWhile is_digit (ds @ rest) = ds" "dropWhile is_digit (ds @ rest) = rest"
  using assms by (auto simp: takeWhile_append2 dropWhile_append2 num_stop_def split: list.splits)

lemma parse_nat_digits:
  assumes "num_stop rest" and "neg \<longleftrightarrow> i < 0" and "n = nat \<bar>i\<bar>"
  shows "(case nat_digits n @ rest of
           [] \<Rightarrow> None
         | d # r \<Rightarrow>
             if \<not> is_digit d then None
             else
               let ds = (if d = CHR ''0'' then [d] else d # takeWhile is_digit r);
                   r' = (if d = CHR ''0'' then r else dropWhile is_digit r);
                   n = int (digits_val ds)
               in if r' \<noteq> [] \<and> hd r' \<in> {CHR ''.'', CHR ''e'', CHR ''E''} then None
                  else Some (JNum (JsInt (if neg then - n else n)), r')) = Some (JNum (JsInt i), rest)"
proof -
  obtain d ds where d: "nat_digits n = d # ds" using nat_digits_facts(1) by (cases "nat_digits n") auto
  have digs: "\<forall>c \<in> set (d # ds). is_digit c" using nat_digits_facts(2) [of n] d by simp
  have val: "digits_val (d # ds) = n" using nat_digits_facts(3) [of n] d by simp
  have stop: "rest \<noteq> [] \<Longrightarrow> hd rest \<notin> {CHR ''.'', CHR ''e'', CHR ''E''}"
    using assms(1) by (auto simp: num_stop_def split: list.splits)
  show ?thesis
  proof (cases "d = CHR ''0''")
    case True
    then have "n = 0" using nat_digits_facts(4) [of n] d by simp
    then have "ds = []" using d by (simp add: nat_digits.simps)
    then show ?thesis using True d digs stop assms \<open>n = 0\<close>
      by (auto simp: digits_val_def)
  next
    case False
    have "takeWhile is_digit (ds @ rest) = ds" "dropWhile is_digit (ds @ rest) = rest"
      using num_stop_digits [OF assms(1), of ds] digs by simp_all
    moreover have "is_digit d" using digs by simp
    ultimately show ?thesis using False d val stop assms by (cases rest) (simp_all add: Let_def takeWhile_eq_all_conv [THEN iffD2])
  qed
qed

lemma parse_number_int_str:
  "num_stop rest \<Longrightarrow> parse_number (int_str i @ rest) = Some (JNum (JsInt i), rest)"
proof -
  assume stop: "num_stop rest"
  obtain d ds where d: "nat_digits (nat \<bar>i\<bar>) = d # ds" using nat_digits_facts(1) by (cases "nat_digits (nat \<bar>i\<bar>)") auto
  have "is_digit d" using nat_digits_facts(2) [of "nat \<bar>i\<bar>"] d by simp
  then have "d \<noteq> CHR ''-''" by (auto simp: is_digit_def)
  show ?thesis
  proof (cases "i < 0")
    case True
    then have "int_str i = CHR ''-'' # nat_digits (nat \<bar>i\<bar>)" by (simp add: int_str_def)
    then show ?thesis using parse_nat_digits [OF stop, of True i] True
      by (simp add: parse_number_def)
  next
    case False
    then have "int_str i = d # ds" using d by (simp add: int_str_def)
    then show ?thesis using parse_nat_digits [OF stop, of False i] False d \<open>d \<noteq> CHR ''-''\<close>
      by (simp add: parse_number_def)
  qed
qed
lemma punct_not_ws [simp]:
  "\<not> is_ws CHR '']''" "\<not> is_ws CHR ''}''" "\<not> is_ws CHR '',''" "\<not> is_ws CHR '':''"
  "\<not> is_ws CHR ''[''" "\<not> is_ws CHR ''{''" "\<not> is_ws CHR 0x22" "\<not> is_ws CHR ''-''"
  "\<not> is_ws CHR ''n''" "\<not> is_ws CHR ''t''" "\<not> is_ws CHR ''f''"
  "is_ws CHR 0x0A" "is_ws CHR '' ''"
  by (simp_all add: is_ws_def)

lemma ws_not_num: "is_ws c \<Longrightarrow> \<not> is_digit c \<and> c \<notin> {CHR ''.'', CHR ''e'', CHR ''E''}"
  by (auto simp: is_ws_def is_digit_def)

lemma num_stop_after_ws:
  "list_all is_ws post \<Longrightarrow> \<not> is_digit c \<Longrightarrow> c \<notin> {CHR ''.'', CHR ''e'', CHR ''E''} \<Longrightarrow>
   num_stop (post @ c # r)"
  by (cases post) (auto simp: num_stop_def dest: ws_not_num)

lemma dropWhile_ws: "list_all is_ws pre \<Longrightarrow> dropWhile is_ws (pre @ s) = dropWhile is_ws s"
  by (simp add: dropWhile_append2 list_all_iff)

lemma parse_value_ws: "list_all is_ws pre \<Longrightarrow> parse_value n (pre @ s) = parse_value n s"
  by (cases n) (simp_all add: dropWhile_ws)

lemma parse_elems_join:
  assumes "vs \<noteq> []" and "size_list size vs < n"
    and "list_all is_ws pre" and "list_all is_ws w" and "list_all is_ws post"
    and IH: "\<And>v n rest. v \<in> set vs \<Longrightarrow> size v < n \<Longrightarrow> num_stop rest \<Longrightarrow>
               parse_value n (pr v @ rest) = Some (json_norm v, rest)"
  shows "parse_elems n (pre @ join (CHR '','' # w) (map pr vs) @ post @ CHR '']'' # rest) =
         Some (map json_norm vs, rest)"
  using assms
proof (induction vs arbitrary: n pre rule: induct_list012)
  case (2 v)
  then obtain m where n: "n = Suc m" and m: "size v < m" by (cases n) auto
  have "num_stop (post @ CHR '']'' # rest)"
    using 2 by (intro num_stop_after_ws) (auto simp: is_digit_def)
  then show ?case using 2 n m by (simp add: parse_value_ws dropWhile_ws)
next
  case (3 v v' vs)
  then obtain m where n: "n = Suc m" and m: "size v < m" "size_list size (v' # vs) < m" by (cases n) auto
  have stop: "num_stop (CHR '','' # w @ join (CHR '','' # w) (map pr (v' # vs)) @ post @ CHR '']'' # rest)"
    by (simp add: num_stop_def is_digit_def)
  have "parse_value m (pr v @ CHR '','' # w @ join (CHR '','' # w) (map pr (v' # vs)) @ post @ CHR '']'' # rest) =
        Some (json_norm v, CHR '','' # w @ join (CHR '','' # w) (map pr (v' # vs)) @ post @ CHR '']'' # rest)"
    using "3.prems"(6) [OF _ m(1) stop] by simp
  moreover have "parse_elems m (w @ join (CHR '','' # w) (map pr (v' # vs)) @ post @ CHR '']'' # rest) =
        Some (map json_norm (v' # vs), rest)"
    using "3.IH"(2) [OF _ m(2) "3.prems"(4) "3.prems"(4,5)] "3.prems"(6) by simp
  ultimately show ?case using "3.prems"(3) n by (simp add: parse_value_ws)
qed simp
lemma size_prod_member [simp]: "size_prod (\<lambda>_. 0) size kv = Suc (size (snd kv))"
  by (cases kv) simp

lemma parse_member:
  assumes "list_all is_ws pre" and "list_all is_ws sp"
    and "parse_value m (pr v @ tail) = Some (json_norm v, tail)"
  shows "parse_members (Suc m) (pre @ json_quote k @ CHR '':'' # sp @ pr v @ tail) =
    (case dropWhile is_ws tail of
       c3 # r4 \<Rightarrow>
         if c3 = CHR '','' then map_option (\<lambda>(kvs, r5). ((k, json_norm v) # kvs, r5)) (parse_members m r4)
         else if c3 = CHR ''}'' then Some ([(k, json_norm v)], r4)
         else None
     | [] \<Rightarrow> None)"
  using assms by (simp add: dropWhile_ws json_quote_def parse_str_quote parse_value_ws)

lemma parse_members_join:
  assumes "kvs \<noteq> []" and "size_list (size_prod (\<lambda>_. 0) size) kvs < n"
    and "list_all is_ws pre" and "list_all is_ws w" and "list_all is_ws post" and "list_all is_ws sp"
    and IH: "\<And>kv n rest. kv \<in> set kvs \<Longrightarrow> size (snd kv) < n \<Longrightarrow> num_stop rest \<Longrightarrow>
               parse_value n (pr (snd kv) @ rest) = Some (json_norm (snd kv), rest)"
  shows "parse_members n (pre @ join (CHR '','' # w)
            (map (\<lambda>kv. json_quote (fst kv) @ CHR '':'' # sp @ pr (snd kv)) kvs) @ post @ CHR ''}'' # rest) =
         Some (map (\<lambda>kv. (fst kv, json_norm (snd kv))) kvs, rest)"
  using assms
proof (induction kvs arbitrary: n pre rule: induct_list012)
  case (2 kv)
  then obtain m where n: "n = Suc m" and m: "size (snd kv) < m" by (cases n) (auto simp: case_prod_beta)
  have "num_stop (post @ CHR ''}'' # rest)"
    using 2 by (intro num_stop_after_ws) (auto simp: is_digit_def)
  then have "parse_value m (pr (snd kv) @ post @ CHR ''}'' # rest) = Some (json_norm (snd kv), post @ CHR ''}'' # rest)"
    using "2.prems"(7) m by simp
  from parse_member [where pr = pr and v = "snd kv" and k = "fst kv", OF "2.prems"(3,6) this] show ?case
    using 2 n by (simp add: dropWhile_ws)
next
  case (3 kv kv' kvs)
  then obtain m where n: "n = Suc m" and m: "size (snd kv) < m"
      "size_list (size_prod (\<lambda>_. 0) size) (kv' # kvs) < m"
    by (cases n) (auto simp: case_prod_beta)
  let ?tl = "CHR '','' # w @ join (CHR '','' # w)
     (map (\<lambda>kv. json_quote (fst kv) @ CHR '':'' # sp @ pr (snd kv)) (kv' # kvs)) @ post @ CHR ''}'' # rest"
  have stop: "num_stop ?tl" by (simp add: num_stop_def is_digit_def)
  have v: "parse_value m (pr (snd kv) @ ?tl) = Some (json_norm (snd kv), ?tl)"
    using "3.prems"(7) [OF _ m(1) stop] by simp
  have "parse_members m (w @ join (CHR '','' # w)
          (map (\<lambda>kv. json_quote (fst kv) @ CHR '':'' # sp @ pr (snd kv)) (kv' # kvs)) @ post @ CHR ''}'' # rest) =
        Some (map (\<lambda>kv. (fst kv, json_norm (snd kv))) (kv' # kvs), rest)"
    using "3.IH"(2) [OF _ m(2) "3.prems"(4) "3.prems"(4,5,6)] "3.prems"(7) by simp
  with parse_member [where pr = pr and v = "snd kv" and k = "fst kv", OF "3.prems"(3,6) v] show ?case
    using n by simp
qed simp
lemma update_fresh: "k \<notin> set (map fst acc) \<Longrightarrow> AList.update k v acc = acc @ [(k, v)]"
  by (induction acc) auto

lemma build_obj_distinct: "distinct (map fst kvs) \<Longrightarrow> build_obj kvs = kvs"
proof -
  have "distinct (map fst (acc @ kvs)) \<Longrightarrow> fold (\<lambda>(k, v). AList.update k v) kvs acc = acc @ kvs" for acc
    by (induction kvs arbitrary: acc) (auto simp: update_fresh)
  then show "distinct (map fst kvs) \<Longrightarrow> build_obj kvs = kvs" by (simp add: build_obj_def)
qed

lemma join_Cons: "join sep (x # xs) = x @ (if xs = [] then [] else sep @ join sep xs)"
  by (cases xs) simp_all

lemma digit_char: "is_digit c \<Longrightarrow> \<not> is_ws c \<and> c \<notin> {CHR '']'', CHR ''}'', CHR ''n'', CHR ''t'', CHR ''f'', CHR 0x22, CHR ''['', CHR ''{'', CHR ''-''}"
  by (auto simp: is_digit_def is_ws_def)

lemma int_str_first:
  "\<exists>c r. int_str i = c # r \<and> (c = CHR ''-'' \<or> is_digit c)"
proof -
  obtain d ds where "nat_digits (nat \<bar>i\<bar>) = d # ds" using nat_digits_facts(1) by (cases "nat_digits (nat \<bar>i\<bar>)") auto
  moreover have "is_digit d" using nat_digits_facts(2) [of "nat \<bar>i\<bar>"] calculation by simp
  ultimately show ?thesis by (auto simp: int_str_def)
qed

lemma json_str_first:
  "\<exists>c r. json_str gap ind v = c # r \<and> \<not> is_ws c \<and> c \<noteq> CHR '']'' \<and> c \<noteq> CHR ''}''"
proof (cases v)
  case (JNum x)
  then show ?thesis
  proof (cases x)
    case (JsInt i)
    obtain c r where "int_str i = c # r" "c = CHR ''-'' \<or> is_digit c" using int_str_first by blast
    then show ?thesis using JNum JsInt digit_char [of c] by auto
  qed simp
qed (auto simp: json_quote_def)

lemma parse_value_number:
  "num_stop rest \<Longrightarrow> parse_value (Suc m) (int_str i @ rest) = Some (JNum (JsInt i), rest)"
proof -
  assume stop: "num_stop rest"
  obtain c r where cr: "int_str i = c # r" "c = CHR ''-'' \<or> is_digit c" using int_str_first by blast
  then have "\<not> is_ws c" "c \<notin> {CHR ''n'', CHR ''t'', CHR ''f'', CHR 0x22, CHR ''['', CHR ''{''}"
    using digit_char [of c] by auto
  then show ?thesis using parse_number_int_str [OF stop, of i] cr by auto
qed
lemma parse_json_str:
  assumes "json_wf v" and "list_all is_ws gap" and "list_all is_ws ind" and "size v < n" and "num_stop rest"
  shows "parse_value n (json_str gap ind v @ rest) = Some (json_norm v, rest)"
  using assms
proof (induction v arbitrary: n ind rest)
  case (JNum x)
  then obtain m where n: "n = Suc m" by (cases n) auto
  show ?case
  proof (cases x)
    case (JsInt i)
    then show ?thesis using n parse_value_number [OF JNum.prems(5), of m i] by simp
  qed (simp add: n)
next
  case (JStr s)
  then obtain m where "n = Suc m" by (cases n) auto
  then show ?case by (simp add: json_quote_def parse_str_quote)
next
  case (JArr vs)
  obtain m where n: "n = Suc m" and m: "size_list size vs < m" using JArr.prems(4) by (cases n) auto
  have IH: "\<And>v n rest. v \<in> set vs \<Longrightarrow> size v < n \<Longrightarrow> num_stop rest \<Longrightarrow>
      parse_value n (json_str gap (ind @ gap) v @ rest) = Some (json_norm v, rest)"
    using JArr.IH JArr.prems(1,2,3) by simp
  show ?case
  proof (cases vs)
    case Nil
    then show ?thesis using n by simp
  next
    case (Cons v1 vs')
    obtain c r where c: "json_str gap (ind @ gap) v1 = c # r" "\<not> is_ws c" "c \<noteq> CHR '']''"
      using json_str_first by blast
    show ?thesis
    proof (cases "gap = []")
      case True
      have "parse_elems m ([] @ join [CHR '',''] (map (json_str gap (ind @ gap)) vs) @ [] @ CHR '']'' # rest) =
            Some (map json_norm vs, rest)"
        using Cons m IH by (intro parse_elems_join) simp_all
      then show ?thesis using True n Cons c by (simp add: join_Cons)
    next
      case False
      have "parse_elems m ((CHR 0x0A # ind @ gap) @ join (CHR '','' # CHR 0x0A # ind @ gap)
              (map (json_str gap (ind @ gap)) vs) @ (CHR 0x0A # ind) @ CHR '']'' # rest) =
            Some (map json_norm vs, rest)"
        using Cons m IH JArr.prems(2,3) by (intro parse_elems_join) simp_all
      then show ?thesis using False n Cons c JArr.prems(2,3) by (simp add: join_Cons dropWhile_ws)
    qed
  qed
next
  case (JObj kvs)
  obtain m where n: "n = Suc m" and m: "size_list (\<lambda>kv. Suc (size (snd kv))) kvs < m"
    using JObj.prems(4) by (cases n) auto
  have IH: "\<And>kv n rest. kv \<in> set kvs \<Longrightarrow> size (snd kv) < n \<Longrightarrow> num_stop rest \<Longrightarrow>
      parse_value n (json_str gap (ind @ gap) (snd kv) @ rest) = Some (json_norm (snd kv), rest)"
    using JObj.IH JObj.prems(1,2,3) by (fastforce simp: prod_set_simps)
  have obj: "build_obj (map (\<lambda>kv. (fst kv, json_norm (snd kv))) kvs) = map (\<lambda>kv. (fst kv, json_norm (snd kv))) kvs"
    using JObj.prems(1) by (intro build_obj_distinct) (simp add: comp_def)
  show ?case
  proof (cases kvs)
    case Nil
    then show ?thesis using n by simp
  next
    case (Cons kv1 kvs')
    show ?thesis
    proof (cases "gap = []")
      case True
      have "parse_members m ([] @ join [CHR '',''] (map (\<lambda>kv. json_quote (fst kv) @ CHR '':'' # [] @
               json_str gap (ind @ gap) (snd kv)) kvs) @ [] @ CHR ''}'' # rest) =
            Some (map (\<lambda>kv. (fst kv, json_norm (snd kv))) kvs, rest)"
        using Cons m IH by (intro parse_members_join) simp_all
      then show ?thesis using True n Cons obj by (simp add: join_Cons json_quote_def)
    next
      case False
      have "parse_members m ((CHR 0x0A # ind @ gap) @ join (CHR '','' # CHR 0x0A # ind @ gap)
              (map (\<lambda>kv. json_quote (fst kv) @ CHR '':'' # [CHR '' ''] @ json_str gap (ind @ gap) (snd kv)) kvs) @
              (CHR 0x0A # ind) @ CHR ''}'' # rest) =
            Some (map (\<lambda>kv. (fst kv, json_norm (snd kv))) kvs, rest)"
        using Cons m IH JObj.prems(2,3) by (intro parse_members_join) simp_all
      then show ?thesis using False n Cons obj JObj.prems(2,3) by (simp add: join_Cons dropWhile_ws json_quote_def)
    qed
  qed
qed (auto elim!: less_natE)
lemma size_list_le_join:
  "(\<And>x. x \<in> set xs \<Longrightarrow> f x \<le> length (g x)) \<Longrightarrow> sep \<noteq> [] \<Longrightarrow>
   size_list f xs \<le> length (join sep (map g xs)) + 1"
proof (induction xs rule: induct_list012)
  case (3 x y zs)
  then have "size_list f (y # zs) \<le> length (join sep (map g (y # zs))) + 1" by simp
  moreover have "f x \<le> length (g x)" "1 \<le> length sep" using "3.prems" by (simp_all add: Suc_leI)
  ultimately show ?case by simp
qed simp_all

lemma size_le_json_str: "size v \<le> length (json_str gap ind v)"
proof (induction v arbitrary: ind)
  case (JNum x)
  then show ?case by (cases x) simp_all
next
  case (JArr vs)
  have "size_list size vs \<le> length (join ('','' @ (if gap = [] then [] else CHR 0x0A # ind @ gap))
          (map (json_str gap (ind @ gap)) vs)) + 1"
    using JArr.IH by (intro size_list_le_join) simp_all
  then show ?case by (cases "gap = []") auto
next
  case (JObj kvs)
  have "size_list (\<lambda>kv. Suc (size (snd kv))) kvs \<le>
        length (join ('','' @ (if gap = [] then [] else CHR 0x0A # ind @ gap))
          (map (\<lambda>kv. json_quote (fst kv) @ '':'' @ (if gap = [] then [] else '' '') @
                      json_str gap (ind @ gap) (snd kv)) kvs)) + 1"
  proof (rule size_list_le_join)
    fix kv assume kv: "kv \<in> set kvs"
    have "size (snd kv) \<le> length (json_str gap (ind @ gap) (snd kv))"
      using JObj.IH [OF kv, of "snd kv"] by (cases kv) simp
    then show "Suc (size (snd kv)) \<le> length (json_quote (fst kv) @ '':'' @ (if gap = [] then [] else '' '') @
                      json_str gap (ind @ gap) (snd kv))"
      by (simp add: json_quote_def)
  qed simp
  then show ?case by (cases "gap = []") auto
qed simp_all

lemma JSON_parse_json_str:
  assumes "json_wf v" and "list_all is_ws gap"
  shows "JSON_parse (json_str gap [] v) = Some (json_norm v)"
proof -
  have "size v < Suc (2 * length (json_str gap [] v))" using size_le_json_str [of v gap "[]"] by simp
  moreover have "num_stop []" by (simp add: num_stop_def)
  ultimately have "parse_value (Suc (2 * length (json_str gap [] v))) (json_str gap [] v @ []) =
      Some (json_norm v, [])"
    by (intro parse_json_str [OF assms(1,2)]) simp_all
  then show ?thesis by (simp add: JSON_parse_def del: parse_value.simps)
qed

lemma json_norm_nan_free: "nan_free v \<Longrightarrow> json_norm v = v"
proof (induction v)
  case (JNum x)
  then show ?case by (cases x) simp_all
next
  case (JArr vs)
  then show ?case by (simp add: map_idI)
next
  case (JObj kvs)
  then have "\<And>kv. kv \<in> set kvs \<Longrightarrow> (fst kv, json_norm (snd kv)) = kv"
    by (fastforce simp: prod_set_simps)
  then show ?case by (simp add: map_idI)
qed simp_all

section \<open>What \<open>JSON.parse\<close> returns\<close>

lemma set_update_subset: "set (AList.update k v al) \<subseteq> insert (k, v) (set al)"
  by (induction al) auto

lemma build_obj_wf:
  assumes "\<forall>kv \<in> set kvs. P (snd kv)"
  shows "distinct (map fst (build_obj kvs)) \<and> (\<forall>kv \<in> set (build_obj kvs). P (snd kv))"
proof -
  have "distinct (map fst acc) \<Longrightarrow> \<forall>kv \<in> set acc. P (snd kv) \<Longrightarrow>
        distinct (map fst (fold (\<lambda>(k, v). AList.update k v) kvs acc)) \<and>
        (\<forall>kv \<in> set (fold (\<lambda>(k, v). AList.update k v) kvs acc). P (snd kv))" for acc
    using assms
  proof (induction kvs arbitrary: acc)
    case (Cons kv kvs)
    obtain k v where kv: "kv = (k, v)" by fastforce
    have "distinct (map fst (AList.update k v acc))" using Cons.prems(1) by (rule distinct_update)
    moreover have "\<forall>kv \<in> set (AList.update k v acc). P (snd kv)"
      using set_update_subset [of k v acc] Cons.prems(2,3) kv by auto
    ultimately show ?case using Cons.IH [of "AList.update k v acc"] Cons.prems(3) kv by simp
  qed simp
  from this [of "[]"] show ?thesis by (simp add: build_obj_def)
qed

lemma parse_number_result: "parse_number s = Some (v, r) \<Longrightarrow> json_wf v \<and> nan_free v"
  by (auto simp: parse_number_def Let_def split: list.splits if_splits prod.splits)

lemma parse_value_Suc_cases:
  assumes h: "parse_value (Suc n) s = Some (v, r)"
  shows "v \<in> {JNull, JBool True, JBool False, JArr [], JObj []} \<or> (\<exists>str. v = JStr str) \<or>
         (\<exists>vs r'. parse_elems n r' = Some (vs, r) \<and> v = JArr vs) \<or>
         (\<exists>kvs r'. parse_members n r' = Some (kvs, r) \<and> v = JObj (build_obj kvs)) \<or>
         (\<exists>s'. parse_number s' = Some (v, r))"
proof -
  obtain c rr where d: "dropWhile is_ws s = c # rr" using h by (cases "dropWhile is_ws s") auto
  consider "c = CHR ''n''" | "c = CHR ''t''" | "c = CHR ''f''" | "c = CHR 0x22" | "c = CHR ''[''" | "c = CHR ''{''"
    | "c \<notin> {CHR ''n'', CHR ''t'', CHR ''f'', CHR 0x22, CHR ''['', CHR ''{''}" by blast
  then show ?thesis
  proof cases
    case 5
    then show ?thesis using h d by (auto split: if_split_asm list.split_asm)
  next
    case 6
    then show ?thesis using h d by (auto split: if_split_asm list.split_asm)
  next
    case 7
    then have "parse_number (c # rr) = Some (v, r)" using h d by (simp split: if_split_asm)
    then show ?thesis by blast
  qed (use h d in \<open>auto split: if_split_asm\<close>)
qed

lemma parse_elems_Suc_cases:
  assumes "parse_elems (Suc n) s = Some (vs, r)"
  shows "\<exists>v r1. parse_value n s = Some (v, r1) \<and>
           (vs = [v] \<or> (\<exists>vs' r2. parse_elems n r2 = Some (vs', r) \<and> vs = v # vs'))"
  using assms by (auto split: option.split_asm list.split_asm if_split_asm)

lemma parse_members_Suc_cases:
  assumes "parse_members (Suc n) s = Some (kvs, r)"
  shows "\<exists>k v r1 r2. parse_value n r1 = Some (v, r2) \<and>
           (kvs = [(k, v)] \<or> (\<exists>kvs' r3. parse_members n r3 = Some (kvs', r) \<and> kvs = (k, v) # kvs'))"
  using assms by (auto split: option.split_asm list.split_asm if_split_asm) blast+
lemma parse_results_wf:
  "(parse_value n s = Some (v, r) \<longrightarrow> json_wf v \<and> nan_free v) \<and>
   (parse_elems n s = Some (vs, r) \<longrightarrow> (\<forall>v \<in> set vs. json_wf v \<and> nan_free v)) \<and>
   (parse_members n s = Some (kvs, r) \<longrightarrow> (\<forall>kv \<in> set kvs. json_wf (snd kv) \<and> nan_free (snd kv)))"
proof (induction n arbitrary: s v vs kvs r)
  case (Suc n)
  have IHv: "\<And>s v r. parse_value n s = Some (v, r) \<Longrightarrow> json_wf v \<and> nan_free v"
    and IHe: "\<And>s vs r. parse_elems n s = Some (vs, r) \<Longrightarrow> \<forall>v \<in> set vs. json_wf v \<and> nan_free v"
    and IHm: "\<And>s kvs r. parse_members n s = Some (kvs, r) \<Longrightarrow>
                \<forall>kv \<in> set kvs. json_wf (snd kv) \<and> nan_free (snd kv)"
    using Suc.IH by blast+
  show ?case
  proof (rule conjI [OF impI conjI [OF impI impI]])
    assume "parse_value (Suc n) s = Some (v, r)"
    from parse_value_Suc_cases [OF this]
    consider "v \<in> {JNull, JBool True, JBool False, JArr [], JObj []}" | str where "v = JStr str"
      | vs' r' where "parse_elems n r' = Some (vs', r)" "v = JArr vs'"
      | kvs' r' where "parse_members n r' = Some (kvs', r)" "v = JObj (build_obj kvs')"
      | s' where "parse_number s' = Some (v, r)"
      by blast
    then show "json_wf v \<and> nan_free v"
    proof cases
      case 1
      then show ?thesis by auto
    next
      case (2 str)
      then show ?thesis by simp
    next
      case (3 vs' r')
      then show ?thesis using IHe [OF 3(1)] by simp
    next
      case (4 kvs' r')
      then show ?thesis using build_obj_wf [OF IHm [OF 4(1)]] by simp
    next
      case (5 s')
      then show ?thesis by (rule parse_number_result)
    qed
  next
    assume "parse_elems (Suc n) s = Some (vs, r)"
    from parse_elems_Suc_cases [OF this] obtain v1 r1 where
      v1: "parse_value n s = Some (v1, r1)" and
      rest: "vs = [v1] \<or> (\<exists>vs' r2. parse_elems n r2 = Some (vs', r) \<and> vs = v1 # vs')"
      by blast
    from rest show "\<forall>v \<in> set vs. json_wf v \<and> nan_free v"
      using IHv [OF v1] IHe by auto
  next
    assume "parse_members (Suc n) s = Some (kvs, r)"
    from parse_members_Suc_cases [OF this] obtain k v1 r1 r2 where
      v1: "parse_value n r1 = Some (v1, r2)" and
      rest: "kvs = [(k, v1)] \<or> (\<exists>kvs' r3. parse_members n r3 = Some (kvs', r) \<and> kvs = (k, v1) # kvs')"
      by blast
    from rest show "\<forall>kv \<in> set kvs. json_wf (snd kv) \<and> nan_free (snd kv)"
      using IHv [OF v1] by (fastforce dest!: IHm)
  qed
qed simp

lemma JSON_parse_wf: "JSON_parse s = Some v \<Longrightarrow> json_wf v \<and> nan_free v"
  using parse_results_wf by (auto simp: JSON_parse_def split: option.splits prod.splits if_splits simp del: parse_value.simps)

lemma json_str_norm: "json_str gap ind (json_norm v) = json_str gap ind v"
proof (induction v arbitrary: ind)
  case (JNum x)
  then show ?case by (cases x) simp_all
next
  case (JArr vs)
  have IH: "\<And>v. v \<in> set vs \<Longrightarrow> json_str gap (ind @ gap) (json_norm v) = json_str gap (ind @ gap) v"
    using JArr.IH by blast
  show ?case
  proof (cases "gap = []")
    case True
    then show ?thesis using IH by (simp cong: map_cong)
  next
    case False
    then show ?thesis using IH by (simp cong: map_cong)
  qed
next
  case (JObj kvs)
  then have IH: "\<And>kv. kv \<in> set kvs \<Longrightarrow> json_str gap (ind @ gap) (json_norm (snd kv)) = json_str gap (ind @ gap) (snd kv)"
    by (fastforce simp: prod_set_simps)
  show ?case
  proof (cases "gap = []")
    case True
    then show ?thesis using IH by (simp cong: map_cong)
  next
    case False
    then show ?thesis using IH by (simp cong: map_cong)
  qed
qed (simp_all cong: map_cong)

section \<open>Deep equality\<close>

text \<open>Serialisation round trip. For a value a JavaScript program can hold that
  contains no \<open>NaN\<close>, \<open>JSON.parse\<close> gives back a deep-equal value from the text of
  \<open>JSON.stringify(v)\<close> (how the storage manager saves) and of
  \<open>JSON.stringify(v, null, 2)\<close> (how it exports).\<close>

theorem JSON_roundtrip:
  assumes "json_wf v" and "nan_free v"
  shows "JSON_parse (JSON_stringify v) = Some v \<and> JSON_parse (json_str ''  '' [] v) = Some v"
  using JSON_parse_json_str [OF assms(1), of "[]"] JSON_parse_json_str [OF assms(1), of "''  ''"]
    json_norm_nan_free [OF assms(2)]
  by (simp add: JSON_stringify_def is_ws_def)

theorem JSON_roundtrip_witness:
  "json_wf (JObj [(''name'', JStr [CHR 0x22, CHR 0x0A]), (''n'', JArr [JNum (JsInt (-12)), JBool True, JNull])]) \<and>
   nan_free (JObj [(''name'', JStr [CHR 0x22, CHR 0x0A]), (''n'', JArr [JNum (JsInt (-12)), JBool True, JNull])]) \<and>
   JSON_parse (JSON_stringify (JObj [(''name'', JStr [CHR 0x22, CHR 0x0A]), (''n'', JArr [JNum (JsInt (-12)), JBool True, JNull])])) =
     Some (JObj [(''name'', JStr [CHR 0x22, CHR 0x0A]), (''n'', JArr [JNum (JsInt (-12)), JBool True, JNull])])"
proof -
  have h: "json_wf (JObj [(''name'', JStr [CHR 0x22, CHR 0x0A]), (''n'', JArr [JNum (JsInt (-12)), JBool True, JNull])])"
    "nan_free (JObj [(''name'', JStr [CHR 0x22, CHR 0x0A]), (''n'', JArr [JNum (JsInt (-12)), JBool True, JNull])])"
    by simp_all
  show ?thesis using h JSON_roundtrip [OF h] by blast
qed

subsection \<open>The parser's fuel\<close>

text \<open>Every parse returns a shorter remainder, and one more unit of fuel changes
  nothing once the fuel exceeds twice the length of the text (three for the lists of
  elements and members, which start one call deeper).\<close>

lemma length_dropWhile_le: "length (dropWhile P s) \<le> length s"
  by (induction s) auto

lemma parse_str_length: "parse_str s = Some (x, r) \<Longrightarrow> length r < length s"
proof (induction s arbitrary: x rule: parse_str.induct)
  case (2 c cs)
  then show ?case
    by (fastforce split: if_splits list.splits option.splits)
qed simp

lemma parse_number_length: "parse_number s = Some (v, r) \<Longrightarrow> length r < length s"
  using length_dropWhile_le [of is_digit]
  by (auto simp: parse_number_def Let_def split: list.splits if_splits prod.splits) (meson le_imp_less_Suc less_SucI)+

lemma dropWhile_Cons_length: "dropWhile P s = c # r \<Longrightarrow> length r < length s"
  using length_dropWhile_le [of P s] by simp

lemma parse_lengths:
  "(\<forall>v r. parse_value n s = Some (v, r) \<longrightarrow> length r < length s) \<and>
   (\<forall>vs r. parse_elems n s = Some (vs, r) \<longrightarrow> length r < length s) \<and>
   (\<forall>kvs r. parse_members n s = Some (kvs, r) \<longrightarrow> length r < length s)"
proof (induction n arbitrary: s)
  case (Suc n)
  have v: "length r < length s" if "parse_value (Suc n) s = Some (v, r)" for v r
  proof (cases "dropWhile is_ws s")
    case (Cons c r0)
    note l0 = dropWhile_Cons_length [OF Cons]
    show ?thesis using that Cons l0 Suc.IH [of r0] parse_str_length [of r0] parse_number_length [of "c # r0"]
      length_dropWhile_le [of is_ws r0]
      by (fastforce split: if_splits list.splits option.splits)
  qed (use that in \<open>simp del: dropWhile_eq_Nil_conv\<close>)
  have e: "length r < length s" if "parse_elems (Suc n) s = Some (vs, r)" for vs r
    using that Suc.IH [of s]
    by (auto split: option.splits list.splits if_splits dest!: dropWhile_Cons_length)
       (metis Suc.IH dropWhile_Cons_length less_trans)+
  have m: "length r < length s" if "parse_members (Suc n) s = Some (kvs, r)" for kvs r
    using that
    by (auto split: option.splits list.splits if_splits dest!: dropWhile_Cons_length parse_str_length)
       (metis Suc.IH dropWhile_Cons_length less_trans parse_str_length)+
  show ?case using v e m by blast
qed simp

lemma parse_fuel_stable:
  "(2 * length s < n \<longrightarrow> parse_value (Suc n) s = parse_value n s) \<and>
   (2 * length s + 1 < n \<longrightarrow> parse_elems (Suc n) s = parse_elems n s) \<and>
   (2 * length s + 1 < n \<longrightarrow> parse_members (Suc n) s = parse_members n s)"
proof (induction n arbitrary: s)
  case (Suc n)
  have IHv: "parse_value (Suc n) t = parse_value n t" if "2 * length t < n" for t using Suc.IH that by blast
  have IHe: "parse_elems (Suc n) t = parse_elems n t" if "2 * length t + 1 < n" for t using Suc.IH that by blast
  have IHm: "parse_members (Suc n) t = parse_members n t" if "2 * length t + 1 < n" for t using Suc.IH that by blast
  note shorter = dropWhile_Cons_length
  have v: "parse_value (Suc (Suc n)) s = parse_value (Suc n) s" if "2 * length s < Suc n"
  proof (cases "dropWhile is_ws s")
    case (Cons c r0)
    have "2 * length r0 + 1 < n" using shorter [OF Cons] that by linarith
    then have eq: "parse_elems (Suc n) r0 = parse_elems n r0" "parse_members (Suc n) r0 = parse_members n r0"
      using IHe IHm by blast+
    have "parse_value (Suc (Suc n)) s =
          parse_value (Suc n) s"
      by (simp only: parse_value.simps(2) Cons list.case eq)
    then show ?thesis .
  qed (simp del: dropWhile_eq_Nil_conv)
  have e: "parse_elems (Suc (Suc n)) s = parse_elems (Suc n) s" if "2 * length s + 1 < Suc n"
  proof -
    have pv: "parse_value (Suc n) s = parse_value n s" by (rule IHv) (use that in linarith)
    have pe: "parse_elems (Suc n) r' = parse_elems n r'"
      if "parse_value n s = Some (v, r)" "dropWhile is_ws r = c # r'" for v r c r'
    proof -
      have "length r < length s" using parse_lengths that(1) by blast
      then have "2 * length r' + 1 < n" using shorter [OF that(2)] \<open>2 * length s + 1 < Suc n\<close> by linarith
      then show ?thesis using IHe by blast
    qed
    show ?thesis
      unfolding parse_elems.simps(2) [of "Suc n" s] parse_elems.simps(2) [of n s] pv
      by (auto simp: pe simp del: parse_value.simps parse_elems.simps dropWhile_eq_Nil_conv split: option.split list.split)
  qed
  have m: "parse_members (Suc (Suc n)) s = parse_members (Suc n) s" if "2 * length s + 1 < Suc n"
  proof (cases "dropWhile is_ws s")
    case (Cons c r)
    have pv: "parse_value (Suc n) r2 = parse_value n r2"
      if "parse_str r = Some (k, r1)" "dropWhile is_ws r1 = c1 # r2" for k r1 c1 r2
    proof -
      have "length r2 < length s"
        using shorter [OF Cons] parse_str_length [OF that(1)] shorter [OF that(2)] by linarith
      then show ?thesis by (intro IHv) (use \<open>2 * length s + 1 < Suc n\<close> in linarith)
    qed
    have pm: "parse_members (Suc n) r4 = parse_members n r4"
      if "parse_str r = Some (k, r1)" "dropWhile is_ws r1 = c1 # r2" "parse_value n r2 = Some (v, r3)"
         "dropWhile is_ws r3 = c3 # r4" for k r1 c1 r2 v r3 c3 r4
    proof -
      have "length r4 < length s"
        using shorter [OF Cons] parse_str_length [OF that(1)] shorter [OF that(2)] shorter [OF that(4)]
          parse_lengths [of n r2] that(3) by fastforce
      then show ?thesis by (intro IHm) (use \<open>2 * length s + 1 < Suc n\<close> in linarith)
    qed
    show ?thesis
      unfolding parse_members.simps(2) [of "Suc n" s] parse_members.simps(2) [of n s] Cons list.case
      by (auto simp: pv pm simp del: parse_value.simps parse_members.simps dropWhile_eq_Nil_conv split: option.split list.split prod.split)
  qed (simp del: dropWhile_eq_Nil_conv)
  show ?case using v e m by blast
qed simp

lemma parse_value_more_fuel: "2 * length s < n \<Longrightarrow> parse_value (n + k) s = parse_value n s"
proof (induction k)
  case (Suc k)
  then show ?case using parse_fuel_stable [of s "n + k"] by simp
qed simp

text \<open>\<open>JSON_parse\<close> gives the parser twice the length of the text plus one;
  any larger amount gives the same result.\<close>

lemma JSON_parse_fuel_suffices:
  "JSON_parse s =
     (case parse_value (Suc (2 * length s) + k) s of
        Some (v, r) \<Rightarrow> if dropWhile is_ws r = [] then Some v else None
      | None \<Rightarrow> None)"
proof -
  have "parse_value (Suc (2 * length s) + k) s = parse_value (Suc (2 * length s)) s"
    by (rule parse_value_more_fuel) simp
  then show ?thesis by (simp add: JSON_parse_def del: parse_value.simps)
qed

end
