(* ===== verification/Storage.thy ===== *)
theory Storage
  imports Json
begin

text \<open>
  \<open>src/js/storage-manager.js\<close>: the saved analyses are one JSON array stored as
  text under the key \<open>STORAGE_KEY\<close> of \<open>localStorage\<close>. The browser store is
  modelled as an association list of strings with a quota on the total length of
  keys and values (browsers count both, in UTF-16 code units) and a flag for a
  store the page may not use at all; \<open>setItem\<close> fails with a
  \<open>QuotaExceededError\<close> when the write would exceed the quota and every access
  fails with a \<open>SecurityError\<close> when the store is disabled. Each function of the
  module is one definition over this state; a JavaScript exception the module does
  not catch is an \<open>Inl\<close> result (with the store as the exception leaves it),
  and the promise of \<open>importAnalyses\<close> settles
  with \<open>Inl\<close> (rejected) or \<open>Inr\<close> (resolved).
\<close>

datatype js_error = SyntaxError | TypeError | QuotaExceededError | SecurityError

record local_storage =
  ls_enabled :: bool
  ls_quota :: nat
  ls_items :: "(string \<times> string) list"

definition ls_used :: "(string \<times> string) list \<Rightarrow> nat" where
  "ls_used items = sum_list (map (\<lambda>kv. length (fst kv) + length (snd kv)) items)"

definition setItem :: "string \<Rightarrow> string \<Rightarrow> local_storage \<Rightarrow> js_error + local_storage" where
  "setItem k v st =
     (if \<not> ls_enabled st then Inl SecurityError
      else let items = AList.update k v (ls_items st) in
        if ls_used items \<le> ls_quota st then Inr (st\<lparr>ls_items := items\<rparr>) else Inl QuotaExceededError)"

definition getItem :: "string \<Rightarrow> local_storage \<Rightarrow> js_error + string option" where
  "getItem k st = (if \<not> ls_enabled st then Inl SecurityError else Inr (map_of (ls_items st) k))"

definition removeItem :: "string \<Rightarrow> local_storage \<Rightarrow> js_error + local_storage" where
  "removeItem k st =
     (if \<not> ls_enabled st then Inl SecurityError
      else Inr (st\<lparr>ls_items := AList.delete k (ls_items st)\<rparr>))"

definition STORAGE_KEY :: string where
  "STORAGE_KEY = ''attention-economy-navigator-data''"

definition storage_test :: string where
  "storage_test = ''__storage_test__''"

text \<open>\<open>isLocalStorageAvailable\<close> (lines 28--37): write and remove a test item;
  any exception means unavailable. The probe changes the store: the test key is gone
  afterwards.\<close>

definition isLocalStorageAvailable :: "local_storage \<Rightarrow> bool \<times> local_storage" where
  "isLocalStorageAvailable st =
     (case setItem storage_test storage_test st of
        Inl _ \<Rightarrow> (False, st)
      | Inr st1 \<Rightarrow> (case removeItem storage_test st1 of Inl _ \<Rightarrow> (False, st1) | Inr st2 \<Rightarrow> (True, st2)))"

text \<open>\<open>getSavedAnalyses\<close> (lines 69--89): whatever \<open>JSON.parse\<close> returns for a
  non-empty stored text, which need not be an array; \<open>[]\<close> when the store is
  unavailable, the key is absent or empty, or the text does not parse. After a
  successful probe \<open>getItem\<close> cannot throw.\<close>

definition getSavedAnalyses :: "local_storage \<Rightarrow> json \<times> local_storage" where
  "getSavedAnalyses st =
     (let (ok, st1) = isLocalStorageAvailable st in
      if \<not> ok then (JArr [], st1)
      else case getItem STORAGE_KEY st1 of
             Inr (Some d) \<Rightarrow>
               if d \<noteq> [] then (case JSON_parse d of Some v \<Rightarrow> (v, st1) | None \<Rightarrow> (JArr [], st1))
               else (JArr [], st1)
           | _ \<Rightarrow> (JArr [], st1))"

text \<open>\<open>saveAnalysis\<close> (lines 43--63): \<open>push\<close> on a stored value that is not an
  array throws a \<open>TypeError\<close> outside the \<open>try\<close>.\<close>

definition saveAnalysis :: "json \<Rightarrow> local_storage \<Rightarrow> (js_error + bool) \<times> local_storage" where
  "saveAnalysis analysisData st =
     (let (ok, st1) = isLocalStorageAvailable st in
      if \<not> ok then (Inr False, st1)
      else let (saved, st2) = getSavedAnalyses st1 in
        case saved of
          JArr xs \<Rightarrow>
            (case setItem STORAGE_KEY (JSON_stringify (JArr (xs @ [analysisData]))) st2 of
               Inl _ \<Rightarrow> (Inr False, st2)
             | Inr st3 \<Rightarrow> (Inr True, st3))
        | _ \<Rightarrow> (Inl TypeError, st2))"

text \<open>\<open>deleteAnalysis\<close> (lines 96--122). The dialog passes the \<open>data-index\<close>
  attribute, a decimal string that the comparisons and \<open>splice\<close> convert to its
  integer. On a stored value that is not an array: a string has a \<open>length\<close> but no
  \<open>splice\<close>; \<open>null.length\<close> throws; other values have an undefined \<open>length\<close>, so
  only \<open>index < 0\<close> returns before \<open>splice\<close> throws.\<close>

definition deleteAnalysis :: "int \<Rightarrow> local_storage \<Rightarrow> (js_error + bool) \<times> local_storage" where
  "deleteAnalysis index st =
     (let (ok, st1) = isLocalStorageAvailable st in
      if \<not> ok then (Inr False, st1)
      else let (saved, st2) = getSavedAnalyses st1 in
        case saved of
          JArr xs \<Rightarrow>
            if index < 0 \<or> index \<ge> int (length xs) then (Inr False, st2)
            else
              (case setItem STORAGE_KEY
                      (JSON_stringify (JArr (take (nat index) xs @ drop (Suc (nat index)) xs))) st2 of
                 Inl _ \<Rightarrow> (Inr False, st2)
               | Inr st3 \<Rightarrow> (Inr True, st3))
        | JStr s \<Rightarrow> if index < 0 \<or> index \<ge> int (length s) then (Inr False, st2) else (Inl TypeError, st2)
        | JNull \<Rightarrow> (Inl TypeError, st2)
        | _ \<Rightarrow> if index < 0 then (Inr False, st2) else (Inl TypeError, st2))"

text \<open>\<open>clearAllAnalyses\<close> (lines 128--141).\<close>

definition clearAllAnalyses :: "local_storage \<Rightarrow> bool \<times> local_storage" where
  "clearAllAnalyses st =
     (let (ok, st1) = isLocalStorageAvailable st in
      if \<not> ok then (False, st1)
      else case removeItem STORAGE_KEY st1 of Inl _ \<Rightarrow> (False, st1) | Inr st2 \<Rightarrow> (True, st2))"

text \<open>\<open>exportAllAnalyses\<close> (lines 146--175): the downloaded file's text
  (\<open>JSON.stringify(savedAnalyses, null, 2)\<close>), or \<open>None\<close> for the \<open>false\<close>
  return on an empty collection. \<open>length === 0\<close> holds for an empty array or
  string; \<open>null.length\<close> throws; other values have no length and are exported.\<close>

definition exportAllAnalyses :: "local_storage \<Rightarrow> (js_error + string option) \<times> local_storage" where
  "exportAllAnalyses st =
     (let (saved, st1) = getSavedAnalyses st in
      case saved of
        JNull \<Rightarrow> (Inl TypeError, st1)
      | JArr [] \<Rightarrow> (Inr None, st1)
      | JStr [] \<Rightarrow> (Inr None, st1)
      | _ \<Rightarrow> (Inr (Some (json_str ''  '' [] saved)), st1))"

text \<open>The file handed to \<open>importAnalyses\<close>: its MIME type and the text the
  \<open>FileReader\<close> delivers (\<open>None\<close> when reading fails).\<close>

record import_file =
  file_type :: string
  file_text :: "string option"

datatype import_error = NoFileProvided | InvalidFileType | ErrorReadingFile
  | InvalidDataFormat | ErrorParsingImportFile js_error

text \<open>\<open>[...existing]\<close>: an array spreads to its elements, a string to its
  characters; anything else is not iterable.\<close>

definition js_spread :: "json \<Rightarrow> json list option" where
  "js_spread v = (case v of JArr xs \<Rightarrow> Some xs | JStr s \<Rightarrow> Some (map (\<lambda>c. JStr [c]) s) | _ \<Rightarrow> None)"

text \<open>\<open>importAnalyses\<close> (lines 182--227), with the promise settled when the
  reader's \<open>onload\<close> or \<open>onerror\<close> runs. Every exception inside \<open>onload\<close> is
  caught and reported as a parse error, the failing write included.\<close>

definition importAnalyses :: "import_file option \<Rightarrow> local_storage \<Rightarrow> (import_error + nat) \<times> local_storage" where
  "importAnalyses file st =
     (case file of
        None \<Rightarrow> (Inl NoFileProvided, st)
      | Some f \<Rightarrow>
          if file_type f \<noteq> ''application/json'' then (Inl InvalidFileType, st)
          else case file_text f of
            None \<Rightarrow> (Inl ErrorReadingFile, st)
          | Some text \<Rightarrow>
              (case JSON_parse text of
                 None \<Rightarrow> (Inl (ErrorParsingImportFile SyntaxError), st)
               | Some (JArr importedData) \<Rightarrow>
                   (let (existing, st1) = getSavedAnalyses st in
                    case js_spread existing of
                      None \<Rightarrow> (Inl (ErrorParsingImportFile TypeError), st1)
                    | Some ex \<Rightarrow>
                        (case setItem STORAGE_KEY (JSON_stringify (JArr (ex @ importedData))) st1 of
                           Inl e \<Rightarrow> (Inl (ErrorParsingImportFile e), st1)
                         | Inr st2 \<Rightarrow> (Inr (length importedData), st2)))
               | Some _ \<Rightarrow> (Inl InvalidDataFormat, st)))"

subsection \<open>The persisted collection\<close>

text \<open>The test write of \<open>isLocalStorageAvailable\<close> fits: the store is enabled and
  has room for the test item (on a store that does not hold it).\<close>

definition room :: "local_storage \<Rightarrow> bool" where
  "room st \<longleftrightarrow> ls_enabled st \<and> ls_used (ls_items st) + 2 * length storage_test \<le> ls_quota st"

text \<open>The collection the store holds: the array its text parses to.\<close>

definition stored_list :: "local_storage \<Rightarrow> json list" where
  "stored_list st = (case map_of (ls_items st) STORAGE_KEY of
     None \<Rightarrow> [] | Some d \<Rightarrow> (case JSON_parse d of Some (JArr xs) \<Rightarrow> xs | _ \<Rightarrow> []))"

text \<open>What the module's own writes maintain: keys are distinct, the probe's test key
  is gone, and the stored text is the compact serialisation of an array.\<close>

definition storage_inv :: "local_storage \<Rightarrow> bool" where
  "storage_inv st \<longleftrightarrow> distinct (map fst (ls_items st)) \<and> storage_test \<notin> set (map fst (ls_items st)) \<and>
     (case map_of (ls_items st) STORAGE_KEY of
        None \<Rightarrow> True
      | Some d \<Rightarrow> (case JSON_parse d of Some (JArr xs) \<Rightarrow> d = JSON_stringify (JArr xs) | _ \<Rightarrow> False))"

text \<open>The module's operations as one step function on the store, for reasoning about
  every sequence of calls; a saved value is one a JavaScript program can hold.\<close>

datatype storage_op = OpSave json | OpList | OpDelete int | OpClear | OpExport
  | OpImport "import_file option"

fun storage_step :: "storage_op \<Rightarrow> local_storage \<Rightarrow> local_storage" where
  "storage_step (OpSave e) st = snd (saveAnalysis e st)"
| "storage_step OpList st = snd (getSavedAnalyses st)"
| "storage_step (OpDelete i) st = snd (deleteAnalysis i st)"
| "storage_step OpClear st = snd (clearAllAnalyses st)"
| "storage_step OpExport st = snd (exportAllAnalyses st)"
| "storage_step (OpImport f) st = snd (importAnalyses f st)"

fun op_ok :: "storage_op \<Rightarrow> bool" where
  "op_ok (OpSave e) = json_wf e"
| "op_ok _ = True"

text \<open>Stores reachable from one the application has not written yet (other keys of
  the origin may be present).\<close>

inductive storage_reach :: "local_storage \<Rightarrow> bool" where
  init: "distinct (map fst (ls_items st)) \<Longrightarrow> STORAGE_KEY \<notin> fst ` set (ls_items st) \<Longrightarrow>
         storage_test \<notin> fst ` set (ls_items st) \<Longrightarrow> storage_reach st"
| step: "storage_reach st \<Longrightarrow> op_ok op \<Longrightarrow> storage_reach (storage_step op st)"

subsection \<open>Examples\<close>

definition entry_A :: json where "entry_A = JObj [(''name'', JStr ''A'')]"
definition entry_B :: json where "entry_B = JObj [(''name'', JStr ''B'')]"

definition store_with :: "nat \<Rightarrow> json list \<Rightarrow> local_storage" where
  "store_with q xs = \<lparr>ls_enabled = True, ls_quota = q, ls_items = [(STORAGE_KEY, JSON_stringify (JArr xs))]\<rparr>"

definition empty_store :: "nat \<Rightarrow> local_storage" where
  "empty_store q = \<lparr>ls_enabled = True, ls_quota = q, ls_items = []\<rparr>"

definition json_file :: "string \<Rightarrow> import_file" where
  "json_file t = \<lparr>file_type = ''application/json'', file_text = Some t\<rparr>"

section \<open>The store and its operations\<close>


lemma ls_used_append [simp]: "ls_used (items @ [(k, v)]) = ls_used items + length k + length v"
  by (simp add: ls_used_def)

lemma ls_used_update:
  "distinct (map fst items) \<Longrightarrow> map_of items k = Some d \<Longrightarrow>
   ls_used (AList.update k v items) + length d = ls_used items + length v"
  by (induction items) (auto simp: ls_used_def)

lemma delete_append_same [simp]: "AList.delete k (items @ [(k, v)]) = AList.delete k items"
  by (simp add: AList.delete_eq)

lemma probe:
  assumes "storage_test \<notin> set (map fst (ls_items st))"
  shows "isLocalStorageAvailable st = (room st, st)"
  using assms
  by (simp add: isLocalStorageAvailable_def setItem_def removeItem_def room_def update_fresh Let_def)
lemma stringify_nonempty: "JSON_stringify v \<noteq> []"
  using json_str_first [of "[]" "[]" v] by (auto simp: JSON_stringify_def)

lemma inv_stored:
  assumes "storage_inv st" and "map_of (ls_items st) STORAGE_KEY = Some d"
  shows "JSON_parse d = Some (JArr (stored_list st)) \<and> d = JSON_stringify (JArr (stored_list st))"
  using assms by (auto simp: storage_inv_def stored_list_def split: option.splits json.splits)

lemma getSaved_inv:
  assumes "storage_inv st"
  shows "getSavedAnalyses st = (if room st then JArr (stored_list st) else JArr [], st)"
proof -
  have probe_st: "isLocalStorageAvailable st = (room st, st)"
    using assms by (intro probe) (simp add: storage_inv_def)
  show ?thesis
  proof (cases "map_of (ls_items st) STORAGE_KEY")
    case None
    then show ?thesis using probe_st
      by (simp add: getSavedAnalyses_def getItem_def room_def stored_list_def)
  next
    case (Some d)
    with inv_stored [OF assms this] show ?thesis using probe_st stringify_nonempty
      by (auto simp: getSavedAnalyses_def getItem_def room_def)
  qed
qed

lemma json_wf_list: "json_wf (JArr ys) \<longleftrightarrow> (\<forall>y \<in> set ys. json_wf y)"
  by simp

lemma write_list:
  assumes "storage_inv st" and "\<forall>y \<in> set ys. json_wf y"
    and "setItem STORAGE_KEY (JSON_stringify (JArr ys)) st = Inr st'"
  shows "storage_inv st' \<and> stored_list st' = map json_norm ys \<and>
         ls_enabled st' = ls_enabled st \<and> ls_quota st' = ls_quota st \<and>
         ls_items st' = AList.update STORAGE_KEY (JSON_stringify (JArr ys)) (ls_items st)"
proof -
  have st': "st' = st\<lparr>ls_items := AList.update STORAGE_KEY (JSON_stringify (JArr ys)) (ls_items st)\<rparr>"
    using assms(3) by (auto simp: setItem_def Let_def split: if_splits)
  have parse: "JSON_parse (JSON_stringify (JArr ys)) = Some (JArr (map json_norm ys))"
    using JSON_parse_json_str [of "JArr ys" "[]"] assms(2) by (simp add: JSON_stringify_def)
  have printed: "JSON_stringify (JArr (map json_norm ys)) = JSON_stringify (JArr ys)"
    using json_str_norm [of "[]" "[]" "JArr ys"] by (simp add: JSON_stringify_def)
  have keys: "STORAGE_KEY \<noteq> storage_test" by (simp add: STORAGE_KEY_def storage_test_def)
  show ?thesis
    using assms(1) parse printed keys
    by (auto simp: st' storage_inv_def stored_list_def distinct_update dom_update update_conv')
qed
lemma stored_list_wf:
  assumes "storage_inv st"
  shows "\<forall>x \<in> set (stored_list st). json_wf x \<and> nan_free x"
proof (cases "map_of (ls_items st) STORAGE_KEY")
  case (Some d)
  from inv_stored [OF assms Some] have "JSON_parse d = Some (JArr (stored_list st))" by (rule conjunct1)
  then have "json_wf (JArr (stored_list st)) \<and> nan_free (JArr (stored_list st))" by (rule JSON_parse_wf)
  then show ?thesis by simp
qed (simp add: stored_list_def)

lemma norm_stored: "storage_inv st \<Longrightarrow> map json_norm (stored_list st) = stored_list st"
  using stored_list_wf [of st] json_norm_nan_free by (simp add: map_idI)

lemma probe_inv: "storage_inv st \<Longrightarrow> isLocalStorageAvailable st = (room st, st)"
  by (intro probe) (simp add: storage_inv_def)

lemma saveAnalysis_eq:
  assumes "storage_inv st"
  shows "saveAnalysis e st =
    (if \<not> room st then (Inr False, st)
     else case setItem STORAGE_KEY (JSON_stringify (JArr (stored_list st @ [e]))) st of
            Inl _ \<Rightarrow> (Inr False, st) | Inr st' \<Rightarrow> (Inr True, st'))"
  using probe_inv [OF assms] getSaved_inv [OF assms] by (simp add: saveAnalysis_def)

lemma join_comma_length:
  "ys \<noteq> [] \<Longrightarrow> Suc (length (join [c] ys)) = sum_list (map (\<lambda>y. Suc (length y)) ys)"
  by (induction ys rule: induct_list012) simp_all

lemma length_stringify_arr:
  "length (JSON_stringify (JArr ys)) =
     (if ys = [] then 2 else Suc (sum_list (map (\<lambda>y. Suc (length (JSON_stringify y))) ys)))"
  using join_comma_length [of "map (json_str [] []) ys" "CHR '',''"]
  by (simp add: JSON_stringify_def comp_def)

lemma length_stringify_remove:
  assumes "i < length xs"
  shows "length (JSON_stringify (JArr (take i xs @ drop (Suc i) xs))) \<le> length (JSON_stringify (JArr xs))"
proof -
  let ?f = "\<lambda>y. Suc (length (JSON_stringify y))"
  have xs: "xs = take i xs @ xs ! i # drop (Suc i) xs" using assms by (simp add: id_take_nth_drop)
  have "sum_list (map ?f xs) = sum_list (map ?f (take i xs @ drop (Suc i) xs)) + ?f (xs ! i)"
    by (subst xs) simp
  moreover have "xs \<noteq> []" using assms by auto
  ultimately show ?thesis by (auto simp: length_stringify_arr)
qed
lemma saveAnalysis_refines:
  assumes "storage_inv st" and "json_wf e"
  shows "\<exists>b st'. saveAnalysis e st = (Inr b, st') \<and> storage_inv st' \<and>
           stored_list st' = (if b then stored_list st @ [json_norm e] else stored_list st) \<and> (b \<longrightarrow> room st)"
proof (cases "room st")
  case True
  show ?thesis
  proof (cases "setItem STORAGE_KEY (JSON_stringify (JArr (stored_list st @ [e]))) st")
    case (Inr st')
    have "\<forall>y \<in> set (stored_list st @ [e]). json_wf y" using stored_list_wf [OF assms(1)] assms(2) by auto
    from write_list [OF assms(1) this Inr] show ?thesis
      using True Inr norm_stored [OF assms(1)] by (simp add: saveAnalysis_eq [OF assms(1)]) blast
  qed (use True assms in \<open>simp add: saveAnalysis_eq, blast\<close>)
qed (use assms in \<open>simp add: saveAnalysis_eq, blast\<close>)

lemma map_norm_sublist:
  "map json_norm xs = xs \<Longrightarrow> map json_norm (take i xs @ drop j xs) = take i xs @ drop j xs"
  by (metis drop_map map_append take_map)

lemma delete_shrinks:
  assumes "storage_inv st" and "i < length (stored_list st)"
  shows "ls_used (AList.update STORAGE_KEY
           (JSON_stringify (JArr (take i (stored_list st) @ drop (Suc i) (stored_list st)))) (ls_items st))
         \<le> ls_used (ls_items st)"
proof -
  let ?xs = "stored_list st"
  let ?new = "JSON_stringify (JArr (take i ?xs @ drop (Suc i) ?xs))"
  obtain d where d: "map_of (ls_items st) STORAGE_KEY = Some d"
    using assms(2) by (cases "map_of (ls_items st) STORAGE_KEY") (auto simp: stored_list_def)
  have "d = JSON_stringify (JArr ?xs)" using inv_stored [OF assms(1) d] by simp
  then have "length ?new \<le> length d" using length_stringify_remove [OF assms(2)] by simp
  moreover have "ls_used (AList.update STORAGE_KEY ?new (ls_items st)) + length d = ls_used (ls_items st) + length ?new"
    using assms(1) d by (intro ls_used_update) (simp_all add: storage_inv_def)
  ultimately show ?thesis by simp
qed

lemma delete_write_fits:
  assumes "storage_inv st" and "room st" and "i < length (stored_list st)"
  shows "\<exists>st'. setItem STORAGE_KEY (JSON_stringify (JArr (take i (stored_list st) @ drop (Suc i) (stored_list st)))) st = Inr st'"
  using delete_shrinks [OF assms(1,3)] assms(2) by (auto simp: setItem_def room_def Let_def)

lemma deleteAnalysis_eq:
  assumes "storage_inv st"
  shows "deleteAnalysis i st =
    (if room st \<and> 0 \<le> i \<and> i < int (length (stored_list st)) then
       (case setItem STORAGE_KEY
               (JSON_stringify (JArr (take (nat i) (stored_list st) @ drop (Suc (nat i)) (stored_list st)))) st of
          Inl _ \<Rightarrow> (Inr False, st) | Inr st' \<Rightarrow> (Inr True, st'))
     else (Inr False, st))"
  using probe_inv [OF assms] getSaved_inv [OF assms] by (auto simp: deleteAnalysis_def)

lemma deleteAnalysis_refines:
  assumes "storage_inv st"
  shows "\<exists>st'. deleteAnalysis i st = (Inr (room st \<and> 0 \<le> i \<and> i < int (length (stored_list st))), st') \<and>
           storage_inv st' \<and>
           stored_list st' = (if room st \<and> 0 \<le> i \<and> i < int (length (stored_list st))
                              then take (nat i) (stored_list st) @ drop (Suc (nat i)) (stored_list st)
                              else stored_list st)"
proof (cases "room st \<and> 0 \<le> i \<and> i < int (length (stored_list st))")
  case True
  then have i: "nat i < length (stored_list st)" by (simp add: nat_less_iff)
  obtain st' where w: "setItem STORAGE_KEY (JSON_stringify (JArr (take (nat i) (stored_list st) @
        drop (Suc (nat i)) (stored_list st)))) st = Inr st'"
    using delete_write_fits [OF assms _ i] True by blast
  have "\<forall>y \<in> set (take (nat i) (stored_list st) @ drop (Suc (nat i)) (stored_list st)). json_wf y"
    using stored_list_wf [OF assms] by (auto dest: in_set_takeD in_set_dropD)
  from write_list [OF assms this w] show ?thesis
    using True w probe_inv [OF assms] getSaved_inv [OF assms] map_norm_sublist [OF norm_stored [OF assms]]
    by (simp add: deleteAnalysis_def)
next
  case False
  then show ?thesis using assms probe_inv [OF assms] getSaved_inv [OF assms]
    by (auto simp: deleteAnalysis_def)
qed

lemma set_delete_subset: "set (AList.delete k al) \<subseteq> set al"
  by (auto simp: AList.delete_eq)

lemma clearAllAnalyses_refines:
  assumes "storage_inv st"
  shows "\<exists>st'. clearAllAnalyses st = (room st, st') \<and> storage_inv st' \<and>
           stored_list st' = (if room st then [] else stored_list st)"
  using assms probe_inv [OF assms] set_delete_subset [of STORAGE_KEY "ls_items st"]
  by (auto simp: clearAllAnalyses_def removeItem_def room_def storage_inv_def stored_list_def
      distinct_delete delete_conv' dest: subsetD [OF dom_delete_subset])

lemma exportAllAnalyses_eq:
  assumes "storage_inv st"
  shows "exportAllAnalyses st =
    (Inr (if room st \<and> stored_list st \<noteq> [] then Some (json_str ''  '' [] (JArr (stored_list st))) else None), st)"
  using getSaved_inv [OF assms] by (auto simp: exportAllAnalyses_def split: list.splits)
lemma importAnalyses_eq:
  assumes "storage_inv st"
  shows "importAnalyses file st =
    (case file of
       None \<Rightarrow> (Inl NoFileProvided, st)
     | Some f \<Rightarrow>
         if file_type f \<noteq> ''application/json'' then (Inl InvalidFileType, st)
         else case file_text f of
           None \<Rightarrow> (Inl ErrorReadingFile, st)
         | Some text \<Rightarrow>
             (case JSON_parse text of
                None \<Rightarrow> (Inl (ErrorParsingImportFile SyntaxError), st)
              | Some (JArr imp) \<Rightarrow>
                  (case setItem STORAGE_KEY
                          (JSON_stringify (JArr ((if room st then stored_list st else []) @ imp))) st of
                     Inl e \<Rightarrow> (Inl (ErrorParsingImportFile e), st)
                   | Inr st2 \<Rightarrow> (Inr (length imp), st2))
              | Some _ \<Rightarrow> (Inl InvalidDataFormat, st)))"
  using getSaved_inv [OF assms]
  by (simp add: importAnalyses_def js_spread_def split: option.splits json.splits)

lemma importAnalyses_refines:
  assumes "storage_inv st" and "importAnalyses file st = (r, st')"
  shows "storage_inv st' \<and>
         (case r of
            Inl _ \<Rightarrow> stored_list st' = stored_list st
          | Inr n \<Rightarrow> (\<exists>f contents imp. file = Some f \<and> file_type f = ''application/json'' \<and>
                        file_text f = Some contents \<and> JSON_parse contents = Some (JArr imp) \<and> n = length imp \<and>
                        stored_list st' = (if room st then stored_list st else []) @ imp))"
proof (cases "\<exists>f contents imp. file = Some f \<and> file_type f = ''application/json'' \<and>
                 file_text f = Some contents \<and> JSON_parse contents = Some (JArr imp)")
  case True
  then obtain f contents imp where f: "file = Some f" "file_type f = ''application/json''"
      "file_text f = Some contents" "JSON_parse contents = Some (JArr imp)" by blast
  let ?ys = "(if room st then stored_list st else []) @ imp"
  have "\<forall>y \<in> set imp. json_wf y \<and> nan_free y" using JSON_parse_wf [OF f(4)] by simp
  then have wf: "\<forall>y \<in> set ?ys. json_wf y" and nf: "map json_norm ?ys = ?ys"
    using stored_list_wf [OF assms(1)] json_norm_nan_free by (auto simp: map_idI)
  show ?thesis
  proof (cases "setItem STORAGE_KEY (JSON_stringify (JArr ?ys)) st")
    case (Inr st2)
    then have "r = Inr (length imp)" "st' = st2"
      using assms(2) f by (simp_all add: importAnalyses_eq [OF assms(1)])
    then show ?thesis using f write_list [OF assms(1) wf Inr] nf by auto
  qed (use assms f in \<open>auto simp: importAnalyses_eq\<close>)
next
  case False
  then show ?thesis using assms
    by (auto simp: importAnalyses_eq split: option.splits if_splits json.splits)
qed
lemma storage_step_inv:
  assumes "storage_inv st" and "op_ok op"
  shows "storage_inv (storage_step op st)"
proof (cases op)
  case (OpSave e)
  then show ?thesis using saveAnalysis_refines [OF assms(1), of e] assms(2) by auto
next
  case OpList
  then show ?thesis using getSaved_inv [OF assms(1)] assms(1) by simp
next
  case (OpDelete i)
  then show ?thesis using deleteAnalysis_refines [OF assms(1), of i] by auto
next
  case OpClear
  then show ?thesis using clearAllAnalyses_refines [OF assms(1)] by auto
next
  case OpExport
  then show ?thesis using exportAllAnalyses_eq [OF assms(1)] assms(1) by simp
next
  case (OpImport f)
  then show ?thesis using importAnalyses_refines [OF assms(1), of f] by (cases "importAnalyses f st") auto
qed

lemma reach_inv: "storage_reach st \<Longrightarrow> storage_inv st"
proof (induction rule: storage_reach.induct)
  case (init st)
  then have "map_of (ls_items st) STORAGE_KEY = None" by (simp add: map_of_eq_None_iff)
  with init show ?case by (simp add: storage_inv_def)
next
  case (step st op)
  show ?case by (rule storage_step_inv [OF step.IH step.hyps(2)])
qed

text \<open>C11: save then list (spec section 8). On a store the module maintains, when
  \<open>saveAnalysis\<close> reports success and the store still has room for the availability
  probe, \<open>getSavedAnalyses\<close> returns the list it returned before with the saved value
  appended at the last position, as JSON keeps it (deep-equal for a value without
  \<open>NaN\<close>).\<close>

theorem save_then_list:
  assumes "storage_inv st" and "json_wf e" and "fst (getSavedAnalyses st) = JArr xs"
    and "saveAnalysis e st = (Inr True, st')" and "room st'"
  shows "fst (getSavedAnalyses st') = JArr (xs @ [json_norm e])"
proof -
  obtain b st'' where s: "saveAnalysis e st = (Inr b, st'')" "storage_inv st''"
      "stored_list st'' = (if b then stored_list st @ [json_norm e] else stored_list st)" "b \<longrightarrow> room st"
    using saveAnalysis_refines [OF assms(1,2)] by blast
  with assms(4) have "b" "st'' = st'" by simp_all
  then have "xs = stored_list st" using assms(3) s(4) getSaved_inv [OF assms(1)] by simp
  then show ?thesis using s \<open>b\<close> \<open>st'' = st'\<close> getSaved_inv [of st'] assms(5) by simp
qed

text \<open>The room hypothesis of C13 is needed. Saving an entry into an empty store
  with a quota of 77 characters succeeds and the entry is stored, yet the next
  \<open>getSavedAnalyses\<close> returns \<open>[]\<close>: the probe's 32-character test item no
  longer fits, so the module reports the store unavailable.\<close>

theorem save_then_list_near_quota:
  "saveAnalysis entry_A (empty_store 77) = (Inr True, snd (saveAnalysis entry_A (empty_store 77))) \<and>
   stored_list (snd (saveAnalysis entry_A (empty_store 77))) = [entry_A] \<and>
   fst (getSavedAnalyses (snd (saveAnalysis entry_A (empty_store 77)))) = JArr []"
  by code_simp

lemma delete_room:
  assumes "storage_inv st" and "deleteAnalysis i st = (Inr True, st')"
  shows "room st' \<and> room st \<and> 0 \<le> i \<and> i < int (length (stored_list st))"
proof -
  have c: "room st \<and> 0 \<le> i \<and> i < int (length (stored_list st))"
    using assms by (auto simp: deleteAnalysis_eq split: if_splits sum.splits)
  then have i: "nat i < length (stored_list st)" by (simp add: nat_less_iff)
  let ?ys = "take (nat i) (stored_list st) @ drop (Suc (nat i)) (stored_list st)"
  have w: "setItem STORAGE_KEY (JSON_stringify (JArr ?ys)) st = Inr st'"
    using assms c by (auto simp: deleteAnalysis_eq split: sum.splits)
  have "\<forall>y \<in> set ?ys. json_wf y"
    using stored_list_wf [OF assms(1)] by (auto dest: in_set_takeD in_set_dropD)
  from write_list [OF assms(1) this w] delete_shrinks [OF assms(1) i] c show ?thesis
    by (auto simp: room_def)
qed

text \<open>C12: delete then list (spec section 8). When \<open>deleteAnalysis i\<close> reports success
  on a maintained store, the next \<open>getSavedAnalyses\<close> returns the previous list
  without its \<open>i\<close>-th entry, one shorter.\<close>

theorem delete_then_list:
  assumes "storage_inv st" and "fst (getSavedAnalyses st) = JArr xs"
    and "deleteAnalysis i st = (Inr True, st')"
  shows "fst (getSavedAnalyses st') = JArr (take (nat i) xs @ drop (Suc (nat i)) xs) \<and>
         length (take (nat i) xs @ drop (Suc (nat i)) xs) = length xs - 1"
proof -
  have r: "room st' \<and> room st \<and> 0 \<le> i \<and> i < int (length (stored_list st))"
    by (rule delete_room [OF assms(1,3)])
  then have xs: "xs = stored_list st" using assms(2) getSaved_inv [OF assms(1)] by simp
  obtain st'' where d: "deleteAnalysis i st = (Inr True, st'')" "storage_inv st''"
      "stored_list st'' = take (nat i) (stored_list st) @ drop (Suc (nat i)) (stored_list st)"
    using deleteAnalysis_refines [OF assms(1), of i] r by auto
  with assms(3) have "st'' = st'" by simp
  then show ?thesis using d r xs getSaved_inv [of st'] by (auto simp: min_def)
qed

text \<open>The spec's "no entry equal to the removed one" does not hold: deleting the
  first of two equal entries succeeds and leaves the other, equal to the removed
  one.\<close>

lemma delete_keeps_equal_entry:
  "deleteAnalysis 0 (store_with 1000 [entry_A, entry_A]) = (Inr True, snd (deleteAnalysis 0 (store_with 1000 [entry_A, entry_A]))) \<and>
   fst (getSavedAnalyses (snd (deleteAnalysis 0 (store_with 1000 [entry_A, entry_A])))) = JArr [entry_A]"
  by code_simp

text \<open>The spec's import example. With \<open>[{"name":"B"}]\<close> stored, importing a
  file holding \<open>[{"name":"A"}]\<close> resolves with 1 and the list becomes
  \<open>[{"name":"B"},{"name":"A"}]\<close>.\<close>

lemma import_spec_example:
  "fst (importAnalyses (Some (json_file ''[{\"name\":\"A\"}]'')) (store_with 1000 [entry_B])) = Inr 1 \<and>
   fst (getSavedAnalyses (snd (importAnalyses (Some (json_file ''[{\"name\":\"A\"}]'')) (store_with 1000 [entry_B])))) =
     JArr [entry_B, entry_A]"
  by code_simp

text \<open>A JSON file whose root is not an array is rejected with the invalid-format
  error and the store is left exactly as it was.\<close>

theorem import_non_array_rejected:
  assumes "JSON_parse t = Some v" and "\<forall>xs. v \<noteq> JArr xs"
  shows "importAnalyses (Some (json_file t)) st = (Inl InvalidDataFormat, st)"
  using assms by (cases v) (simp_all add: importAnalyses_def json_file_def)

theorem import_non_array_rejected_witness:
  "JSON_parse ''{\"name\":\"A\"}'' = Some entry_A \<and> (\<forall>xs. entry_A \<noteq> JArr xs) \<and>
   importAnalyses (Some (json_file ''{\"name\":\"A\"}'')) (store_with 1000 [entry_B]) =
     (Inl InvalidDataFormat, store_with 1000 [entry_B])"
proof -
  have p: "JSON_parse ''{\"name\":\"A\"}'' = Some entry_A" by code_simp
  have n: "\<forall>xs. entry_A \<noteq> JArr xs" by (simp add: entry_A_def)
  show ?thesis using p n import_non_array_rejected [OF p n] by blast
qed
theorem save_then_list_witness:
  "storage_inv (empty_store 1000) \<and> json_wf entry_A \<and> fst (getSavedAnalyses (empty_store 1000)) = JArr [] \<and>
   saveAnalysis entry_A (empty_store 1000) = (Inr True, snd (saveAnalysis entry_A (empty_store 1000))) \<and>
   room (snd (saveAnalysis entry_A (empty_store 1000))) \<and>
   fst (getSavedAnalyses (snd (saveAnalysis entry_A (empty_store 1000)))) = JArr ([] @ [json_norm entry_A])"
proof -
  have h: "storage_inv (empty_store 1000)" "json_wf entry_A" "fst (getSavedAnalyses (empty_store 1000)) = JArr []"
    "saveAnalysis entry_A (empty_store 1000) = (Inr True, snd (saveAnalysis entry_A (empty_store 1000)))"
    "room (snd (saveAnalysis entry_A (empty_store 1000)))"
    by code_simp+
  show ?thesis using h save_then_list [OF h] by blast
qed

theorem delete_then_list_witness:
  "storage_inv (store_with 1000 [entry_A, entry_B]) \<and>
   fst (getSavedAnalyses (store_with 1000 [entry_A, entry_B])) = JArr [entry_A, entry_B] \<and>
   deleteAnalysis 0 (store_with 1000 [entry_A, entry_B]) =
     (Inr True, snd (deleteAnalysis 0 (store_with 1000 [entry_A, entry_B]))) \<and>
   fst (getSavedAnalyses (snd (deleteAnalysis 0 (store_with 1000 [entry_A, entry_B])))) =
     JArr (take (nat 0) [entry_A, entry_B] @ drop (Suc (nat 0)) [entry_A, entry_B]) \<and>
   length (take (nat 0) [entry_A, entry_B] @ drop (Suc (nat 0)) [entry_A, entry_B]) = length [entry_A, entry_B] - 1"
proof -
  have h: "storage_inv (store_with 1000 [entry_A, entry_B])"
    "fst (getSavedAnalyses (store_with 1000 [entry_A, entry_B])) = JArr [entry_A, entry_B]"
    "deleteAnalysis 0 (store_with 1000 [entry_A, entry_B]) =
       (Inr True, snd (deleteAnalysis 0 (store_with 1000 [entry_A, entry_B])))"
    by code_simp+
  show ?thesis using h delete_then_list [OF h] by blast
qed

text \<open>C13: no partial import. Whenever \<open>importAnalyses\<close> rejects, the saved list is
  unchanged and the store invariant holds. The witness is a write that exceeds the
  quota, which the code reports as an error parsing the import file.\<close>

theorem import_rejection_keeps_list:
  assumes "storage_inv st" and "importAnalyses file st = (Inl e, st')"
  shows "storage_inv st' \<and> stored_list st' = stored_list st"
  using importAnalyses_refines [OF assms] by simp

theorem import_rejection_keeps_list_witness:
  "storage_inv (store_with 80 [entry_B]) \<and>
   importAnalyses (Some (json_file ''[{\"name\":\"A\"},{\"name\":\"A\"},{\"name\":\"A\"},{\"name\":\"A\"}]''))
     (store_with 80 [entry_B]) = (Inl (ErrorParsingImportFile QuotaExceededError), store_with 80 [entry_B]) \<and>
   storage_inv (store_with 80 [entry_B]) \<and> stored_list (store_with 80 [entry_B]) = stored_list (store_with 80 [entry_B])"
proof -
  have h: "storage_inv (store_with 80 [entry_B])"
    "importAnalyses (Some (json_file ''[{\"name\":\"A\"},{\"name\":\"A\"},{\"name\":\"A\"},{\"name\":\"A\"}]''))
       (store_with 80 [entry_B]) = (Inl (ErrorParsingImportFile QuotaExceededError), store_with 80 [entry_B])"
    by code_simp+
  show ?thesis using h import_rejection_keeps_list [OF h] by blast
qed

text \<open>C14: importing into a maintained store that has no room for the availability
  probe replaces the saved list by the imported entries: \<open>getSavedAnalyses\<close>
  answers \<open>[]\<close>, and the combined array written back holds the imported entries
  only. The witness drops two saved analyses.\<close>

theorem import_without_room_drops_existing:
  assumes "storage_inv st" and "\<not> room st" and "JSON_parse t = Some (JArr imp)"
    and "importAnalyses (Some (json_file t)) st = (Inr n, st')"
  shows "stored_list st' = imp \<and> n = length imp"
  using importAnalyses_refines [OF assms(1,4)] assms(2,3) by (auto simp: json_file_def)

theorem import_without_room_drops_existing_witness:
  "storage_inv (store_with 90 [entry_B, entry_B]) \<and> \<not> room (store_with 90 [entry_B, entry_B]) \<and>
   JSON_parse ''[{\"name\":\"A\"}]'' = Some (JArr [entry_A]) \<and>
   importAnalyses (Some (json_file ''[{\"name\":\"A\"}]'')) (store_with 90 [entry_B, entry_B]) =
     (Inr 1, snd (importAnalyses (Some (json_file ''[{\"name\":\"A\"}]'')) (store_with 90 [entry_B, entry_B]))) \<and>
   stored_list (store_with 90 [entry_B, entry_B]) = [entry_B, entry_B] \<and>
   stored_list (snd (importAnalyses (Some (json_file ''[{\"name\":\"A\"}]'')) (store_with 90 [entry_B, entry_B]))) = [entry_A] \<and>
   1 = length [entry_A]"
proof -
  have h: "storage_inv (store_with 90 [entry_B, entry_B])" "\<not> room (store_with 90 [entry_B, entry_B])"
    "JSON_parse ''[{\"name\":\"A\"}]'' = Some (JArr [entry_A])"
    "importAnalyses (Some (json_file ''[{\"name\":\"A\"}]'')) (store_with 90 [entry_B, entry_B]) =
       (Inr 1, snd (importAnalyses (Some (json_file ''[{\"name\":\"A\"}]'')) (store_with 90 [entry_B, entry_B])))"
    by code_simp+
  have b: "stored_list (store_with 90 [entry_B, entry_B]) = [entry_B, entry_B]" by code_simp
  show ?thesis using h b import_without_room_drops_existing [OF h] by blast
qed

text \<open>C15: every store reachable from one the application has not yet written, through
  any sequence of the module's operations, satisfies the store invariant; on such a
  store \<open>saveAnalysis\<close>, \<open>deleteAnalysis\<close> and \<open>exportAllAnalyses\<close> never throw.\<close>

theorem reachable_store_sound:
  assumes "storage_reach st"
  shows "storage_inv st \<and> (\<forall>e. json_wf e \<longrightarrow> (\<exists>b. fst (saveAnalysis e st) = Inr b)) \<and>
         (\<forall>i. \<exists>b. fst (deleteAnalysis i st) = Inr b) \<and> (\<exists>r. fst (exportAllAnalyses st) = Inr r)"
proof -
  have inv: "storage_inv st" using assms by (rule reach_inv)
  have "\<exists>b. fst (saveAnalysis e st) = Inr b" if "json_wf e" for e
    using saveAnalysis_refines [OF inv that] by auto
  moreover have "\<exists>b. fst (deleteAnalysis i st) = Inr b" for i
    using deleteAnalysis_refines [OF inv, of i] by auto
  ultimately show ?thesis using inv exportAllAnalyses_eq [OF inv] by auto
qed

theorem reachable_store_sound_witness:
  "storage_reach (empty_store 1000) \<and> storage_inv (empty_store 1000) \<and>
   (\<exists>b. fst (deleteAnalysis 3 (empty_store 1000)) = Inr b)"
proof -
  have r: "storage_reach (empty_store 1000)" by (rule storage_reach.init) (simp_all add: empty_store_def)
  show ?thesis using r reachable_store_sound [OF r] by blast
qed

text \<open>C16: export then import. The exported file of a non-empty collection parses back
  to the collection, and importing it (when it fits) resolves with the collection's
  length and doubles the collection.\<close>

theorem export_then_import:
  assumes "storage_inv st" and "room st" and "stored_list st = xs" and "xs \<noteq> []"
    and "fst (exportAllAnalyses st) = Inr (Some t)"
    and "importAnalyses (Some (json_file t)) st = (Inr n, st')"
  shows "JSON_parse t = Some (JArr xs) \<and> n = length xs \<and> stored_list st' = xs @ xs"
proof -
  have t: "t = json_str ''  '' [] (JArr xs)" using assms(2-5) exportAllAnalyses_eq [OF assms(1)] by simp
  have "\<forall>x \<in> set xs. json_wf x" using stored_list_wf [OF assms(1)] assms(3) by simp
  then have p: "JSON_parse t = Some (JArr xs)"
    using JSON_parse_json_str [of "JArr xs" "''  ''"] norm_stored [OF assms(1)] assms(3) t
    by (simp add: is_ws_def)
  then show ?thesis using importAnalyses_refines [OF assms(1,6)] assms(2,3) by (auto simp: json_file_def)
qed

theorem export_then_import_witness:
  "storage_inv (store_with 1000 [entry_B]) \<and> room (store_with 1000 [entry_B]) \<and>
   stored_list (store_with 1000 [entry_B]) = [entry_B] \<and> [entry_B] \<noteq> [] \<and>
   fst (exportAllAnalyses (store_with 1000 [entry_B])) = Inr (Some (json_str ''  '' [] (JArr [entry_B]))) \<and>
   importAnalyses (Some (json_file (json_str ''  '' [] (JArr [entry_B])))) (store_with 1000 [entry_B]) =
     (Inr 1, snd (importAnalyses (Some (json_file (json_str ''  '' [] (JArr [entry_B])))) (store_with 1000 [entry_B]))) \<and>
   stored_list (snd (importAnalyses (Some (json_file (json_str ''  '' [] (JArr [entry_B])))) (store_with 1000 [entry_B]))) =
     [entry_B] @ [entry_B]"
proof -
  have h: "storage_inv (store_with 1000 [entry_B])" "room (store_with 1000 [entry_B])"
    "stored_list (store_with 1000 [entry_B]) = [entry_B]" "[entry_B] \<noteq> []"
    "fst (exportAllAnalyses (store_with 1000 [entry_B])) = Inr (Some (json_str ''  '' [] (JArr [entry_B])))"
    "importAnalyses (Some (json_file (json_str ''  '' [] (JArr [entry_B])))) (store_with 1000 [entry_B]) =
     (Inr 1, snd (importAnalyses (Some (json_file (json_str ''  '' [] (JArr [entry_B])))) (store_with 1000 [entry_B])))"
    by code_simp+
  show ?thesis using h export_then_import [OF h] by blast
qed

text \<open>\<open>deleteAnalysis\<close> with an index outside \<open>[0, length)\<close> returns
  \<open>false\<close> and leaves the store as it is.\<close>

theorem delete_out_of_range:
  assumes "storage_inv st" and "\<not> (0 \<le> i \<and> i < int (length (stored_list st)))"
  shows "deleteAnalysis i st = (Inr False, st)"
  using assms by (auto simp: deleteAnalysis_eq)

theorem delete_out_of_range_witness:
  "storage_inv (store_with 1000 [entry_B]) \<and> \<not> (0 \<le> (1::int) \<and> 1 < int (length (stored_list (store_with 1000 [entry_B])))) \<and>
   deleteAnalysis 1 (store_with 1000 [entry_B]) = (Inr False, store_with 1000 [entry_B])"
proof -
  have h: "storage_inv (store_with 1000 [entry_B])"
    "\<not> (0 \<le> (1::int) \<and> 1 < int (length (stored_list (store_with 1000 [entry_B]))))"
    by code_simp+
  show ?thesis using h delete_out_of_range [OF h] by blast
qed

text \<open>C17: on a maintained store without room for the probe, \<open>getSavedAnalyses\<close> returns
  \<open>[]\<close> and \<open>saveAnalysis\<close>, \<open>deleteAnalysis\<close> and \<open>clearAllAnalyses\<close> refuse,
  leaving the store unchanged: a full store cannot be cleared or thinned out through
  the module.\<close>

theorem store_without_room_refuses:
  assumes "storage_inv st" and "\<not> room st"
  shows "getSavedAnalyses st = (JArr [], st) \<and> saveAnalysis e st = (Inr False, st) \<and>
         deleteAnalysis i st = (Inr False, st) \<and> clearAllAnalyses st = (False, st)"
  using assms probe_inv [OF assms(1)] getSaved_inv [OF assms(1)]
  by (simp add: saveAnalysis_eq deleteAnalysis_eq clearAllAnalyses_def)

theorem store_without_room_refuses_witness:
  "storage_inv (store_with 60 [entry_B]) \<and> \<not> room (store_with 60 [entry_B]) \<and>
   stored_list (store_with 60 [entry_B]) = [entry_B] \<and>
   deleteAnalysis 0 (store_with 60 [entry_B]) = (Inr False, store_with 60 [entry_B]) \<and>
   clearAllAnalyses (store_with 60 [entry_B]) = (False, store_with 60 [entry_B])"
proof -
  have h: "storage_inv (store_with 60 [entry_B])" "\<not> room (store_with 60 [entry_B])" by code_simp+
  have l: "stored_list (store_with 60 [entry_B]) = [entry_B]" by code_simp
  show ?thesis using h l store_without_room_refuses [OF h, of entry_A 0] by blast
qed

end
