(* ===== verification/Form.thy ===== *)
theory Form
  imports Engine
begin

text \<open>
  The input form of \<open>src/js/ui-controller.js\<close>: the platform cards (children of
  \<open>#platform-inputs\<close>) and the audience cards (\<open>.audience-card\<close> elements), each
  carrying the platform number it was created with, and the values of their inputs.
  \<open>addNewPlatform\<close> appends one card of each kind numbered with the incremented
  \<open>platformCount\<close>; \<open>removePlatform\<close> removes the platform card found by
  \<open>.platform-card:nth-child(n)\<close> (a position) and the audience card found by
  \<open>[data-platform="n"]\<close> (a number); \<open>getAllPlatformData\<close> and
  \<open>getAllAudienceData\<close> read the cards into the objects the engine takes. The two
  initial cards are in the page's HTML, which is not part of the repository; the model
  takes them as platforms 1 and 2 with empty inputs and, as \<open>loadAnalysisData\<close>
  renders platforms 1 and 2, without remove button, with \<open>#platform-inputs\<close> holding
  only platform cards. \<open>removable\<close> tells which card numbers were created with a
  remove button whose click listener is attached (its \<open>data-platform\<close> is the card's
  number); a button goes with its card. \<open>inputs_unmodelled\<close> is not a variable of the
  code: it marks a form rebuilt by \<open>loadAnalysisData\<close> from a platform name holding
  markup, whose inputs the model does not determine (see \<open>Load\<close>).
\<close>

record form_state =
  platformCount :: nat
  platform_cards :: "nat list"
  audience_cards :: "nat list"
  platform_inputs :: "nat \<Rightarrow> platform_rec"
  audience_inputs :: "nat \<Rightarrow> audience_rec"
  removable :: "nat \<Rightarrow> bool"
  inputs_unmodelled :: bool

text \<open>The inputs of a new platform card: the name input's default value, an empty
  textarea, the two selects on their empty first option, an empty keywords input.\<close>

definition new_platform_inputs :: platform_rec where
  "new_platform_inputs =
     \<lparr>name = ''New Platform'', content = [], tone = [], format = [], platform_keywords = []\<rparr>"

text \<open>The inputs of a new audience card: every number input is empty, which
  \<open>getInputValueAsNumber\<close> reads as 0 (\<open>parseFloat('')\<close> is \<open>NaN\<close>).\<close>

definition new_audience_inputs :: audience_rec where
  "new_audience_inputs =
     \<lparr>audienceSize = 0, engagementRate = 0,
      ageDistribution = \<lparr>age_18_24 = 0, age_25_34 = 0, age_35_44 = 0, age_45_54 = 0,
                         age_55_64 = 0, age_65plus = 0\<rparr>,
      genderDistribution = \<lparr>male = 0, female = 0, other = 0\<rparr>, interests = []\<rparr>"

definition initial_form :: form_state where
  "initial_form =
     \<lparr>platformCount = 2, platform_cards = [1, 2], audience_cards = [1, 2],
      platform_inputs = (\<lambda>_. new_platform_inputs), audience_inputs = (\<lambda>_. new_audience_inputs),
      removable = (\<lambda>_. False), inputs_unmodelled = False\<rparr>"

text \<open>\<open>addNewPlatform\<close> (lines 47--228).\<close>

definition addNewPlatform :: "form_state \<Rightarrow> form_state" where
  "addNewPlatform st =
     (let n = Suc (platformCount st) in
      st\<lparr>platformCount := n,
         platform_cards := platform_cards st @ [n],
         audience_cards := audience_cards st @ [n],
         platform_inputs := (platform_inputs st)(n := new_platform_inputs),
         audience_inputs := (audience_inputs st)(n := new_audience_inputs),
         removable := (removable st)(n := True)\<rparr>)"

text \<open>\<open>element.remove()\<close> on the \<open>n\<close>-th child (1-based) when there is one.\<close>

definition remove_nth_child :: "nat \<Rightarrow> 'a list \<Rightarrow> 'a list" where
  "remove_nth_child n xs = (if 1 \<le> n \<and> n \<le> length xs then take (n - 1) xs @ drop n xs else xs)"

text \<open>\<open>removePlatform\<close> (lines 230--242); \<open>querySelector\<close> finds the first audience
  card with the number.\<close>

definition removePlatform :: "nat \<Rightarrow> form_state \<Rightarrow> form_state" where
  "removePlatform platformNumber st =
     st\<lparr>platform_cards := remove_nth_child platformNumber (platform_cards st),
        audience_cards := remove1 platformNumber (audience_cards st)\<rparr>"

text \<open>\<open>getAllPlatformData\<close> (lines 265--285) and \<open>getAllAudienceData\<close> (lines
  290--326): one property per card, keyed by its number.\<close>

definition getAllPlatformData :: "form_state \<Rightarrow> platform_rec jsobj" where
  "getAllPlatformData st = obj_of_list (map (\<lambda>i. (i, platform_inputs st i)) (platform_cards st))"

definition getAllAudienceData :: "form_state \<Rightarrow> audience_rec jsobj" where
  "getAllAudienceData st = obj_of_list (map (\<lambda>i. (i, audience_inputs st i)) (audience_cards st))"

text \<open>The user's edits of a card's inputs.\<close>

definition edit_platform :: "nat \<Rightarrow> platform_rec \<Rightarrow> form_state \<Rightarrow> form_state" where
  "edit_platform i p st = st\<lparr>platform_inputs := (platform_inputs st)(i := p)\<rparr>"

definition edit_audience :: "nat \<Rightarrow> audience_rec \<Rightarrow> form_state \<Rightarrow> form_state" where
  "edit_audience i a st = st\<lparr>audience_inputs := (audience_inputs st)(i := a)\<rparr>"

subsection \<open>Consistency of the cards\<close>

text \<open>What the page needs: one audience card per platform card, in the same order,
  numbered increasingly by numbers already handed out.\<close>

definition form_ok :: "form_state \<Rightarrow> bool" where
  "form_ok st \<longleftrightarrow> platform_cards st = audience_cards st \<and> sorted_wrt (<) (platform_cards st) \<and>
     (\<forall>i \<in> set (platform_cards st). 1 \<le> i \<and> i \<le> platformCount st)"

text \<open>The shape every reachable form keeps, consistent or not.\<close>

definition form_base :: "form_state \<Rightarrow> bool" where
  "form_base st \<longleftrightarrow> sorted_wrt (<) (platform_cards st) \<and> distinct (audience_cards st) \<and>
     (\<forall>i \<in> set (platform_cards st). 1 \<le> i \<and> i \<le> platformCount st) \<and>
     (\<forall>i \<in> set (audience_cards st). 1 \<le> i \<and> i \<le> platformCount st)"

text \<open>A platform card whose audience card is gone, standing at a position (1-based
  \<open>Suc j\<close>) below its number: \<open>nth-child\<close> can reach it only through the
  button of the card numbered \<open>Suc j\<close>, which is another card.\<close>

definition orphaned :: "form_state \<Rightarrow> bool" where
  "orphaned st \<longleftrightarrow> (\<exists>j \<in> set [0..<length (platform_cards st)].
     platform_cards st ! j \<notin> set (audience_cards st) \<and> Suc j < platform_cards st ! j)"

subsection \<open>Card lifecycle\<close>

text \<open>Positions in a strictly increasing list of card numbers, the list after
  \<open>remove_nth_child\<close>, and the shape \<open>form_base\<close> every handler keeps.\<close>

lemma orphaned_iff: "orphaned st \<longleftrightarrow> (\<exists>j < length (platform_cards st).
     platform_cards st ! j \<notin> set (audience_cards st) \<and> Suc j < platform_cards st ! j)"
  by (auto simp: orphaned_def)

lemma sorted_nth_lower:
  "sorted_wrt (<) xs \<Longrightarrow> \<forall>x \<in> set xs. a \<le> x \<Longrightarrow> j < length xs \<Longrightarrow> a + j \<le> xs ! j"
proof (induction xs arbitrary: a j)
  case (Cons x xs)
  show ?case
  proof (cases j)
    case (Suc j')
    have "\<forall>y \<in> set xs. Suc a \<le> y" using Cons.prems(1,2) by fastforce
    then have "Suc a + j' \<le> xs ! j'" using Cons.IH [of "Suc a" j'] Cons.prems(1,3) Suc by simp
    then show ?thesis using Suc by simp
  qed (use Cons.prems(2) in simp)
qed simp
lemma remove_nth_child_nth:
  assumes "1 \<le> m" and "m \<le> length xs" and "i < length xs - 1"
  shows "remove_nth_child m xs ! i = (if i < m - 1 then xs ! i else xs ! Suc i)"
  using assms by (auto simp: remove_nth_child_def nth_append min_def)

lemma length_remove_nth_child:
  "length (remove_nth_child m xs) = (if 1 \<le> m \<and> m \<le> length xs then length xs - 1 else length xs)"
  by (auto simp: remove_nth_child_def)

lemma set_remove_nth_child: "set (remove_nth_child m xs) \<subseteq> set xs"
  by (auto simp: remove_nth_child_def dest: in_set_takeD in_set_dropD)

lemma sorted_remove_nth_child: "sorted_wrt (<) xs \<Longrightarrow> sorted_wrt (<) (remove_nth_child m xs)"
proof -
  assume s: "sorted_wrt (<) xs"
  then have parts: "sorted_wrt (<) (take (m - 1) xs @ drop (m - 1) xs)" by simp
  have "set (drop m xs) \<subseteq> set (drop (m - 1) xs)" by (rule set_drop_subset_set_drop) simp
  moreover have "\<forall>x \<in> set (take (m - 1) xs). \<forall>y \<in> set (drop (m - 1) xs). x < y"
    using parts unfolding sorted_wrt_append by blast
  ultimately have "sorted_wrt (<) (take (m - 1) xs @ drop m xs)"
    using s by (auto simp: sorted_wrt_append intro: sorted_wrt_take sorted_wrt_drop)
  then show ?thesis using s by (simp add: remove_nth_child_def)
qed


lemma remove1_nth: "distinct xs \<Longrightarrow> i < length xs \<Longrightarrow> remove1 (xs ! i) xs = take i xs @ drop (Suc i) xs"
proof (induction xs arbitrary: i)
  case (Cons x xs)
  show ?case
  proof (cases i)
    case (Suc i')
    with Cons.prems have "xs ! i' \<noteq> x" using nth_mem [of i' xs] by auto
    with Cons Suc show ?thesis by simp
  qed simp
qed simp

lemma orphaned_not_ok: "orphaned st \<Longrightarrow> \<not> form_ok st"
  by (auto simp: orphaned_iff form_ok_def)

lemma form_ok_base: "form_ok st \<Longrightarrow> form_base st"
  unfolding form_ok_def form_base_def by (metis strict_sorted_iff)

lemma form_base_initial: "form_base initial_form"
  by (simp add: form_base_def initial_form_def)

lemma form_ok_initial: "form_ok initial_form"
  by (simp add: form_ok_def initial_form_def)

lemma form_base_add: "form_base st \<Longrightarrow> form_base (addNewPlatform st)"
  by (fastforce simp: form_base_def addNewPlatform_def Let_def sorted_wrt_append)

lemma form_ok_add: "form_ok st \<Longrightarrow> form_ok (addNewPlatform st)"
  by (fastforce simp: form_ok_def addNewPlatform_def Let_def sorted_wrt_append)

lemma form_base_remove: "form_base st \<Longrightarrow> form_base (removePlatform n st)"
  using set_remove_nth_child [of n "platform_cards st"] set_remove1_subset [of n "audience_cards st"]
  by (auto simp: form_base_def removePlatform_def sorted_remove_nth_child)

lemma form_edits [simp]:
  "platform_cards (edit_platform i p st) = platform_cards st" "audience_cards (edit_platform i p st) = audience_cards st"
  "platformCount (edit_platform i p st) = platformCount st"
  "platform_cards (edit_audience i a st) = platform_cards st" "audience_cards (edit_audience i a st) = audience_cards st"
  "platformCount (edit_audience i a st) = platformCount st"
  by (simp_all add: edit_platform_def edit_audience_def)

lemma card_lower: "form_base st \<Longrightarrow> q < length (platform_cards st) \<Longrightarrow> Suc q \<le> platform_cards st ! q"
  using sorted_nth_lower [of "platform_cards st" 1 q] by (simp add: form_base_def)

lemma remove_wrong_child_orphans:
  assumes base: "form_base st" and m: "m \<in> set (platform_cards st)"
    and wrong: "\<not> (m \<le> length (platform_cards st) \<and> platform_cards st ! (m - 1) = m)"
  shows "orphaned (removePlatform m st)"
proof -
  let ?xs = "platform_cards st"
  obtain q where q: "q < length ?xs" "?xs ! q = m" using m by (auto simp: in_set_conv_nth)
  have "Suc q \<le> m" using card_lower [OF base q(1)] q(2) by simp
  moreover have "q \<noteq> m - 1" using wrong q by auto
  ultimately have lt: "Suc q < m" by simp
  have kept: "q < length (remove_nth_child m ?xs) \<and> remove_nth_child m ?xs ! q = m"
  proof (cases "1 \<le> m \<and> m \<le> length ?xs")
    case True
    then show ?thesis using q lt remove_nth_child_nth [of m ?xs q] by (auto simp: length_remove_nth_child)
  next
    case False
    then have "remove_nth_child m ?xs = ?xs" unfolding remove_nth_child_def by (rule if_not_P)
    then show ?thesis using q by simp
  qed
  have "m \<notin> set (remove1 m (audience_cards st))" using base by (simp add: form_base_def)
  then show ?thesis using kept lt by (auto simp: orphaned_iff removePlatform_def)
qed

lemma remove_own_child_keeps_orphan:
  assumes base: "form_base st" and orph: "orphaned st" and m1: "1 \<le> m"
    and own: "m \<le> length (platform_cards st)" "platform_cards st ! (m - 1) = m"
  shows "orphaned (removePlatform m st)"
proof -
  let ?xs = "platform_cards st"
  obtain j where j: "j < length ?xs" "?xs ! j \<notin> set (audience_cards st)" "Suc j < ?xs ! j"
    using orph by (auto simp: orphaned_iff)
  have gone: "?xs ! j \<notin> set (remove1 m (audience_cards st))"
    using j(2) set_remove1_subset by fast
  have "j \<noteq> m - 1" using j(3) own(2) m1 by auto
  then consider "j < m - 1" | "m - 1 < j" by linarith
  then show ?thesis
  proof cases
    case 1
    then have "remove_nth_child m ?xs ! j = ?xs ! j" "j < length (remove_nth_child m ?xs)"
      using remove_nth_child_nth [OF m1 own(1), of j] own(1) m1 by (auto simp: length_remove_nth_child)
    then show ?thesis using j(3) gone unfolding orphaned_iff removePlatform_def by (intro exI [of _ j]) auto
  next
    case 2
    then have idx: "\<not> j - 1 < m - 1" "Suc (j - 1) = j" "j - 1 < length ?xs - 1" using j(1) by auto
    then have "remove_nth_child m ?xs ! (j - 1) = ?xs ! j"
      using remove_nth_child_nth [OF m1 own(1) idx(3)] by simp
    moreover have "j - 1 < length (remove_nth_child m ?xs)"
      using idx(3) m1 own(1) by (simp add: length_remove_nth_child)
    moreover have "Suc (j - 1) < ?xs ! j" using j(3) by simp
    ultimately show ?thesis using gone unfolding orphaned_iff removePlatform_def by (intro exI [of _ "j - 1"]) auto
  qed
qed
lemma orphaned_add:
  assumes "form_base st" and "orphaned st"
  shows "orphaned (addNewPlatform st)"
proof -
  obtain j where j: "j < length (platform_cards st)" "platform_cards st ! j \<notin> set (audience_cards st)"
      "Suc j < platform_cards st ! j"
    using assms(2) by (auto simp: orphaned_iff)
  have "platform_cards st ! j \<le> platformCount st" using assms(1) j(1) by (simp add: form_base_def)
  then show ?thesis using j unfolding orphaned_iff addNewPlatform_def Let_def
    by (intro exI [of _ j]) (simp add: nth_append)
qed

lemma orphaned_remove:
  assumes "form_base st" and "orphaned st" and "m \<in> set (platform_cards st)"
  shows "orphaned (removePlatform m st)"
proof (cases "m \<le> length (platform_cards st) \<and> platform_cards st ! (m - 1) = m")
  case True
  have "1 \<le> m" using assms(1,3) by (simp add: form_base_def)
  then show ?thesis using remove_own_child_keeps_orphan [OF assms(1,2)] True by blast
qed (rule remove_wrong_child_orphans [OF assms(1,3)])

lemma orphaned_edits:
  "orphaned (edit_platform i p st) = orphaned st" "orphaned (edit_audience i a st) = orphaned st"
  by (simp_all add: orphaned_iff)

lemma form_base_edits:
  "form_base (edit_platform i p st) = form_base st" "form_base (edit_audience i a st) = form_base st"
  by (simp_all add: form_base_def)

text \<open>The objects \<open>getAllPlatformData\<close> and \<open>getAllAudienceData\<close> build: one
  property per card, whatever the order of the cards.\<close>

lemma keyed_fold_get:
  "obj_get (fold (\<lambda>(k, v). obj_set k v) (map (\<lambda>i. (i, f i)) xs) ob) k =
     (if k \<in> set xs then Some (f k) else obj_get ob k)"
  by (induction xs arbitrary: ob) auto

lemma keyed_fold_keys:
  "set (obj_keys (fold (\<lambda>(k, v). obj_set k v) (map (\<lambda>i. (i, f i)) xs) ob)) = set xs \<union> set (obj_keys ob)"
  by (induction xs arbitrary: ob) (auto simp: set_obj_keys_set)

lemma getAll_get [simp]:
  "obj_get (getAllPlatformData st) k = (if k \<in> set (platform_cards st) then Some (platform_inputs st k) else None)"
  "obj_get (getAllAudienceData st) k = (if k \<in> set (audience_cards st) then Some (audience_inputs st k) else None)"
  by (simp_all add: getAllPlatformData_def getAllAudienceData_def obj_of_list_def keyed_fold_get)

lemma getAll_keys [simp]:
  "set (obj_keys (getAllPlatformData st)) = set (platform_cards st)"
  "set (obj_keys (getAllAudienceData st)) = set (audience_cards st)"
  by (simp_all add: getAllPlatformData_def getAllAudienceData_def obj_of_list_def keyed_fold_keys)

lemma getAllPlatformData_sorted:
  "sorted_wrt (<) (platform_cards st) \<Longrightarrow>
   getAllPlatformData st = map (\<lambda>i. (i, platform_inputs st i)) (platform_cards st)"
  unfolding getAllPlatformData_def by (rule obj_of_list_sorted) (simp add: comp_def)

lemma getAllAudienceData_sorted:
  "sorted_wrt (<) (audience_cards st) \<Longrightarrow>
   getAllAudienceData st = map (\<lambda>i. (i, audience_inputs st i)) (audience_cards st)"
  unfolding getAllAudienceData_def by (rule obj_of_list_sorted) (simp add: comp_def)

lemma removed_child_gone:
  assumes "distinct xs" and "1 \<le> n" and "n \<le> length xs"
  shows "xs ! (n - 1) \<notin> set (remove_nth_child n xs)"
proof -
  have i: "n - 1 < length xs" using assms(2,3) by linarith
  have "xs = take (n - 1) xs @ xs ! (n - 1) # drop (Suc (n - 1)) xs" by (rule id_take_nth_drop [OF i])
  then have "distinct (take (n - 1) xs @ xs ! (n - 1) # drop n xs)"
    using assms(1,2) by (metis Suc_diff_1 less_le_trans zero_less_one)
  then show ?thesis using assms(2,3) by (auto simp: remove_nth_child_def)
qed

subsection \<open>Removal by position\<close>

text \<open>C18: removing platform \<open>n\<close> from a consistent form leaves it consistent
  exactly when the card numbered \<open>n\<close> is the \<open>n\<close>-th child of
  \<open>#platform-inputs\<close>; otherwise \<open>nth-child(n)\<close> removes another platform's card
  while the audience card of \<open>n\<close> goes.\<close>
theorem removePlatform_consistent_iff:
  assumes ok: "form_ok st" and n: "n \<in> set (platform_cards st)"
  shows "form_ok (removePlatform n st) \<longleftrightarrow>
           n \<le> length (platform_cards st) \<and> platform_cards st ! (n - 1) = n"
proof
  assume "form_ok (removePlatform n st)"
  then show "n \<le> length (platform_cards st) \<and> platform_cards st ! (n - 1) = n"
    using remove_wrong_child_orphans [OF form_ok_base [OF ok] n] orphaned_not_ok by blast
next
  assume own: "n \<le> length (platform_cards st) \<and> platform_cards st ! (n - 1) = n"
  have n1: "1 \<le> n" using ok n by (simp add: form_ok_def)
  have dist: "distinct (platform_cards st)" using ok unfolding form_ok_def by (metis strict_sorted_iff)
  have lt: "n - 1 < length (platform_cards st)" using own n1 by linarith
  have "remove1 n (platform_cards st) = remove_nth_child n (platform_cards st)"
    using remove1_nth [OF dist lt] own n1 by (simp add: remove_nth_child_def)
  then show "form_ok (removePlatform n st)"
    using ok form_base_remove [OF form_ok_base [OF ok], of n] form_ok_base [OF ok]
    by (auto simp: form_ok_def form_base_def removePlatform_def)
qed

theorem removePlatform_consistent_iff_witness:
  "form_ok (removePlatform 2 (addNewPlatform initial_form)) \<and>
   3 \<in> set (platform_cards (removePlatform 2 (addNewPlatform initial_form))) \<and>
   \<not> form_ok (removePlatform 3 (removePlatform 2 (addNewPlatform initial_form)))"
proof -
  have ok: "form_ok (removePlatform 2 (addNewPlatform initial_form))"
    by (simp add: form_ok_def removePlatform_def addNewPlatform_def initial_form_def remove_nth_child_def)
  have mem: "3 \<in> set (platform_cards (removePlatform 2 (addNewPlatform initial_form)))"
    by (simp add: removePlatform_def addNewPlatform_def initial_form_def remove_nth_child_def)
  show ?thesis
    using removePlatform_consistent_iff [OF ok mem] ok mem
    by (simp add: removePlatform_def addNewPlatform_def initial_form_def remove_nth_child_def)
qed

end
