(* ===== verification/Load.thy ===== *)
theory Load
  imports Form Storage
begin

text \<open>
  \<open>UIController.loadAnalysisData\<close> (\<open>src/js/ui-controller.js\<close>, lines 947--1144)
  and the JSON shape of a saved analysis: the form is cleared and rebuilt with one
  platform card per property of \<open>platformData\<close> (in \<open>for ... in\<close> order) and an
  audience card where \<open>audienceData\<close> has a truthy entry. The cards are written as
  HTML template strings, so the inputs read back what the HTML parser makes of the
  interpolated values: an attribute value ends at the first double quote, a
  \<open>textarea\<close> drops one leading line feed and ends at its end tag, a \<open>select\<close> shows
  the option whose value equals the string, the first (empty) option otherwise, and a
  text input drops line breaks. Carriage returns become line feeds as the HTML input
  stream is preprocessed.

  The audience object and the result bundle carry doubles, which the JSON model does not
  print; their conversions (\<open>JSON.stringify\<close> of one audience object or bundle, and the
  audience card's inputs rendered from a loaded object and read back by
  \<open>getInputValueAsNumber\<close>) are the parameters \<open>codec\<close>. Outside the model: property
  names that are not canonical numerals of at most 15 digits (the code then builds
  element ids the form's readers do not parse, or throws on the colour lookup), where
  \<open>loadAnalysisData\<close> is \<open>None\<close>; character references (strings with \<open>&\<close>),
  which the HTML parser would decode; and markup in a platform name, which is also
  interpolated unescaped into the cards' headings, where a \<open><\<close> may open a comment,
  a tag or a raw-text element that swallows or replaces the card's inputs: the form is
  then marked \<open>inputs_unmodelled\<close>.
\<close>

record codec =
  enc_audience :: "audience_rec \<Rightarrow> json"
  dec_audience :: "json \<Rightarrow> audience_rec"
  enc_results :: "analysis_result \<Rightarrow> json"
  dec_results :: "json option \<Rightarrow> analysis_result option"

subsection \<open>The saved JSON\<close>

text \<open>The platform object of \<open>getAllPlatformData\<close> (lines 274--280) as
  \<open>JSON.stringify\<close> writes it, and the objects keyed by platform number.\<close>

definition platform_json :: "platform_rec \<Rightarrow> json" where
  "platform_json p = JObj [(''name'', JStr (name p)), (''content'', JStr (content p)),
     (''tone'', JStr (tone p)), (''format'', JStr (format p)), (''keywords'', JStr (platform_keywords p))]"

definition platforms_json :: "platform_rec jsobj \<Rightarrow> json" where
  "platforms_json pd = JObj (map (\<lambda>kp. (nat_digits (fst kp), platform_json (snd kp))) pd)"

definition audiences_json :: "codec \<Rightarrow> audience_rec jsobj \<Rightarrow> json" where
  "audiences_json c ad = JObj (map (\<lambda>ka. (nat_digits (fst ka), enc_audience c (snd ka))) ad)"

subsection \<open>JavaScript values\<close>

text \<open>A property name that is a canonical numeral of a platform number (at most 15
  digits, so that the double \<open>parseInt\<close> returns is the number itself).\<close>

definition parse_key :: "string \<Rightarrow> nat option" where
  "parse_key s = (if s \<noteq> [] \<and> length s \<le> 15 \<and> list_all is_digit s \<and> hd s \<noteq> CHR ''0''
                  then Some (digits_val s) else None)"

text \<open>\<open>v[k]\<close> on a value that may be \<open>undefined\<close> (\<open>None\<close>): \<open>TypeError\<close> on
  \<open>undefined\<close> and \<open>null\<close>, the own property of an object, the element of an array
  or the character of a string at a numeral, \<open>undefined\<close> otherwise.\<close>

definition js_prop :: "json option \<Rightarrow> string \<Rightarrow> js_error + json option" where
  "js_prop v k =
     (case v of
        None \<Rightarrow> Inl TypeError
      | Some JNull \<Rightarrow> Inl TypeError
      | Some (JObj kvs) \<Rightarrow> Inr (map_of kvs k)
      | Some (JArr xs) \<Rightarrow>
          Inr (case parse_key k of Some i \<Rightarrow> if i < length xs then Some (xs ! i) else None
               | None \<Rightarrow> if k = ''0'' \<and> xs \<noteq> [] then Some (hd xs) else None)
      | Some (JStr s) \<Rightarrow>
          Inr (case parse_key k of Some i \<Rightarrow> if i < length s then Some (JStr [s ! i]) else None
               | None \<Rightarrow> if k = ''0'' \<and> s \<noteq> [] then Some (JStr [hd s]) else None)
      | Some _ \<Rightarrow> Inr None)"

text \<open>The names \<open>for (const k in v)\<close> enumerates: array indices ascending (the
  platform numbers, all of them canonical numerals in the model), nothing on
  \<open>undefined\<close>, \<open>null\<close>, booleans and numbers. \<open>None\<close> when a name is outside the
  model.\<close>

definition js_for_in :: "json option \<Rightarrow> nat list option" where
  "js_for_in v =
     (let names = (case v of
                     Some (JObj kvs) \<Rightarrow> map fst kvs
                   | Some (JArr xs) \<Rightarrow> map nat_digits [0..<length xs]
                   | Some (JStr s) \<Rightarrow> map nat_digits [0..<length s]
                   | _ \<Rightarrow> [])
      in if list_all (\<lambda>k. parse_key k \<noteq> None) names
         then Some (sort (map (\<lambda>k. the (parse_key k)) names)) else None)"

text \<open>JavaScript truthiness and the string a template literal interpolates.\<close>

fun js_truthy :: "json option \<Rightarrow> bool" where
  "js_truthy None = False"
| "js_truthy (Some JNull) = False"
| "js_truthy (Some (JBool b)) = b"
| "js_truthy (Some (JNum (JsInt i))) = (i \<noteq> 0)"
| "js_truthy (Some (JNum JsNaN)) = False"
| "js_truthy (Some (JStr s)) = (s \<noteq> [])"
| "js_truthy (Some (JArr _)) = True"
| "js_truthy (Some (JObj _)) = True"

fun js_str :: "json \<Rightarrow> string" where
  "js_str JNull = ''null''"
| "js_str (JBool b) = (if b then ''true'' else ''false'')"
| "js_str (JNum (JsInt i)) = int_str i"
| "js_str (JNum JsNaN) = ''NaN''"
| "js_str (JStr s) = s"
| "js_str (JArr xs) = join '','' (map (\<lambda>x. if x = JNull then [] else js_str x) xs)"
| "js_str (JObj _) = ''[object Object]''"

definition template_str :: "json option \<Rightarrow> string" where
  "template_str v = (case v of None \<Rightarrow> ''undefined'' | Some x \<Rightarrow> js_str x)"

subsection \<open>Reading the rendered inputs back\<close>

definition CR :: char where "CR = CHR 0x0D"
definition LF :: char where "LF = CHR 0x0A"

text \<open>HTML input stream preprocessing: CR LF and a lone CR become LF.\<close>

fun html_newlines :: "string \<Rightarrow> string" where
  "html_newlines [] = []"
| "html_newlines [c] = [if c = CR then LF else c]"
| "html_newlines (c # d # cs) =
     (if c = CR \<and> d = LF then LF # html_newlines cs
      else (if c = CR then LF else c) # html_newlines (d # cs))"

text \<open>A double-quoted attribute value ends at the first double quote; the value of a
  text input has its line breaks stripped.\<close>

definition input_value :: "string \<Rightarrow> string" where
  "input_value s = filter (\<lambda>c. c \<noteq> LF) (takeWhile (\<lambda>c. c \<noteq> CHR 0x22) (html_newlines s))"

text \<open>An appropriate end tag \<open></textarea\<close> (ASCII case-insensitive) followed by a
  tag-name terminator.\<close>

definition end_tag_at :: "string \<Rightarrow> bool" where
  "end_tag_at s \<longleftrightarrow> js_lower (take 10 s) = ''</textarea'' \<and>
     (case drop 10 s of c # _ \<Rightarrow> c \<in> {CHR 0x09, LF, CHR 0x0C, CHR '' '', CHR ''/'', CHR ''>''} | [] \<Rightarrow> False)"

fun before_end_tag :: "string \<Rightarrow> string" where
  "before_end_tag [] = []"
| "before_end_tag (c # cs) = (if end_tag_at (c # cs) then [] else c # before_end_tag cs)"

text \<open>A \<open>textarea\<close>'s value: a line feed right after the start tag is dropped.\<close>

definition textarea_value :: "string \<Rightarrow> string" where
  "textarea_value s =
     (let t = before_end_tag (html_newlines s) in case t of c # cs \<Rightarrow> if c = LF then cs else t | [] \<Rightarrow> [])"

text \<open>A \<open>select\<close> whose options are marked \<open>selected\<close> by \<open>v === 'option'\<close>.\<close>

definition select_value :: "string list \<Rightarrow> json option \<Rightarrow> string" where
  "select_value opts v = (case v of Some (JStr s) \<Rightarrow> if s \<in> set opts then s else [] | _ \<Rightarrow> [])"

definition tone_options :: "string list" where
  "tone_options = [''formal'', ''casual'', ''professional'', ''conversational'', ''technical'', ''inspirational'']"

definition format_options :: "string list" where
  "format_options = [''article'', ''social-post'', ''email'', ''landing-page'', ''ad'']"

subsection \<open>The rebuilt form\<close>

text \<open>The inputs of a platform card rendered from a loaded platform value that is
  neither \<open>null\<close> nor \<open>undefined\<close> (lines 968--1012), when its name holds no
  markup. The name is first interpolated into the card's \<open><h5>\<close> (line 971, and into
  the audience card's at line 1030); a name with \<open><\<close> is \<open>name_markup\<close>, and the
  inputs of its card are then not determined by the model.\<close>

definition js_get :: "json option \<Rightarrow> string \<Rightarrow> json option" where
  "js_get v k = (case js_prop v k of Inr x \<Rightarrow> x | Inl _ \<Rightarrow> None)"

definition loaded_platform :: "json option \<Rightarrow> platform_rec" where
  "loaded_platform platform =
     \<lparr>name = input_value (template_str (js_get platform ''name'')),
      content = textarea_value (template_str (js_get platform ''content'')),
      tone = select_value tone_options (js_get platform ''tone''),
      format = select_value format_options (js_get platform ''format''),
      platform_keywords = input_value (template_str (js_get platform ''keywords''))\<rparr>"

definition name_markup :: "json option \<Rightarrow> bool" where
  "name_markup platform \<longleftrightarrow> CHR ''<'' \<in> set (template_str (js_get platform ''name''))"

text \<open>The loop over the platform numbers (lines 958--1127): the count, the platform card
  (the template reads \<open>platform.name\<close>, which throws on \<open>null\<close>), its remove button
  for numbers above 2, still without a click listener, then the audience card when
  \<open>audienceData[platformId]\<close> is truthy (reading it throws when \<open>audienceData\<close> is
  \<open>undefined\<close> or \<open>null\<close>). An exception ends the loop with the cards appended so
  far.\<close>

fun load_cards :: "codec \<Rightarrow> json option \<Rightarrow> json option \<Rightarrow> nat list \<Rightarrow> form_state \<Rightarrow>
    (js_error + unit) \<times> form_state" where
  "load_cards c platformData audienceData [] f = (Inr (), f)"
| "load_cards c platformData audienceData (n # ns) f =
     (let f1 = f\<lparr>platformCount := max (platformCount f) n\<rparr>;
          platform = js_get platformData (nat_digits n)
      in if platform = None \<or> platform = Some JNull then (Inl TypeError, f1)
         else
           let f2 = f1\<lparr>platform_cards := platform_cards f1 @ [n],
                       platform_inputs := (platform_inputs f1)(n := loaded_platform platform),
                       removable := (removable f1)(n := False),
                       inputs_unmodelled := inputs_unmodelled f1 \<or> name_markup platform\<rparr>
           in case js_prop audienceData (nat_digits n) of
                Inl e \<Rightarrow> (Inl e, f2)
              | Inr aud \<Rightarrow>
                  if js_truthy aud
                  then load_cards c platformData audienceData ns
                         (f2\<lparr>audience_cards := audience_cards f2 @ [n],
                             audience_inputs := (audience_inputs f2)(n := dec_audience c (the aud))\<rparr>)
                  else load_cards c platformData audienceData ns f2)"

text \<open>\<open>loadAnalysisData\<close>: both properties are read first (throwing on \<open>null\<close>),
  then the cards are cleared and \<open>platformCount\<close> reset before the loop; when the loop
  completes, the remove buttons of the new cards (those numbered above 2) get their
  listeners (lines 1130--1135).\<close>

definition loadAnalysisData :: "codec \<Rightarrow> json \<Rightarrow> form_state \<Rightarrow> ((js_error + unit) \<times> form_state) option" where
  "loadAnalysisData c analysisData f =
     (case js_prop (Some analysisData) ''platformData'' of
        Inl e \<Rightarrow> Some (Inl e, f)
      | Inr platformData \<Rightarrow>
          (case js_prop (Some analysisData) ''audienceData'' of
             Inl e \<Rightarrow> Some (Inl e, f)
           | Inr audienceData \<Rightarrow>
               map_option (\<lambda>ns.
                   case load_cards c platformData audienceData ns
                          (f\<lparr>platformCount := 0, platform_cards := [], audience_cards := [],
                             inputs_unmodelled := False\<rparr>) of
                     (Inl e, f') \<Rightarrow> (Inl e, f')
                   | (Inr u, f') \<Rightarrow>
                       (Inr u, f'\<lparr>removable := (\<lambda>m. if m \<in> set ns then 2 < m else removable f' m)\<rparr>))
                 (js_for_in platformData)))"

subsection \<open>Values the templates carry unchanged\<close>

text \<open>Strings an attribute value and a \<open>textarea\<close> reproduce: no double quote (for
  attributes), no line breaks in a text input, no carriage return, no leading line feed
  and no end tag in a \<open>textarea\<close>, no \<open>&\<close> anywhere; select values among the
  options; and a name without markup for the headings.\<close>

definition attr_plain :: "string \<Rightarrow> bool" where
  "attr_plain s \<longleftrightarrow> CHR 0x22 \<notin> set s \<and> CR \<notin> set s \<and> LF \<notin> set s \<and> CHR ''&'' \<notin> set s"

definition textarea_plain :: "string \<Rightarrow> bool" where
  "textarea_plain s \<longleftrightarrow> CR \<notin> set s \<and> CHR ''&'' \<notin> set s \<and> before_end_tag s = s \<and>
     (case s of c # _ \<Rightarrow> c \<noteq> LF | [] \<Rightarrow> True)"

definition platform_plain :: "platform_rec \<Rightarrow> bool" where
  "platform_plain p \<longleftrightarrow> attr_plain (name p) \<and> CHR ''<'' \<notin> set (name p) \<and> textarea_plain (content p) \<and>
     tone p \<in> set ([] # tone_options) \<and> format p \<in> set ([] # format_options) \<and>
     attr_plain (platform_keywords p)"

text \<open>A codec for concrete runs: audience objects are written empty and read back
  as empty cards, result bundles are written as \<open>null\<close> and never decoded.\<close>

definition example_codec :: codec where
  "example_codec = \<lparr>enc_audience = (\<lambda>_. JObj []), dec_audience = (\<lambda>_. new_audience_inputs),
     enc_results = (\<lambda>_. JNull), dec_results = (\<lambda>_. None)\<rparr>"

subsection \<open>Load lemmas\<close>

lemma length_nat_digits: "n < 10 ^ m \<Longrightarrow> 0 < m \<Longrightarrow> length (nat_digits n) \<le> m"
proof (induction n arbitrary: m rule: nat_digits.induct)
  case (1 n)
  show ?case
  proof (cases "n < 10")
    case True
    then show ?thesis using 1(3) by (simp add: nat_digits.simps)
  next
    case False
    obtain k where m: "m = Suc k" using 1(3) by (cases m) auto
    have "n < 10 ^ k * 10" using 1(2) m by (simp add: mult.commute)
    then have lt: "n div 10 < 10 ^ k" by (simp add: less_mult_imp_div_less)
    have "0 < k" using False 1(2) m by (cases k) auto
    then have "length (nat_digits (n div 10)) \<le> k" using 1(1) False lt by blast
    then show ?thesis using False m by (simp add: nat_digits.simps)
  qed
qed

lemma parse_key_nat_digits:
  assumes "1 \<le> n" and "n < 10 ^ 15"
  shows "parse_key (nat_digits n) = Some n"
proof -
  have "length (nat_digits n) \<le> 15" using length_nat_digits [OF assms(2)] by simp
  moreover have "hd (nat_digits n) \<noteq> CHR ''0''" using nat_digits_facts(4) [of n] assms(1) by auto
  ultimately show ?thesis using nat_digits_facts(1,2,3) [of n]
    by (simp add: parse_key_def list_all_iff)
qed

lemma nat_digits_inj: "nat_digits m = nat_digits n \<longleftrightarrow> m = n"
  by (metis nat_digits_facts(3))

lemma map_of_digits_keyed:
  "map_of (map (\<lambda>x. (nat_digits x, g x)) xs) (nat_digits n) = (if n \<in> set xs then Some (g n) else None)"
  by (induction xs) (auto simp: nat_digits_inj)

lemma html_newlines_id: "CR \<notin> set s \<Longrightarrow> html_newlines s = s"
  by (induction s rule: html_newlines.induct) auto

lemma input_value_plain:
  assumes "attr_plain s"
  shows "input_value s = s"
proof -
  have h: "html_newlines s = s" using assms by (simp add: attr_plain_def html_newlines_id)
  have t: "takeWhile (\<lambda>c. c \<noteq> CHR 0x22) s = s" and f: "filter (\<lambda>c. c \<noteq> LF) s = s"
    using assms by (auto simp: attr_plain_def takeWhile_eq_all_conv filter_id_conv)
  show ?thesis by (simp only: input_value_def h t f)
qed

lemma textarea_value_plain: "textarea_plain s \<Longrightarrow> textarea_value s = s"
  by (auto simp: textarea_plain_def textarea_value_def html_newlines_id split: list.splits)

lemma select_value_plain: "s \<in> set ([] # opts) \<Longrightarrow> select_value opts (Some (JStr s)) = s"
  by (auto simp: select_value_def)

lemma loaded_platform_json:
  "loaded_platform (Some (platform_json p)) =
     \<lparr>name = input_value (name p), content = textarea_value (content p),
      tone = select_value tone_options (Some (JStr (tone p))),
      format = select_value format_options (Some (JStr (format p))),
      platform_keywords = input_value (platform_keywords p)\<rparr>"
  by (simp add: loaded_platform_def platform_json_def js_get_def js_prop_def template_str_def)

lemma name_markup_json: "name_markup (Some (platform_json p)) \<longleftrightarrow> CHR ''<'' \<in> set (name p)"
  by (simp add: name_markup_def platform_json_def js_get_def js_prop_def template_str_def)

lemma loaded_platform_plain: "platform_plain p \<Longrightarrow> loaded_platform (Some (platform_json p)) = p"
  by (simp add: loaded_platform_json platform_plain_def input_value_plain textarea_value_plain
      select_value_plain [of "tone p"] select_value_plain [of "format p"])

lemma json_norm_platforms: "json_norm (platforms_json pd) = platforms_json pd"
  by (simp add: platforms_json_def platform_json_def comp_def)

lemma for_in_platforms:
  assumes "\<forall>k \<in> set (map fst pd). 1 \<le> k \<and> k < 10 ^ 15"
  shows "js_for_in (Some (platforms_json pd)) = Some (sort (map fst pd))"
proof -
  have "\<forall>k \<in> set (map fst pd). parse_key (nat_digits k) = Some k"
    using assms parse_key_nat_digits by blast
  then show ?thesis
    by (simp add: js_for_in_def platforms_json_def list_all_iff comp_def cong: map_cong)
qed

lemma load_cards_ok:
  assumes "distinct ns"
    and "\<forall>n \<in> set ns. js_get P (nat_digits n) = Some (pj n) \<and> pj n \<noteq> JNull \<and>
           js_prop A (nat_digits n) = Inr (aj n)"
  shows "fst (load_cards c P A ns f) = Inr () \<and>
         platform_cards (snd (load_cards c P A ns f)) = platform_cards f @ ns \<and>
         audience_cards (snd (load_cards c P A ns f)) = audience_cards f @ filter (\<lambda>n. js_truthy (aj n)) ns \<and>
         platformCount (snd (load_cards c P A ns f)) = fold max ns (platformCount f) \<and>
         (\<forall>m. platform_inputs (snd (load_cards c P A ns f)) m =
                (if m \<in> set ns then loaded_platform (Some (pj m)) else platform_inputs f m)) \<and>
         (\<forall>m. audience_inputs (snd (load_cards c P A ns f)) m =
                (if m \<in> set ns \<and> js_truthy (aj m) then dec_audience c (the (aj m)) else audience_inputs f m)) \<and>
         (\<forall>m. removable (snd (load_cards c P A ns f)) m = (if m \<in> set ns then False else removable f m)) \<and>
         inputs_unmodelled (snd (load_cards c P A ns f)) =
           (inputs_unmodelled f \<or> list_ex (\<lambda>n. name_markup (Some (pj n))) ns)"
  using assms
proof (induction ns arbitrary: f)
  case Nil
  then show ?case by simp
next
  case (Cons n ns)
  let ?f2 = "f\<lparr>platformCount := max (platformCount f) n, platform_cards := platform_cards f @ [n],
                platform_inputs := (platform_inputs f)(n := loaded_platform (Some (pj n))),
                removable := (removable f)(n := False),
                inputs_unmodelled := inputs_unmodelled f \<or> name_markup (Some (pj n))\<rparr>"
  have hn: "js_get P (nat_digits n) = Some (pj n)" "pj n \<noteq> JNull" "js_prop A (nat_digits n) = Inr (aj n)"
    using Cons.prems(2) by auto
  have dn: "n \<notin> set ns" "distinct ns" using Cons.prems(1) by auto
  have rest: "\<forall>m \<in> set ns. js_get P (nat_digits m) = Some (pj m) \<and> pj m \<noteq> JNull \<and>
                js_prop A (nat_digits m) = Inr (aj m)" using Cons.prems(2) by auto
  show ?case
  proof (cases "js_truthy (aj n)")
    case True
    let ?f3 = "?f2\<lparr>audience_cards := audience_cards f @ [n],
                  audience_inputs := (audience_inputs f)(n := dec_audience c (the (aj n)))\<rparr>"
    have step: "load_cards c P A (n # ns) f = load_cards c P A ns ?f3"
      using hn True by (simp add: Let_def)
    show ?thesis using Cons.IH [OF dn(2) rest, of ?f3] step dn(1) True
      by (auto simp: max.commute)
  next
    case False
    have step: "load_cards c P A (n # ns) f = load_cards c P A ns ?f2"
      using hn False by (simp add: Let_def)
    show ?thesis using Cons.IH [OF dn(2) rest, of ?f2] step dn(1) False
      by (auto simp: max.commute)
  qed
qed

text \<open>Cards the loop appends have remove buttons without listeners.\<close>

lemma load_cards_no_listeners:
  "\<forall>n \<in> set (platform_cards f). \<not> removable f n \<Longrightarrow>
   \<forall>n \<in> set (platform_cards (snd (load_cards c P A ns f))). \<not> removable (snd (load_cards c P A ns f)) n"
proof (induction ns arbitrary: f)
  case (Cons n ns)
  then show ?case by (auto simp: Let_def split: sum.split)
qed simp

subsection \<open>A snapshot without audience data\<close>

text \<open>C31: loading an entry whose \<open>platformData\<close> has platforms but which has no
  \<open>audienceData\<close> throws a \<open>TypeError\<close> after the first platform card is on the page:
  the form is left with that one platform card and no audience card.\<close>

theorem load_without_audienceData_throws:
  assumes "map_of kvs ''platformData'' = Some platformData" and "map_of kvs ''audienceData'' = None"
    and "js_for_in (Some platformData) = Some (n # ns)"
    and "js_get (Some platformData) (nat_digits n) \<notin> {None, Some JNull}"
  shows "\<exists>f'. loadAnalysisData c (JObj kvs) f = Some (Inl TypeError, f') \<and>
           platform_cards f' = [n] \<and> audience_cards f' = [] \<and> platformCount f' = n"
  using assms by (auto simp: loadAnalysisData_def js_prop_def Let_def)

theorem load_without_audienceData_throws_witness:
  "\<exists>f'. loadAnalysisData example_codec (JObj [(''platformData'', JObj [(''2'', JObj []), (''1'', JObj [])])]) initial_form =
          Some (Inl TypeError, f') \<and> platform_cards f' = [1] \<and> audience_cards f' = [] \<and> platformCount f' = 1"
proof -
  have f: "js_for_in (Some (JObj [(''2'', JObj []), (''1'', JObj [])])) = Some [1, 2]" by code_simp
  have g: "js_get (Some (JObj [(''2'', JObj []), (''1'', JObj [])])) (nat_digits 1) = Some (JObj [])" by code_simp
  show ?thesis
    using load_without_audienceData_throws [of "[(''platformData'', JObj [(''2'', JObj []), (''1'', JObj [])])]"
        "JObj [(''2'', JObj []), (''1'', JObj [])]" 1 "[2]" example_codec initial_form] f g by simp
qed

text \<open>C37: a load that throws leaves remove buttons that do nothing: the listeners of
  the loaded cards' remove buttons are attached only after the loop, so when the loop
  throws (as for a snapshot without \<open>audienceData\<close>), no platform card on the
  rebuilt form can be removed, platform 3 included.\<close>

theorem failed_load_dead_remove_buttons:
  assumes "loadAnalysisData c (JObj kvs) f = Some (Inl e, f')"
  shows "\<forall>n \<in> set (platform_cards f'). \<not> removable f' n"
proof -
  let ?P = "map_of kvs ''platformData''" and ?A = "map_of kvs ''audienceData''"
  let ?f0 = "f\<lparr>platformCount := 0, platform_cards := [], audience_cards := [], inputs_unmodelled := False\<rparr>"
  obtain ns where ns: "js_for_in ?P = Some ns"
    using assms by (cases "js_for_in ?P") (auto simp: loadAnalysisData_def js_prop_def)
  obtain r g where ld: "load_cards c ?P ?A ns ?f0 = (r, g)" by (cases "load_cards c ?P ?A ns ?f0")
  have "g = f'" using assms ns ld by (cases r) (auto simp: loadAnalysisData_def js_prop_def)
  then show ?thesis using load_cards_no_listeners [of ?f0 c ?P ?A ns] ld by simp
qed

theorem failed_load_dead_remove_buttons_witness:
  "\<exists>f'. loadAnalysisData example_codec (JObj [(''platformData'', JObj [(''3'', JObj [])])]) initial_form =
          Some (Inl TypeError, f') \<and> platform_cards f' = [3] \<and> \<not> removable f' 3"
proof -
  have f: "js_for_in (Some (JObj [(''3'', JObj [])])) = Some [3]" by code_simp
  have g: "js_get (Some (JObj [(''3'', JObj [])])) (nat_digits 3) = Some (JObj [])" by code_simp
  obtain f' where l: "loadAnalysisData example_codec (JObj [(''platformData'', JObj [(''3'', JObj [])])]) initial_form =
      Some (Inl TypeError, f')" and c: "platform_cards f' = [3]"
    using f g by (simp add: loadAnalysisData_def js_prop_def Let_def initial_form_def)
  show ?thesis using failed_load_dead_remove_buttons [OF l] l c by simp
qed

end
