(* ===== verification/Report.thy ===== *)
theory Report
  imports Form Storage
begin

text \<open>
  The markdown export of \<open>src/js/ui-controller.js\<close> (\<open>exportRecommendations\<close>,
  lines 1146--1211): the text of the file the page offers for download, built from the
  engine's retained result bundle and the form's platform data. The date is the
  \<open>toLocaleDateString\<close> text of the moment of the click, a parameter.
\<close>

definition lf :: string where
  "lf = [CHR 0x0A]"

text \<open>A number in a template literal: \<open>Number::toString\<close>.\<close>

definition jsnum_str :: "jsnum \<Rightarrow> string" where
  "jsnum_str n = (case n of JsInt i \<Rightarrow> int_str i | JsNaN \<Rightarrow> ''NaN'')"

text \<open>\<open>forEach(x => content += `* ${x}\n`)\<close> and the numbered variant
  \<open>`${index + 1}. ${step}\n`\<close>.\<close>

definition md_bullets :: "string list \<Rightarrow> string" where
  "md_bullets xs = concat (map (\<lambda>x. ''* '' @ x @ lf) xs)"

definition md_numbered :: "string list \<Rightarrow> string" where
  "md_numbered xs = concat (map (\<lambda>(i, x). nat_digits (Suc i) @ ''. '' @ x @ lf) (zip [0..<length xs] xs))"

definition frag_label :: "int \<Rightarrow> string" where
  "frag_label s = (if s > 50 then ''High'' else ''Moderate'')"

text \<open>One platform's section; \<open>platformData[platformId].name\<close> is read first and throws
  when the form has no card with that number.\<close>

definition platform_section :: "platform_rec jsobj \<Rightarrow> nat \<times> platform_recommendation \<Rightarrow> js_error + string" where
  "platform_section platformData pr =
     (case obj_get platformData (fst pr) of
        None \<Rightarrow> Inl TypeError
      | Some _ \<Rightarrow> Inr (''### '' @ title (snd pr) @ lf @ lf @ md_bullets (recs (snd pr)) @ lf))"

text \<open>The loop over \<open>platformRecommendations\<close> (keys ascending): the first throw ends it.\<close>

fun platform_sections :: "platform_rec jsobj \<Rightarrow> platform_recommendation jsobj \<Rightarrow> js_error + string" where
  "platform_sections platformData [] = Inr []"
| "platform_sections platformData (pr # prs) =
     (case platform_section platformData pr of
        Inl e \<Rightarrow> Inl e
      | Inr s \<Rightarrow> (case platform_sections platformData prs of Inl e \<Rightarrow> Inl e | Inr t \<Rightarrow> Inr (s @ t)))"

text \<open>The sections the code appends in turn (its comments: the title and date, the
  overall scores, the key findings, the strategy recommendations, the next steps).\<close>

definition title_section :: "string \<Rightarrow> string" where
  "title_section date =
     ''# Attention Economy Navigator: Recommendations'' @ lf @ lf @ ''## Analysis Date: '' @ date @ lf @ lf"

definition scores_section :: "analysis_result \<Rightarrow> string" where
  "scores_section results =
     ''## Overall Scores'' @ lf @ lf @
     ''* Content Coherence: '' @ jsnum_str (coh_overallScore (coherence results)) @ ''/100 ('' @
       rating_string (rating (coh_benchmarkComparison (coherence results))) @ '')'' @ lf @
     ''* Message Consistency: '' @ jsnum_str (cons_overallScore (consistency results)) @ ''/100 ('' @
       rating_string (rating (cons_benchmarkComparison (consistency results))) @ '')'' @ lf @
     ''* Audience Fragmentation: '' @ int_str (fragmentationScore (audience results)) @ ''/100 ('' @
       frag_label (fragmentationScore (audience results)) @ '' fragmentation)'' @ lf @ lf"

definition findings_section :: "analysis_result \<Rightarrow> string" where
  "findings_section results = ''## Key Findings'' @ lf @ lf @ md_bullets (keyFindings results) @ lf"

definition strategy_section :: "analysis_result \<Rightarrow> string" where
  "strategy_section results =
     ''## Overall Strategy Recommendations'' @ lf @ lf @
     md_bullets (strategyRecommendations (recommendations results)) @ lf"

definition next_steps_section :: "analysis_result \<Rightarrow> string" where
  "next_steps_section results = ''## Next Steps'' @ lf @ lf @ md_numbered (nextSteps (recommendations results))"

text \<open>\<open>exportRecommendations\<close>: \<open>Inr None\<close> is the warning that nothing can be
  exported, \<open>Inr (Some text)\<close> the downloaded file, \<open>Inl\<close> the uncaught
  exception.\<close>

definition exportRecommendations :: "string \<Rightarrow> form_state \<Rightarrow> engine_state \<Rightarrow> js_error + string option" where
  "exportRecommendations date f es =
     (case getResults es of
        None \<Rightarrow> Inr None
      | Some results \<Rightarrow>
          (case platform_sections (getAllPlatformData f) (platformRecommendations (recommendations results)) of
             Inl e \<Rightarrow> Inl e
           | Inr sections \<Rightarrow>
               Inr (Some (title_section date @ scores_section results @ findings_section results @
                          strategy_section results @ ''## Platform-Specific Recommendations'' @ lf @ lf @
                          sections @ next_steps_section results))))"

subsection \<open>Export lemmas\<close>

lemma platform_sections_ok:
  "(\<exists>s. platform_sections pd prs = Inr s) \<longleftrightarrow> (\<forall>p \<in> set (obj_keys prs). obj_get pd p \<noteq> None)"
  by (induction prs) (auto simp: platform_section_def split: option.split sum.split)

lemma platform_sections_err:
  "platform_sections pd prs = Inl e \<Longrightarrow> e = TypeError"
  by (induction prs) (auto simp: platform_section_def split: option.splits sum.splits)

lemma analyze_recommendations:
  "keyFindings (fst (run_state (analyze pd ad) s)) = generateKeyFindings pd ad \<and>
   recommendations (fst (run_state (analyze pd ad) s)) = generateRecommendations pd ad"
  by (simp add: analyze_def split: prod.split)

lemma getResults_engine_analyze:
  "getResults (snd (engine_analyze pd ad es)) = Some (fst (engine_analyze pd ad es))"
  by (simp add: engine_analyze_def getResults_def split: prod.split)

lemma engine_analyze_recommendations:
  "recommendations (fst (engine_analyze pd ad es)) = generateRecommendations pd ad"
proof (cases "run_state (analyze pd ad) (random_source es)")
  case (Pair r s')
  then show ?thesis using analyze_recommendations [of pd ad "random_source es"] by (simp add: engine_analyze_def)
qed

lemma obj_keys_generateRecommendations:
  "set (obj_keys (platformRecommendations (generateRecommendations pd ad))) = set (obj_keys pd)"
  by (simp add: generateRecommendations_def obj_of_list_keys case_prod_beta) (simp add: obj_keys_def)

lemma export_typeerror:
  assumes "getResults es = Some r" and "p \<in> set (obj_keys (platformRecommendations (recommendations r)))"
    and "p \<notin> set (platform_cards f)"
  shows "exportRecommendations date f es = Inl TypeError"
proof -
  let ?prs = "platformRecommendations (recommendations r)" and ?pd = "getAllPlatformData f"
  have "\<nexists>s. platform_sections ?pd ?prs = Inr s" using platform_sections_ok [of ?pd ?prs] assms(2,3) by auto
  then obtain e where "platform_sections ?pd ?prs = Inl e" by (cases "platform_sections ?pd ?prs") auto
  then show ?thesis using platform_sections_err [of ?pd ?prs e] assms(1) by (simp add: exportRecommendations_def Let_def)
qed

lemma export_content:
  assumes "getResults es = Some r"
    and "\<forall>p \<in> set (obj_keys (platformRecommendations (recommendations r))). p \<in> set (platform_cards f)"
  shows "\<exists>pre post. exportRecommendations date f es = Inr (Some (pre @ findings_section r @ post))"
proof -
  let ?prs = "platformRecommendations (recommendations r)" and ?pd = "getAllPlatformData f"
  obtain s where "platform_sections ?pd ?prs = Inr s" using platform_sections_ok [of ?pd ?prs] assms(2) by auto
  then show ?thesis using assms(1) unfolding exportRecommendations_def
    by (intro exI [of _ "title_section date @ scores_section r"]
          exI [of _ "strategy_section r @ ''## Platform-Specific Recommendations'' @ lf @ lf @ s @ next_steps_section r"])
       (simp add: findings_section_def)
qed

subsection \<open>When the export throws\<close>

text \<open>C27: with a retained result, the export throws a \<open>TypeError\<close> exactly when some
  platform of the result's recommendations has no card in the form; otherwise it offers
  a file.\<close>

theorem exportRecommendations_fails_iff:
  assumes "getResults es = Some r"
  shows "(exportRecommendations date f es = Inl TypeError \<longleftrightarrow>
            (\<exists>p \<in> set (obj_keys (platformRecommendations (recommendations r))). p \<notin> set (platform_cards f))) \<and>
         ((\<forall>p \<in> set (obj_keys (platformRecommendations (recommendations r))). p \<in> set (platform_cards f)) \<longrightarrow>
            (\<exists>content. exportRecommendations date f es = Inr (Some content)))"
proof -
  let ?prs = "platformRecommendations (recommendations r)" and ?pd = "getAllPlatformData f"
  have ok: "(\<exists>s. platform_sections ?pd ?prs = Inr s) \<longleftrightarrow> (\<forall>p \<in> set (obj_keys ?prs). p \<in> set (platform_cards f))"
    using platform_sections_ok [of ?pd ?prs] by simp
  show ?thesis
  proof (cases "platform_sections ?pd ?prs")
    case (Inl e)
    then show ?thesis using ok platform_sections_err [OF Inl] assms
      by (auto simp: exportRecommendations_def)
  next
    case (Inr s)
    then show ?thesis using ok assms by (auto simp: exportRecommendations_def)
  qed
qed

theorem exportRecommendations_fails_iff_witness:
  "getResults (snd (engine_analyze example_platformData example_audienceData \<lparr>analysisResults = None, random_source = example_rng\<rparr>)) =
     Some (fst (engine_analyze example_platformData example_audienceData \<lparr>analysisResults = None, random_source = example_rng\<rparr>)) \<and>
   exportRecommendations ''1/1/2025'' (removePlatform 2 initial_form)
     (snd (engine_analyze example_platformData example_audienceData \<lparr>analysisResults = None, random_source = example_rng\<rparr>)) = Inl TypeError"
proof -
  let ?es = "snd (engine_analyze example_platformData example_audienceData \<lparr>analysisResults = None, random_source = example_rng\<rparr>)"
  let ?r = "fst (engine_analyze example_platformData example_audienceData \<lparr>analysisResults = None, random_source = example_rng\<rparr>)"
  have g: "getResults ?es = Some ?r" by (rule getResults_engine_analyze)
  have "2 \<in> set (obj_keys (platformRecommendations (recommendations ?r)))"
    using obj_keys_generateRecommendations [of example_platformData example_audienceData]
    by (simp add: engine_analyze_recommendations example_platformData_def)
  moreover have "2 \<notin> set (platform_cards (removePlatform 2 initial_form))"
    by (simp add: removePlatform_def initial_form_def remove_nth_child_def)
  ultimately show ?thesis using exportRecommendations_fails_iff [OF g, of "''1/1/2025''" "removePlatform 2 initial_form"] g
    by blast
qed

end
