(* ===== verification/Display.thy ===== *)
theory Display
  imports Report
begin

text \<open>
  The result display of \<open>src/js/ui-controller.js\<close> (lines 339--913):
  \<open>displayAnalysisResults\<close> with the three chart routines, the key findings and the
  three HTML summaries, \<open>displayRecommendations\<close>, and the loading overlay
  (\<open>showLoading\<close>, \<open>hideLoading\<close>). The charts are modelled by the data the code
  hands to the \<open>Chart\<close> constructor (labels, values, colours) and by the tooltip
  callbacks it registers; drawing them is the library's. What the page shows is a
  record \<open>page_view\<close>, one field per element the code writes. A routine that throws
  leaves the fields it wrote before the throw, as the DOM keeps them; the summaries draw
  from \<open>Math.random\<close>, so \<open>displayAnalysisResults\<close> runs in the random-source monad.
\<close>

subsection \<open>Platform colours\<close>

record platform_color =
  color_bg :: string
  color_text :: string

text \<open>\<open>platformColors\<close> (lines 14--21).\<close>

definition platformColors :: "platform_color list" where
  "platformColors =
     [\<lparr>color_bg = ''bg-primary'', color_text = ''text-white''\<rparr>,
      \<lparr>color_bg = ''bg-info'', color_text = ''text-white''\<rparr>,
      \<lparr>color_bg = ''bg-success'', color_text = ''text-white''\<rparr>,
      \<lparr>color_bg = ''bg-warning'', color_text = ''text-dark''\<rparr>,
      \<lparr>color_bg = ''bg-danger'', color_text = ''text-white''\<rparr>,
      \<lparr>color_bg = ''bg-secondary'', color_text = ''text-white''\<rparr>]"

text \<open>\<open>a % b\<close> on integers: the remainder takes the sign of the dividend.\<close>

definition js_rem :: "int \<Rightarrow> int \<Rightarrow> int" where
  "js_rem a b = sgn a * (\<bar>a\<bar> mod \<bar>b\<bar>)"

text \<open>\<open>platformColors[(parseInt(platformId) - 1) % platformColors.length]\<close>, the
  lookup every display routine makes for a platform key; \<open>undefined\<close> (\<open>None\<close>) for
  key 0.\<close>

definition platform_color_of :: "nat \<Rightarrow> platform_color option" where
  "platform_color_of platformId =
     js_index platformColors (js_rem (int platformId - 1) (int (length platformColors)))"

text \<open>\<open>String.prototype.replace\<close> with a string pattern: the first occurrence only.\<close>

fun js_replace :: "string \<Rightarrow> string \<Rightarrow> string \<Rightarrow> string" where
  "js_replace pat rep [] = (if pat = [] then rep else [])"
| "js_replace pat rep (c # s) =
     (if take (length pat) (c # s) = pat then rep @ drop (length pat) (c # s)
      else c # js_replace pat rep s)"

text \<open>\<open>Array.prototype.join\<close> of strings.\<close>

fun js_join :: "string \<Rightarrow> string list \<Rightarrow> string" where
  "js_join sep [] = []"
| "js_join sep [x] = x"
| "js_join sep (x # y # zs) = x @ sep @ js_join sep (y # zs)"

text \<open>The chain of tests mapping a Bootstrap colour name to the chart colour (lines
  441--447 and 670--676).\<close>

definition color_rgba :: "string \<Rightarrow> string" where
  "color_rgba color =
     (if color = ''primary'' then ''rgba(0, 123, 255, 0.7)''
      else if color = ''info'' then ''rgba(23, 162, 184, 0.7)''
      else if color = ''success'' then ''rgba(40, 167, 69, 0.7)''
      else if color = ''warning'' then ''rgba(255, 193, 7, 0.7)''
      else if color = ''danger'' then ''rgba(220, 53, 69, 0.7)''
      else if color = ''secondary'' then ''rgba(108, 117, 125, 0.7)''
      else ''rgba(0, 123, 255, 0.7)'')"

definition chart_rgba :: "platform_color \<Rightarrow> string" where
  "chart_rgba c = color_rgba (js_replace ''bg-'' [] (color_bg c))"

subsection \<open>Charts\<close>

text \<open>A chart variable: never created, destroyed (\<open>chart.destroy()\<close> ran and no new
  chart replaced it), or drawn from the given data.\<close>

datatype 'c chart_slot = NoChart | DestroyedChart | Drawn 'c

definition destroy_chart :: "'c chart_slot \<Rightarrow> 'c chart_slot" where
  "destroy_chart slot = (case slot of NoChart \<Rightarrow> NoChart | _ \<Rightarrow> DestroyedChart)"

record bar_chart =
  bar_labels :: "string list"
  bar_scores :: "jsnum list"
  bar_colors :: "string list"
  bar_borders :: "string list"

text \<open>The loop of \<open>displayCoherenceChart\<close> over \<open>platformScores\<close> (lines 431--450):
  \<open>platformData[platformId].name\<close> throws when the form has no such card, the colour
  lookup when the key is 0.\<close>

fun coherence_bars :: "platform_rec jsobj \<Rightarrow> platform_coherence jsobj \<Rightarrow> js_error + (string \<times> int \<times> string) list" where
  "coherence_bars platformData [] = Inr []"
| "coherence_bars platformData ((platformId, ps) # rest) =
     (case obj_get platformData platformId of
        None \<Rightarrow> Inl TypeError
      | Some p \<Rightarrow>
          (case platform_color_of platformId of
             None \<Rightarrow> Inl TypeError
           | Some c \<Rightarrow>
               (case coherence_bars platformData rest of
                  Inl e \<Rightarrow> Inl e
                | Inr bars \<Rightarrow> Inr ((name p, coh_score ps, chart_rgba c) # bars))))"

text \<open>\<open>displayCoherenceChart\<close> (lines 419--530): the previous chart is destroyed first;
  the bars are followed by the overall score in grey.\<close>

definition displayCoherenceChart ::
  "platform_rec jsobj \<Rightarrow> coherence_result \<Rightarrow> bar_chart chart_slot \<Rightarrow> (js_error + unit) \<times> bar_chart chart_slot" where
  "displayCoherenceChart platformData coherenceData slot =
     (case coherence_bars platformData (coh_platformScores coherenceData) of
        Inl e \<Rightarrow> (Inl e, destroy_chart slot)
      | Inr bars \<Rightarrow>
          (let colors = map (snd \<circ> snd) bars @ [''rgba(108, 117, 125, 0.7)''] in
           (Inr (), Drawn \<lparr>bar_labels = map fst bars @ [''Overall''],
                          bar_scores = map (JsInt \<circ> fst \<circ> snd) bars @ [coh_overallScore coherenceData],
                          bar_colors = colors, bar_borders = map (js_replace ''0.7'' ''1'') colors\<rparr>)))"

text \<open>The platform a tooltip belongs to: the first key of \<open>platformData\<close> whose name
  equals the bar's label (the \<open>for ... in\<close> loop with \<open>break\<close>, lines 507--513 and
  608--614).\<close>

fun find_platform_by_name :: "platform_rec jsobj \<Rightarrow> string \<Rightarrow> nat option" where
  "find_platform_by_name [] label = None"
| "find_platform_by_name ((platformId, p) # rest) label =
     (if name p = label then Some platformId else find_platform_by_name rest label)"

text \<open>The coherence chart's \<open>afterLabel\<close> callback (lines 499--525): a string
  (\<open>Inl\<close>) or an array of lines (\<open>Inr\<close>).\<close>

definition coherence_tooltip :: "platform_rec jsobj \<Rightarrow> coherence_result \<Rightarrow> string \<Rightarrow> string + string list" where
  "coherence_tooltip platformData coherenceData label =
     (if label = ''Overall'' then Inl (''Rating: '' @ rating_string (rating (coh_benchmarkComparison coherenceData)))
      else case find_platform_by_name platformData label of
        None \<Rightarrow> Inl []
      | Some platformId \<Rightarrow>
          (case obj_get (coh_platformScores coherenceData) platformId of
             None \<Rightarrow> Inl []
           | Some ps \<Rightarrow> Inr [''Strengths: '' @ js_join '', '' (strengths ps),
                            ''Areas for improvement: '' @ js_join '', '' (weaknesses ps)]))"

record aud_chart =
  aud_labels :: "string list"
  aud_sizes :: "real list"
  aud_rates :: "real list"
  aud_rate_max :: "real option"

text \<open>The loop of \<open>displayAudienceChart\<close> over \<open>platformReach\<close> (lines 549--553).\<close>

fun audience_bars :: "platform_rec jsobj \<Rightarrow> reach jsobj \<Rightarrow> js_error + (string \<times> real \<times> real) list" where
  "audience_bars platformData [] = Inr []"
| "audience_bars platformData ((platformId, r) # rest) =
     (case obj_get platformData platformId of
        None \<Rightarrow> Inl TypeError
      | Some p \<Rightarrow>
          (case audience_bars platformData rest of
             Inl e \<Rightarrow> Inl e
           | Inr bars \<Rightarrow> Inr ((name p, reach_size r / 1000, engagement r) # bars)))"

text \<open>\<open>displayAudienceChart\<close> (lines 535--629); the right axis ends at
  \<open>Math.max(...engagementRate) * 1.5\<close>, which is \<open>-Infinity\<close> (\<open>None\<close>) for no
  platform.\<close>

definition displayAudienceChart ::
  "platform_rec jsobj \<Rightarrow> audience_result \<Rightarrow> aud_chart chart_slot \<Rightarrow> (js_error + unit) \<times> aud_chart chart_slot" where
  "displayAudienceChart platformData audienceData slot =
     (case audience_bars platformData (platformReach audienceData) of
        Inl e \<Rightarrow> (Inl e, destroy_chart slot)
      | Inr bars \<Rightarrow>
          (let rates = map (snd \<circ> snd) bars in
           (Inr (), Drawn \<lparr>aud_labels = map fst bars, aud_sizes = map (fst \<circ> snd) bars, aud_rates = rates,
                          aud_rate_max = (if rates = [] then None else Some (Max (set rates) * 3 / 2))\<rparr>)))"

text \<open>The audience chart's \<open>afterLabel\<close> callback (lines 604--625).\<close>

definition audience_tooltip :: "platform_rec jsobj \<Rightarrow> audience_result \<Rightarrow> string \<Rightarrow> string + string list" where
  "audience_tooltip platformData audienceData label =
     (case find_platform_by_name platformData label of
        None \<Rightarrow> Inl []
      | Some platformId \<Rightarrow>
          (case obj_get (platformReach audienceData) platformId of
             None \<Rightarrow> Inl []
           | Some r \<Rightarrow> Inr [''Primary Age Group: '' @
                            (case primaryAgeGroup r of None \<Rightarrow> ''undefined'' | Some g \<Rightarrow> g)]))"

record radar_dataset =
  rd_label :: string
  rd_data :: "int list"
  rd_color :: string
  rd_border :: string

text \<open>The loop of \<open>displayConsistencyChart\<close> (lines 648--689): here the colour is
  looked up before the name.\<close>

fun consistency_datasets :: "platform_rec jsobj \<Rightarrow> platform_consistency jsobj \<Rightarrow> js_error + radar_dataset list" where
  "consistency_datasets platformData [] = Inr []"
| "consistency_datasets platformData ((platformId, ps) # rest) =
     (case platform_color_of platformId of
        None \<Rightarrow> Inl TypeError
      | Some c \<Rightarrow>
          (case obj_get platformData platformId of
             None \<Rightarrow> Inl TypeError
           | Some p \<Rightarrow>
               (case consistency_datasets platformData rest of
                  Inl e \<Rightarrow> Inl e
                | Inr ds \<Rightarrow> Inr (\<lparr>rd_label = name p,
                                  rd_data = [cons_score ps, keyMessagePresence ps, toneConsistency ps, valueAlignment ps],
                                  rd_color = chart_rgba c, rd_border = js_replace ''0.7'' ''1'' (chart_rgba c)\<rparr> # ds))))"

text \<open>\<open>displayConsistencyChart\<close> (lines 635--712).\<close>

definition displayConsistencyChart ::
  "platform_rec jsobj \<Rightarrow> consistency_result \<Rightarrow> radar_dataset list chart_slot \<Rightarrow> (js_error + unit) \<times> radar_dataset list chart_slot" where
  "displayConsistencyChart platformData consistencyData slot =
     (case consistency_datasets platformData (cons_platformScores consistencyData) of
        Inl e \<Rightarrow> (Inl e, destroy_chart slot)
      | Inr ds \<Rightarrow> (Inr (), Drawn ds))"

subsection \<open>Summaries\<close>

text \<open>\<open>getRatingClass\<close> (lines 792--801) on the rating string.\<close>

definition getRatingClass :: "string \<Rightarrow> string" where
  "getRatingClass r =
     (if r = ''excellent'' then ''success'' else if r = ''good'' then ''info''
      else if r = ''average'' then ''warning'' else if r = ''below average'' then ''warning''
      else if r = ''poor'' then ''danger'' else ''secondary'')"

text \<open>\<open>getFragmentationClass\<close> (lines 808--813).\<close>

definition getFragmentationClass :: "int \<Rightarrow> string" where
  "getFragmentationClass score =
     (if score < 40 then ''success'' else if score < 60 then ''info'' else if score < 80 then ''warning''
      else ''danger'')"

text \<open>The catalogs of the UI controller's own \<open>generateRandomStrengths\<close> and
  \<open>generateRandomWeaknesses\<close> (lines 820--846), each \<open>sort(() => 0.5 -
  Math.random()).slice(0, count)\<close>.\<close>

definition ui_strengths :: "string list" where
  "ui_strengths = [''Consistent brand voice across major platforms'',
     ''Key messaging alignment between website and social media'',
     ''Visual identity elements maintained across channels'',
     ''Value proposition clearly communicated on all platforms'',
     ''Product/service descriptions maintain consistency'', ''Target audience addressed consistently'',
     ''Call-to-action uniformity'']"

definition ui_weaknesses :: "string list" where
  "ui_weaknesses = [''Tone variations between formal and casual channels'',
     ''Inconsistent terminology for key features'', ''Value proposition emphasis differs across platforms'',
     ''Messaging priority inconsistencies'', ''Visual brand elements not consistently applied'',
     ''Varying levels of technical detail'', ''Inconsistent call-to-action strategies'']"

definition ui_generateRandomStrengths :: "int \<Rightarrow> string list rand" where
  "ui_generateRandomStrengths cnt = do {
     shuffled \<leftarrow> js_sort_random ui_strengths;
     State_Monad.return (js_slice0 shuffled cnt)
   }"

definition ui_generateRandomWeaknesses :: "int \<Rightarrow> string list rand" where
  "ui_generateRandomWeaknesses cnt = do {
     shuffled \<leftarrow> js_sort_random ui_weaknesses;
     State_Monad.return (js_slice0 shuffled cnt)
   }"

text \<open>Template-literal layout: a line break and the indentation of the source line.\<close>

definition html_line :: "nat \<Rightarrow> string \<Rightarrow> string" where
  "html_line n s = lf @ replicate n (CHR 0x20) @ s"

definition html_items :: "string list \<Rightarrow> string" where
  "html_items xs = concat (map (\<lambda>x. ''<li>'' @ x @ ''</li>'') xs)"

text \<open>\<open>benchmark.score > benchmark.industryAverage\<close>: false for \<open>NaN\<close>.\<close>

definition js_gt :: "jsnum \<Rightarrow> int \<Rightarrow> bool" where
  "js_gt x b = (case x of JsInt a \<Rightarrow> b < a | JsNaN \<Rightarrow> False)"

text \<open>\<open>generateCoherenceSummary\<close> (lines 729--744); the strengths are drawn when the
  template reaches them, after every other substitution.\<close>

definition generateCoherenceSummary :: "coherence_result \<Rightarrow> string rand" where
  "generateCoherenceSummary coherenceData = do {
     picked \<leftarrow> ui_generateRandomStrengths 3;
     State_Monad.return
       (let benchmark = coh_benchmarkComparison coherenceData in
        html_line 12 (''<div class=\"alert alert-'' @ getRatingClass (rating_string (rating benchmark)) @ '' mb-3\">'') @
        html_line 16 (''<strong>Overall Content Coherence: '' @ jsnum_str (coh_overallScore coherenceData) @ ''/100</strong> '') @
        html_line 16 (''('' @ rating_string (rating benchmark) @ '', '' @ jsnum_str (percentile benchmark) @ ''th percentile)'') @
        html_line 12 ''</div>'' @
        html_line 12 (''<p>Your content coherence is '' @
          (if js_gt (bc_score benchmark) (industryAverage benchmark) then ''above'' else ''below'') @ '' '') @
        html_line 12 (''the industry average of '' @ int_str (industryAverage benchmark) @ ''.</p>'') @
        html_line 12 ''<p>Key areas of strong coherence include:</p>'' @
        html_line 12 ''<ul>'' @ html_line 16 (html_items picked) @ html_line 12 ''</ul>'' @ html_line 8 [])
   }"

text \<open>\<open>generateAudienceSummary\<close> (lines 751--764).\<close>

definition generateAudienceSummary :: "audience_result \<Rightarrow> string" where
  "generateAudienceSummary audienceData =
     (let score = fragmentationScore audienceData in
      html_line 12 (''<div class=\"alert alert-'' @ getFragmentationClass score @ '' mb-3\">'') @
      html_line 16 (''<strong>Audience Fragmentation Score: '' @ int_str score @ ''/100</strong>'') @
      html_line 16 (''('' @ (if score > 50 then ''High'' else ''Moderate'') @ '' fragmentation)'') @
      html_line 12 ''</div>'' @
      html_line 12 (''<p>Your audience shows '' @
        (if score > 70 then ''significant'' else if score > 50 then ''moderate'' else ''minimal'') @
        '' fragmentation across platforms.</p>'') @
      html_line 12 ''<p>Key audience insights:</p>'' @
      html_line 12 ''<ul>'' @ html_line 16 (html_items (js_slice0 (audienceGaps audienceData) 2)) @
      html_line 12 ''</ul>'' @ html_line 8 [])"

text \<open>\<open>generateConsistencySummary\<close> (lines 771--786).\<close>

definition generateConsistencySummary :: "consistency_result \<Rightarrow> string rand" where
  "generateConsistencySummary consistencyData = do {
     picked \<leftarrow> ui_generateRandomWeaknesses 2;
     State_Monad.return
       (let benchmark = cons_benchmarkComparison consistencyData in
        html_line 12 (''<div class=\"alert alert-'' @ getRatingClass (rating_string (rating benchmark)) @ '' mb-3\">'') @
        html_line 16 (''<strong>Message Consistency Score: '' @ jsnum_str (cons_overallScore consistencyData) @ ''/100</strong>'') @
        html_line 16 (''('' @ rating_string (rating benchmark) @ '', '' @ jsnum_str (percentile benchmark) @ ''th percentile)'') @
        html_line 12 ''</div>'' @
        html_line 12 (''<p>Your message consistency is '' @
          (if js_gt (bc_score benchmark) (industryAverage benchmark) then ''above'' else ''below'') @ '' '') @
        html_line 12 (''the industry average of '' @ int_str (industryAverage benchmark) @ ''.</p>'') @
        html_line 12 ''<p>Focus on improving consistency in:</p>'' @
        html_line 12 ''<ul>'' @ html_line 16 (html_items picked) @ html_line 12 ''</ul>'' @ html_line 8 [])
   }"

subsection \<open>The page\<close>

text \<open>The elements the display routines write: the three chart variables, the lists
  (\<open>key-findings-list\<close>, \<open>strategy-recommendations\<close>, the cards of
  \<open>platform-recommendations\<close>, \<open>next-steps-list\<close>) and the summaries'
  \<open>innerHTML\<close>.\<close>

record page_view =
  coherence_chart :: "bar_chart chart_slot"
  audience_chart :: "aud_chart chart_slot"
  consistency_chart :: "radar_dataset list chart_slot"
  key_findings_list :: "string list"
  coherence_summary :: string
  audience_summary :: string
  consistency_summary :: string
  strategy_list :: "string list"
  platform_rec_cards :: "string list"
  next_steps_list :: "string list"

definition initial_view :: page_view where
  "initial_view = \<lparr>coherence_chart = NoChart, audience_chart = NoChart, consistency_chart = NoChart,
     key_findings_list = [], coherence_summary = [], audience_summary = [], consistency_summary = [],
     strategy_list = [], platform_rec_cards = [], next_steps_list = []\<rparr>"

text \<open>\<open>displayAnalysisResults\<close> (lines 343--360) with \<open>displayKeyFindings\<close> (lines
  718--728): the charts, the findings, then the summaries in order. \<open>results.coherence\<close>
  throws on a missing bundle (\<open>None\<close>); a throw in a chart ends the call with the
  earlier elements written.\<close>

definition displayAnalysisResults ::
  "platform_rec jsobj \<Rightarrow> analysis_result option \<Rightarrow> page_view \<Rightarrow> ((js_error + unit) \<times> page_view) rand" where
  "displayAnalysisResults platformData results v =
     (case results of
        None \<Rightarrow> State_Monad.return (Inl TypeError, v)
      | Some r \<Rightarrow>
          (case displayCoherenceChart platformData (coherence r) (coherence_chart v) of
             (Inl e, c1) \<Rightarrow> State_Monad.return (Inl e, v\<lparr>coherence_chart := c1\<rparr>)
           | (Inr _, c1) \<Rightarrow>
               (case displayAudienceChart platformData (audience r) (audience_chart v) of
                  (Inl e, c2) \<Rightarrow> State_Monad.return (Inl e, v\<lparr>coherence_chart := c1, audience_chart := c2\<rparr>)
                | (Inr _, c2) \<Rightarrow>
                    (case displayConsistencyChart platformData (consistency r) (consistency_chart v) of
                       (Inl e, c3) \<Rightarrow>
                         State_Monad.return (Inl e, v\<lparr>coherence_chart := c1, audience_chart := c2, consistency_chart := c3\<rparr>)
                     | (Inr _, c3) \<Rightarrow> do {
                         coh \<leftarrow> generateCoherenceSummary (coherence r);
                         cons \<leftarrow> generateConsistencySummary (consistency r);
                         State_Monad.return (Inr (),
                           v\<lparr>coherence_chart := c1, audience_chart := c2, consistency_chart := c3,
                             key_findings_list := keyFindings r, coherence_summary := coh,
                             audience_summary := generateAudienceSummary (audience r), consistency_summary := cons\<rparr>)
                       }))))"

text \<open>One card of \<open>platform-recommendations\<close> (lines 393--404).\<close>

definition rec_card_html :: "platform_color \<Rightarrow> platform_recommendation \<Rightarrow> string" where
  "rec_card_html color platformRec =
     html_line 16 (''<div class=\"card-header '' @ color_bg color @ '' '' @ color_text color @ ''\">'') @
     html_line 20 (''<h5 class=\"mb-0\">'' @ title platformRec @ ''</h5>'') @
     html_line 16 ''</div>'' @
     html_line 16 ''<div class=\"card-body\">'' @
     html_line 20 ''<ul class=\"list-group list-group-flush\">'' @
     html_line 24 (concat (map (\<lambda>rec. ''<li class=\"list-group-item\">'' @ rec @ ''</li>'') (recs platformRec))) @
     html_line 20 ''</ul>'' @
     html_line 16 ''</div>'' @ html_line 12 []"

text \<open>The loop over \<open>platformRecommendations\<close> (lines 386--406): each card is appended
  as it is built; a throw keeps the cards appended before it.\<close>

fun rec_cards :: "platform_rec jsobj \<Rightarrow> platform_recommendation jsobj \<Rightarrow> string list \<Rightarrow> (js_error + unit) \<times> string list" where
  "rec_cards platformData [] acc = (Inr (), acc)"
| "rec_cards platformData ((platformId, platformRec) # rest) acc =
     (case obj_get platformData platformId of
        None \<Rightarrow> (Inl TypeError, acc)
      | Some _ \<Rightarrow>
          (case platform_color_of platformId of
             None \<Rightarrow> (Inl TypeError, acc)
           | Some color \<Rightarrow> rec_cards platformData rest (acc @ [rec_card_html color platformRec])))"

text \<open>\<open>displayRecommendations\<close> (lines 366--417).\<close>

definition displayRecommendations :: "platform_rec jsobj \<Rightarrow> analysis_result \<Rightarrow> page_view \<Rightarrow> (js_error + unit) \<times> page_view" where
  "displayRecommendations platformData results v =
     (let recommendations = recommendations results;
          v1 = v\<lparr>strategy_list := strategyRecommendations recommendations\<rparr> in
      case rec_cards platformData (platformRecommendations recommendations) [] of
        (Inl e, cards) \<Rightarrow> (Inl e, v1\<lparr>platform_rec_cards := cards\<rparr>)
      | (Inr _, cards) \<Rightarrow> (Inr (), v1\<lparr>platform_rec_cards := cards, next_steps_list := nextSteps recommendations\<rparr>))"

subsection \<open>Preconditions of the display\<close>

text \<open>Every key has a card on the page and a colour: the display loops do not throw.\<close>

definition keys_on_page :: "platform_rec jsobj \<Rightarrow> nat list \<Rightarrow> bool" where
  "keys_on_page platformData ks \<longleftrightarrow> list_all (\<lambda>k. 0 < k \<and> obj_get platformData k \<noteq> None) ks"

text \<open>The three chart loops of \<open>displayAnalysisResults\<close> succeed (the audience
  loop looks no colour up).\<close>

definition display_ready :: "platform_rec jsobj \<Rightarrow> analysis_result \<Rightarrow> bool" where
  "display_ready pd r \<longleftrightarrow> keys_on_page pd (obj_keys (coh_platformScores (coherence r))) \<and>
     list_all (\<lambda>k. obj_get pd k \<noteq> None) (obj_keys (platformReach (audience r))) \<and>
     keys_on_page pd (obj_keys (cons_platformScores (consistency r)))"

subsection \<open>The loading overlay\<close>

text \<open>The overlay and the module variable \<open>loadingTimeout\<close>: whether the overlay is
  shown, its message, and whether a hide timer is pending.\<close>

record loading_state =
  overlay_shown :: bool
  loading_message :: string
  hide_pending :: bool

definition initial_loading :: loading_state where
  "initial_loading = \<lparr>overlay_shown = False, loading_message = ''Loading...'', hide_pending = False\<rparr>"

text \<open>\<open>showLoading\<close> (lines 852--880): a pending timer is cleared and a new one set.\<close>

definition showLoading :: "string \<Rightarrow> loading_state \<Rightarrow> loading_state" where
  "showLoading message ls =
     ls\<lparr>loading_message := (if message = [] then ''Loading...'' else message), overlay_shown := True,
        hide_pending := True\<rparr>"

text \<open>\<open>hideLoading\<close> (lines 885--895), also the body of the 10-second timer.\<close>

definition hideLoading :: "loading_state \<Rightarrow> loading_state" where
  "hideLoading ls = ls\<lparr>overlay_shown := False, hide_pending := False\<rparr>"


subsection \<open>Examples\<close>

text \<open>Two platforms with the same name and their coherence entries.\<close>

definition twin_platforms :: "platform_rec jsobj" where
  "twin_platforms = [(1, \<lparr>name = ''Blog'', content = ''a'', tone = [], format = [], platform_keywords = []\<rparr>),
                     (2, \<lparr>name = ''Blog'', content = ''b'', tone = [], format = [], platform_keywords = []\<rparr>)]"

definition twin_coherence :: coherence_result where
  "twin_coherence = \<lparr>coh_overallScore = JsInt 75,
     coh_platformScores = [(1, \<lparr>coh_score = 70, strengths = [''A''], weaknesses = [''B'']\<rparr>),
                           (2, \<lparr>coh_score = 80, strengths = [''C''], weaknesses = [''D'']\<rparr>)],
     comparisons = [], coh_benchmarkComparison = compareToBenchmark (JsInt 75) Coherence\<rparr>"

subsection \<open>Display lemmas\<close>

lemma platform_color_of_eq:
  "platform_color_of k = (if 0 < k then Some (platformColors ! ((k - 1) mod 6)) else None)"
proof (cases k)
  case (Suc j)
  have "js_rem (int j) 6 = int (j mod 6)" by (cases "j = 0") (simp_all add: js_rem_def zmod_int)
  then show ?thesis using Suc by (simp add: platform_color_of_def js_index_def platformColors_def)
qed (simp add: platform_color_of_def js_index_def js_rem_def platformColors_def)

lemma coherence_bars_eq:
  "coherence_bars pd ps =
     (if keys_on_page pd (obj_keys ps)
      then Inr (map (\<lambda>(k, s). (name (the (obj_get pd k)), coh_score s, chart_rgba (platformColors ! ((k - 1) mod 6)))) ps)
      else Inl TypeError)"
  by (induction ps) (auto simp: keys_on_page_def platform_color_of_eq split: option.split sum.split)

lemma audience_bars_eq:
  "audience_bars pd rs =
     (if list_all (\<lambda>k. obj_get pd k \<noteq> None) (obj_keys rs)
      then Inr (map (\<lambda>(k, r). (name (the (obj_get pd k)), reach_size r / 1000, engagement r)) rs)
      else Inl TypeError)"
  by (induction rs) (auto split: option.split sum.split)

lemma consistency_datasets_eq:
  "consistency_datasets pd ps =
     (if keys_on_page pd (obj_keys ps)
      then Inr (map (\<lambda>(k, s). \<lparr>rd_label = name (the (obj_get pd k)),
                  rd_data = [cons_score s, keyMessagePresence s, toneConsistency s, valueAlignment s],
                  rd_color = chart_rgba (platformColors ! ((k - 1) mod 6)),
                  rd_border = js_replace ''0.7'' ''1'' (chart_rgba (platformColors ! ((k - 1) mod 6)))\<rparr>) ps)
      else Inl TypeError)"
  by (induction ps) (auto simp: keys_on_page_def platform_color_of_eq split: option.split sum.split)

lemma rec_cards_eq:
  "rec_cards pd prs acc =
     (if keys_on_page pd (obj_keys prs)
      then (Inr (), acc @ map (\<lambda>(k, pr). rec_card_html (platformColors ! ((k - 1) mod 6)) pr) prs)
      else (Inl TypeError, acc @ map (\<lambda>(k, pr). rec_card_html (platformColors ! ((k - 1) mod 6)) pr)
                              (takeWhile (\<lambda>(k, _). 0 < k \<and> obj_get pd k \<noteq> None) prs)))"
  by (induction prs arbitrary: acc) (auto simp: keys_on_page_def platform_color_of_eq split: option.split)

lemma displayCoherenceChart_ok:
  "keys_on_page pd (obj_keys (coh_platformScores cr)) \<Longrightarrow>
   \<exists>c. displayCoherenceChart pd cr slot = (Inr (), Drawn c) \<and>
     bar_labels c = map (\<lambda>k. name (the (obj_get pd k))) (obj_keys (coh_platformScores cr)) @ [''Overall''] \<and>
     bar_scores c = map (JsInt \<circ> coh_score \<circ> snd) (coh_platformScores cr) @ [coh_overallScore cr]"
  by (simp add: displayCoherenceChart_def coherence_bars_eq obj_keys_def comp_def case_prod_beta)

lemma displayAudienceChart_ok:
  "list_all (\<lambda>k. obj_get pd k \<noteq> None) (obj_keys (platformReach ar)) \<Longrightarrow>
   \<exists>c. displayAudienceChart pd ar slot = (Inr (), Drawn c) \<and>
     aud_labels c = map (\<lambda>k. name (the (obj_get pd k))) (obj_keys (platformReach ar))"
  by (simp add: displayAudienceChart_def audience_bars_eq obj_keys_def comp_def case_prod_beta Let_def)

lemma displayConsistencyChart_ok:
  "keys_on_page pd (obj_keys (cons_platformScores cr)) \<Longrightarrow>
   \<exists>c. displayConsistencyChart pd cr slot = (Inr (), Drawn c) \<and>
     map rd_label c = map (\<lambda>k. name (the (obj_get pd k))) (obj_keys (cons_platformScores cr))"
  by (simp add: displayConsistencyChart_def consistency_datasets_eq obj_keys_def comp_def case_prod_beta)

lemma displayAnalysisResults_ok:
  assumes "display_ready pd r"
  shows "\<exists>c1 c2 c3 coh cons s'. run_state (displayAnalysisResults pd (Some r) v) s =
      ((Inr (), v\<lparr>coherence_chart := Drawn c1, audience_chart := Drawn c2, consistency_chart := Drawn c3,
                  key_findings_list := keyFindings r, coherence_summary := coh,
                  audience_summary := generateAudienceSummary (audience r), consistency_summary := cons\<rparr>), s') \<and>
      bar_labels c1 = map (\<lambda>k. name (the (obj_get pd k))) (obj_keys (coh_platformScores (coherence r))) @ [''Overall''] \<and>
      bar_scores c1 = map (JsInt \<circ> coh_score \<circ> snd) (coh_platformScores (coherence r)) @ [coh_overallScore (coherence r)] \<and>
      aud_labels c2 = map (\<lambda>k. name (the (obj_get pd k))) (obj_keys (platformReach (audience r))) \<and>
      map rd_label c3 = map (\<lambda>k. name (the (obj_get pd k))) (obj_keys (cons_platformScores (consistency r)))"
proof -
  obtain c1 where c1: "displayCoherenceChart pd (coherence r) (coherence_chart v) = (Inr (), Drawn c1)"
      "bar_labels c1 = map (\<lambda>k. name (the (obj_get pd k))) (obj_keys (coh_platformScores (coherence r))) @ [''Overall'']"
      "bar_scores c1 = map (JsInt \<circ> coh_score \<circ> snd) (coh_platformScores (coherence r)) @ [coh_overallScore (coherence r)]"
    using displayCoherenceChart_ok assms unfolding display_ready_def by blast
  obtain c2 where c2: "displayAudienceChart pd (audience r) (audience_chart v) = (Inr (), Drawn c2)"
      "aud_labels c2 = map (\<lambda>k. name (the (obj_get pd k))) (obj_keys (platformReach (audience r)))"
    using displayAudienceChart_ok assms unfolding display_ready_def by blast
  obtain c3 where c3: "displayConsistencyChart pd (consistency r) (consistency_chart v) = (Inr (), Drawn c3)"
      "map rd_label c3 = map (\<lambda>k. name (the (obj_get pd k))) (obj_keys (cons_platformScores (consistency r)))"
    using displayConsistencyChart_ok assms unfolding display_ready_def by blast
  obtain coh s1 where s1: "run_state (generateCoherenceSummary (coherence r)) s = (coh, s1)" by fastforce
  obtain cons s2 where s2: "run_state (generateConsistencySummary (consistency r)) s1 = (cons, s2)" by fastforce
  show ?thesis
    by (intro exI [of _ c1] exI [of _ c2] exI [of _ c3] exI [of _ coh] exI [of _ cons] exI [of _ s2])
       (simp add: displayAnalysisResults_def c1 c2 c3 s1 s2)
qed

lemma display_charts_fail:
  "\<not> keys_on_page pd (obj_keys (coh_platformScores cr)) \<Longrightarrow>
   displayCoherenceChart pd cr slot = (Inl TypeError, destroy_chart slot)"
  "\<not> list_all (\<lambda>k. obj_get pd k \<noteq> None) (obj_keys (platformReach ar)) \<Longrightarrow>
   displayAudienceChart pd ar slot' = (Inl TypeError, destroy_chart slot')"
  "\<not> keys_on_page pd (obj_keys (cons_platformScores nr)) \<Longrightarrow>
   displayConsistencyChart pd nr slot'' = (Inl TypeError, destroy_chart slot'')"
  by (simp_all add: displayCoherenceChart_def coherence_bars_eq displayAudienceChart_def audience_bars_eq
      displayConsistencyChart_def consistency_datasets_eq)

lemma displayAnalysisResults_fails:
  assumes "\<not> display_ready pd r"
  shows "\<exists>c1 c2 c3. run_state (displayAnalysisResults pd (Some r) v) s =
      ((Inl TypeError, v\<lparr>coherence_chart := c1, audience_chart := c2, consistency_chart := c3\<rparr>), s)"
proof (cases "keys_on_page pd (obj_keys (coh_platformScores (coherence r)))")
  case False
  then show ?thesis
    by (intro exI [of _ "destroy_chart (coherence_chart v)"] exI [of _ "audience_chart v"]
          exI [of _ "consistency_chart v"]) (simp add: displayAnalysisResults_def display_charts_fail)
next
  case coh: True
  obtain c1 where c1: "displayCoherenceChart pd (coherence r) (coherence_chart v) = (Inr (), Drawn c1)"
    using displayCoherenceChart_ok [OF coh] by blast
  show ?thesis
  proof (cases "list_all (\<lambda>k. obj_get pd k \<noteq> None) (obj_keys (platformReach (audience r)))")
    case False
    then show ?thesis
      by (intro exI [of _ "Drawn c1"] exI [of _ "destroy_chart (audience_chart v)"] exI [of _ "consistency_chart v"])
         (simp add: displayAnalysisResults_def display_charts_fail c1)
  next
    case aud: True
    obtain c2 where c2: "displayAudienceChart pd (audience r) (audience_chart v) = (Inr (), Drawn c2)"
      using displayAudienceChart_ok [OF aud] by blast
    have "\<not> keys_on_page pd (obj_keys (cons_platformScores (consistency r)))"
      using assms coh aud by (simp add: display_ready_def)
    then show ?thesis
      by (intro exI [of _ "Drawn c1"] exI [of _ "Drawn c2"] exI [of _ "destroy_chart (consistency_chart v)"])
         (simp add: displayAnalysisResults_def display_charts_fail c1 c2)
  qed
qed

lemma displayRecommendations_eq:
  "displayRecommendations pd r v =
     (let recommendations = recommendations r; prs = platformRecommendations recommendations;
          v1 = v\<lparr>strategy_list := strategyRecommendations recommendations\<rparr> in
      if keys_on_page pd (obj_keys prs)
      then (Inr (), v1\<lparr>platform_rec_cards := map (\<lambda>(k, pr). rec_card_html (platformColors ! ((k - 1) mod 6)) pr) prs,
                        next_steps_list := nextSteps recommendations\<rparr>)
      else (Inl TypeError, v1\<lparr>platform_rec_cards := map (\<lambda>(k, pr). rec_card_html (platformColors ! ((k - 1) mod 6)) pr)
                                 (takeWhile (\<lambda>(k, _). 0 < k \<and> obj_get pd k \<noteq> None) prs)\<rparr>))"
  by (simp add: displayRecommendations_def rec_cards_eq Let_def)

lemma analyze_display_keys:
  assumes "obj_wf pd"
  shows "always (\<lambda>r. obj_keys (coh_platformScores (coherence r)) = obj_keys pd \<and>
       set (obj_keys (platformReach (audience r))) = set (obj_keys ad) \<and>
       obj_keys (cons_platformScores (consistency r)) = obj_keys pd) (analyze pd ad)"
proof -
  have a: "always (\<lambda>a. set (obj_keys (platformReach a)) = set (obj_keys ad)) (analyzeAudienceFragmentation ad)"
    unfolding analyzeAudienceFragmentation_def Let_def
    by (rule always_bind [OF always_traverse_map [OF entry_keys(3)]], rule always_bind [OF always_True],
        rule always_bind [OF always_True], rule always_return) (simp add: obj_of_list_keys, simp add: obj_keys_def)
  have c: "always (\<lambda>c. obj_keys (coh_platformScores c) = obj_keys pd) (analyzeContentCoherence pd)"
    using analyzeContentCoherence_structure [OF assms] by (simp add: always_def)
  have m: "always (\<lambda>m. obj_keys (cons_platformScores m) = obj_keys pd) (analyzeMessageConsistency pd)"
    using analyzeMessageConsistency_structure [OF assms] by (simp add: always_def)
  show ?thesis by (rule always_analyze [OF c a m])
qed

lemma keys_on_page_cards [simp]:
  "keys_on_page (getAllPlatformData f) ks \<longleftrightarrow> (\<forall>k \<in> set ks. 0 < k \<and> k \<in> set (platform_cards f))"
  by (auto simp: keys_on_page_def list_all_iff)

lemma display_ready_cards:
  "display_ready (getAllPlatformData f) r \<longleftrightarrow>
     (\<forall>k \<in> set (obj_keys (coh_platformScores (coherence r))) \<union> set (obj_keys (cons_platformScores (consistency r))).
        0 < k \<and> k \<in> set (platform_cards f)) \<and>
     set (obj_keys (platformReach (audience r))) \<subseteq> set (platform_cards f)"
  by (auto simp: display_ready_def list_all_iff)

lemma find_platform_by_name_first:
  assumes "sorted_wrt (<) (map fst xs)"
  shows "find_platform_by_name xs l = Some i \<longleftrightarrow>
           i \<in> set (map fst xs) \<and> name (the (map_of xs i)) = l \<and>
           (\<forall>k \<in> set (map fst xs). k < i \<longrightarrow> name (the (map_of xs k)) \<noteq> l)"
  using assms
proof (induction xs)
  case (Cons kp xs)
  obtain k0 p0 where kp: "kp = (k0, p0)" by fastforce
  have less: "\<forall>k \<in> set (map fst xs). k0 < k" using Cons.prems kp by simp
  then have m: "\<forall>k \<in> set (map fst xs). map_of ((k0, p0) # xs) k = map_of xs k" by auto
  show ?case using Cons.IH Cons.prems less m kp by (auto 4 3)
qed simp

lemma find_platform_by_name_Min:
  assumes "obj_wf pd" and "l \<in> set (map (name \<circ> snd) pd)"
  shows "find_platform_by_name pd l = Some (Min {k \<in> set (obj_keys pd). name (the (obj_get pd k)) = l})"
proof -
  let ?S = "{k \<in> set (obj_keys pd). name (the (obj_get pd k)) = l}"
  have sorted: "sorted_wrt (<) (map fst pd)" using assms(1) by (simp add: obj_wf_def obj_keys_def)
  have dist: "distinct (map fst pd)" using sorted by (simp add: strict_sorted_iff)
  obtain k p where kp: "(k, p) \<in> set pd" "name p = l" using assms(2) by auto
  have g: "obj_get pd k = Some p" using map_of_is_SomeI [OF dist kp(1)] by (simp add: obj_get_def)
  have "k \<in> set (obj_keys pd)" using kp(1) by (force simp: obj_keys_def)
  then have kS: "k \<in> ?S" using g kp(2) by simp
  have fin: "finite ?S" by (rule finite_subset [of _ "set (obj_keys pd)"]) auto
  have mem: "Min ?S \<in> ?S" using Min_in [OF fin] kS by blast
  then have c1: "Min ?S \<in> set (map fst pd)" and c2: "name (the (map_of pd (Min ?S))) = l"
    by (simp_all add: obj_keys_def obj_get_def)
  have least: "\<forall>k' \<in> set (map fst pd). k' < Min ?S \<longrightarrow> name (the (map_of pd k')) \<noteq> l"
  proof (intro ballI impI notI)
    fix k' assume k': "k' \<in> set (map fst pd)" "k' < Min ?S" "name (the (map_of pd k')) = l"
    then have "k' \<in> ?S" by (simp add: obj_keys_def obj_get_def)
    then show False using Min_le [OF fin] k'(2) by fastforce
  qed
  show ?thesis by (rule find_platform_by_name_first [OF sorted, THEN iffD2]) (use c1 c2 least in blast)
qed

subsection \<open>Tooltips\<close>

text \<open>C36: the tooltip of a coherence bar is looked up by the bar's label: for a label
  other than \<open>Overall\<close> it shows the strengths and weaknesses of the lowest-numbered
  platform bearing that name, so every platform sharing a name with an earlier one shows
  the earlier one's entry.\<close>

theorem coherence_tooltip_first_of_name:
  assumes "obj_wf pd" and "l \<in> set (map (name \<circ> snd) pd)" and "l \<noteq> ''Overall''"
  shows "coherence_tooltip pd cr l =
    (case obj_get (coh_platformScores cr) (Min {k \<in> set (obj_keys pd). name (the (obj_get pd k)) = l}) of
       None \<Rightarrow> Inl []
     | Some e \<Rightarrow> Inr [''Strengths: '' @ js_join '', '' (strengths e),
                     ''Areas for improvement: '' @ js_join '', '' (weaknesses e)])"
  using assms by (simp add: coherence_tooltip_def find_platform_by_name_Min)

theorem coherence_tooltip_first_of_name_witness:
  "obj_wf twin_platforms \<and> ''Blog'' \<in> set (map (name \<circ> snd) twin_platforms) \<and> ''Blog'' \<noteq> ''Overall'' \<and>
   coherence_tooltip twin_platforms twin_coherence ''Blog'' = Inr [''Strengths: A'', ''Areas for improvement: B'']"
proof -
  have h: "obj_wf twin_platforms" "''Blog'' \<in> set (map (name \<circ> snd) twin_platforms)" "''Blog'' \<noteq> ''Overall''"
    by (simp_all add: twin_platforms_def obj_wf_def obj_keys_def)
  have "{k \<in> set (obj_keys twin_platforms). name (the (obj_get twin_platforms k)) = ''Blog''} = {1, 2}"
    by (auto simp: twin_platforms_def obj_keys_def obj_get_def)
  then have m: "Min {k \<in> set (obj_keys twin_platforms). name (the (obj_get twin_platforms k)) = ''Blog''} = 1"
    by simp
  show ?thesis using coherence_tooltip_first_of_name [OF h, of twin_coherence] h m
    by (simp add: twin_coherence_def obj_get_def)
qed

end
