(* ===== verification/App.thy ===== *)
theory App
  imports Load Display
begin

text \<open>
  \<open>src/js/app.js\<close>: the page's event handlers over the whole application state:
  the form (\<open>Form\<close>), the engine's retained result and random source (\<open>Engine\<close>),
  the browser store (\<open>Storage\<close>), the callbacks \<open>runAnalysis\<close> has scheduled with
  \<open>setTimeout\<close> (all with the same delay, so they fire in order), the items of the
  load dialog (their \<open>data-index\<close> attributes), the selected item, and the
  notifications and alerts shown. One event is one handler run to completion, as the
  single-threaded page runs them; an uncaught exception ends the handler with the
  state as it left it.

  The conversion of one audience object and of the result bundle to and from JSON
  (they hold doubles, which the JSON model does not print) is the parameter \<open>codec\<close>
  of \<open>Load\<close>; every property holds for every codec, or for every codec that reads
  back what it wrote where a property says so. Platform records hold strings only and
  are converted exactly; a loaded entry rebuilds the form through the concrete
  \<open>loadAnalysisData\<close> of \<open>Load\<close>.
\<close>

subsection \<open>Validation\<close>

text \<open>\<open>String.prototype.trim\<close> on bytes: tab, line feed, vertical tab, form feed,
  carriage return, space and no-break space.\<close>

definition js_ws_char :: "char \<Rightarrow> bool" where
  "js_ws_char c \<longleftrightarrow> (of_char c :: nat) \<in> {9, 10, 11, 12, 13, 32, 160}"

definition js_trim :: "string \<Rightarrow> string" where
  "js_trim s = rev (dropWhile js_ws_char (rev (dropWhile js_ws_char s)))"

text \<open>\<open>validateAnalysisData\<close> (lines 269--302): the three checks in order, each
  overwriting \<open>isValid\<close> and \<open>errorMessage\<close> when it fails; the loops visit the
  platforms in key order and stop at the first failure. The result is \<open>isValid\<close> and
  the message the notification shows when it is false.\<close>

definition validateAnalysisData :: "platform_rec jsobj \<Rightarrow> audience_rec jsobj \<Rightarrow> bool \<times> string" where
  "validateAnalysisData platformData audienceData =
     (let s1 = (if length (obj_keys platformData) < 2
                then (False, ''Please input data for at least 2 platforms'') else (True, ''''));
          s2 = (if list_ex (\<lambda>p. content p = [] \<or> js_trim (content p) = []) (map snd platformData)
                then (False, ''Please provide content for all platforms'') else s1);
          s3 = (if list_ex (\<lambda>k. obj_get audienceData k = None) (obj_keys platformData)
                then (False, ''Please provide audience data for all platforms'') else s2)
      in s3)"

subsection \<open>State and events\<close>

record app_state =
  form :: form_state
  engine :: engine_state
  store :: local_storage
  timers :: "(platform_rec jsobj \<times> audience_rec jsobj) list"
  dialog :: "nat list"
  selected :: "nat option"
  notices :: "string list"
  downloads :: "string list"
  loaded :: "json option"
  beyond_model :: bool
  page :: page_view
  loading :: loading_state
  results_shown :: bool

datatype app_event = AddPlatform | RemovePlatform nat | EditPlatform nat platform_rec
  | EditAudience nat audience_rec | RunAnalysis | TimerFires
  | ConfirmSave string string string | OpenLoad | SelectItem nat | DeleteItem nat | ConfirmLoad
  | ExportRecommendations string | FinishAnalysis | LoadingTimeout

subsection \<open>Handlers\<close>

text \<open>\<open>runAnalysis\<close> (lines 222--261): the overlay is shown, the data are read and
  validated when the button is clicked; a valid run schedules the analysis of that data,
  an invalid one hides the overlay again.\<close>

definition runAnalysis :: "app_state \<Rightarrow> app_state" where
  "runAnalysis st =
     (let st1 = st\<lparr>loading := showLoading ''Running analysis...'' (loading st)\<rparr>;
          platformData = getAllPlatformData (form st1);
          audienceData = getAllAudienceData (form st1);
          (isValid, errorMessage) = validateAnalysisData platformData audienceData
      in if isValid then st1\<lparr>timers := timers st1 @ [(platformData, audienceData)]\<rparr>
         else st1\<lparr>notices := notices st1 @ [errorMessage], loading := hideLoading (loading st1)\<rparr>)"

text \<open>The \<open>setTimeout\<close> callback of \<open>runAnalysis\<close> (lines 239--260): the analysis
  of the captured data, retained by the engine, is displayed against the form as it is
  now (\<open>getAllPlatformData()\<close> inside the display routines), with the summaries
  drawing from the same \<open>Math.random\<close>; then the recommendations, and only then is
  the overlay hidden and the results section revealed. A throw ends the callback where
  it happens.\<close>

definition timer_fires :: "app_state \<Rightarrow> app_state" where
  "timer_fires st =
     (case timers st of
        [] \<Rightarrow> st
      | (platformData, audienceData) # rest \<Rightarrow>
          (case engine_analyze platformData audienceData (engine st) of
             (results, es) \<Rightarrow>
               (case run_state (displayAnalysisResults (getAllPlatformData (form st)) (Some results) (page st))
                       (random_source es) of
                  ((Inl _, v1), rng) \<Rightarrow> st\<lparr>engine := es\<lparr>random_source := rng\<rparr>, timers := rest, page := v1\<rparr>
                | ((Inr _, v1), rng) \<Rightarrow>
                    (case displayRecommendations (getAllPlatformData (form st)) results v1 of
                       (Inl _, v2) \<Rightarrow> st\<lparr>engine := es\<lparr>random_source := rng\<rparr>, timers := rest, page := v2\<rparr>
                     | (Inr _, v2) \<Rightarrow>
                         st\<lparr>engine := es\<lparr>random_source := rng\<rparr>, timers := rest, page := v2,
                            loading := hideLoading (loading st), results_shown := True\<rparr>))))"

text \<open>The object the save handler builds (lines 73--80); \<open>getResults()\<close> is
  \<open>null\<close> before any analysis.\<close>

definition saved_analysis :: "codec \<Rightarrow> string \<Rightarrow> string \<Rightarrow> string \<Rightarrow> app_state \<Rightarrow> json" where
  "saved_analysis c analysisName analysisNotes date st =
     JObj [(''name'', JStr analysisName), (''notes'', JStr analysisNotes), (''date'', JStr date),
           (''platformData'', platforms_json (getAllPlatformData (form st))),
           (''audienceData'', audiences_json c (getAllAudienceData (form st))),
           (''analysisResults'', case getResults (engine st) of None \<Rightarrow> JNull | Some r \<Rightarrow> enc_results c r)]"

text \<open>The \<open>confirm-save\<close> handler (lines 64--89): the result of
  \<open>saveAnalysis\<close> is not looked at; an exception from it ends the handler before the
  notification.\<close>

definition confirm_save :: "codec \<Rightarrow> string \<Rightarrow> string \<Rightarrow> string \<Rightarrow> app_state \<Rightarrow> app_state" where
  "confirm_save c analysisName analysisNotes date st =
     (if analysisName = [] then st\<lparr>notices := notices st @ [''Please enter a name for your analysis'']\<rparr>
      else case saveAnalysis (saved_analysis c analysisName analysisNotes date st) (store st) of
             (Inl _, s') \<Rightarrow> st\<lparr>store := s'\<rparr>
           | (Inr _, s') \<Rightarrow> st\<lparr>store := s', notices := notices st @ [''Analysis saved successfully'']\<rparr>)"

text \<open>The \<open>load-analysis\<close> handler (lines 92--170): the list is cleared and rebuilt
  with one item per saved analysis, \<open>data-index\<close> its position, and the items and their
  delete buttons get their listeners after the loop. \<open>dialog\<close> holds the items that
  respond to clicks. \<open>new Date(analysis.date)\<close> (line 105) throws on a \<open>null\<close> entry,
  ending the handler before any listener is attached and before the modal is shown; on
  a stored value that is not an array \<open>forEach\<close> throws. In both cases no item
  responds.\<close>

definition open_load :: "app_state \<Rightarrow> app_state" where
  "open_load st =
     (case getSavedAnalyses (store st) of
        (JArr xs, s') \<Rightarrow>
          if JNull \<in> set xs then st\<lparr>store := s', dialog := [], selected := None\<rparr>
          else st\<lparr>store := s', dialog := [0..<length xs], selected := None\<rparr>
      | (_, s') \<Rightarrow> st\<lparr>store := s', dialog := [], selected := None\<rparr>)"

text \<open>A click on a list item (lines 129--145) selects it.\<close>

definition select_item :: "nat \<Rightarrow> app_state \<Rightarrow> app_state" where
  "select_item i st = (if i \<in> set (dialog st) then st\<lparr>selected := Some i\<rparr> else st)"

text \<open>A confirmed click on an item's delete button (lines 150--164): its
  \<open>data-index\<close>, fixed when the list was built, goes to \<open>deleteAnalysis\<close> whatever
  that returns, and the item leaves the list.\<close>

definition delete_item :: "nat \<Rightarrow> app_state \<Rightarrow> app_state" where
  "delete_item i st =
     (if i \<notin> set (dialog st) then st
      else case deleteAnalysis (int i) (store st) of
             (Inl _, s') \<Rightarrow> st\<lparr>store := s'\<rparr>
           | (Inr _, s') \<Rightarrow> st\<lparr>store := s', dialog := remove1 i (dialog st),
                             selected := (if selected st = Some i then None else selected st)\<rparr>)"

text \<open>\<open>savedAnalyses[index]\<close> on the saved array, \<open>None\<close> for \<open>undefined\<close>.\<close>

definition saved_index :: "json \<Rightarrow> nat \<Rightarrow> json option" where
  "saved_index v i = (case v of JArr xs \<Rightarrow> if i < length xs then Some (xs ! i) else None | _ \<Rightarrow> None)"

text \<open>The \<open>confirm-load\<close> handler (lines 173--201): \<open>loadAnalysisData\<close> throws on
  \<open>undefined\<close> and may throw while rebuilding the form, which then keeps the cards built
  so far; after \<open>setResults\<close> the loaded bundle is displayed against the rebuilt
  form, and \<open>displayAnalysisResults\<close> throws, before the notification, on a missing
  bundle or on one naming a platform the form lacks. \<open>displayRecommendations\<close> is
  not called. \<open>loaded\<close> records the entry handed to
  \<open>loadAnalysisData\<close>; \<open>beyond_model\<close> marks an entry outside the model of
  \<open>loadAnalysisData\<close>, or a rebuilt form whose inputs it does not determine.\<close>

definition confirm_load :: "codec \<Rightarrow> app_state \<Rightarrow> app_state" where
  "confirm_load c st =
     (case selected st of
        None \<Rightarrow> st\<lparr>notices := notices st @ [''Please select an analysis to load'']\<rparr>
      | Some i \<Rightarrow>
          (case getSavedAnalyses (store st) of
             (saved, s') \<Rightarrow>
               (case saved_index saved i of
                  None \<Rightarrow> st\<lparr>store := s'\<rparr>
                | Some analysisData \<Rightarrow>
                    (case loadAnalysisData c analysisData (form st) of
                       None \<Rightarrow> st\<lparr>store := s', loaded := Some analysisData, beyond_model := True\<rparr>
                     | Some (r0, f') \<Rightarrow>
                         if inputs_unmodelled f'
                         then st\<lparr>store := s', loaded := Some analysisData, beyond_model := True\<rparr>
                         else case r0 of
                           Inl _ \<Rightarrow> st\<lparr>store := s', form := f', loaded := Some analysisData\<rparr>
                         | Inr _ \<Rightarrow>
                         let results = dec_results c (js_get (Some analysisData) ''analysisResults'');
                             es = setResults results (engine st) in
                         (case run_state (displayAnalysisResults (getAllPlatformData f') results (page st))
                                 (random_source es) of
                            ((r, v), rng) \<Rightarrow>
                              st\<lparr>store := s', form := f', engine := es\<lparr>random_source := rng\<rparr>, page := v,
                                 loaded := Some analysisData,
                                 notices := (case r of Inl _ \<Rightarrow> notices st
                                             | Inr _ \<Rightarrow> notices st @ [''Analysis loaded successfully''])\<rparr>)))))"

text \<open>The \<open>export-recommendations\<close> handler (lines 204--206): the warning when there
  is no result, the downloaded file otherwise; an exception from the export ends it.\<close>

definition export_click :: "string \<Rightarrow> app_state \<Rightarrow> app_state" where
  "export_click date st =
     (case exportRecommendations date (form st) (engine st) of
        Inl _ \<Rightarrow> st
      | Inr None \<Rightarrow> st\<lparr>notices := notices st @ [''No recommendations available to export'']\<rparr>
      | Inr (Some markdown) \<Rightarrow> st\<lparr>downloads := downloads st @ [markdown]\<rparr>)"

text \<open>One event. A click on a button that is not on the page does nothing. The
  \<open>finish-analysis\<close> handler (lines 208--215) only notifies (its tab switch is not
  modelled); \<open>LoadingTimeout\<close> is the overlay's hide timer set by
  \<open>showLoading\<close> (ui-controller.js, line 879).\<close>

fun app_step :: "codec \<Rightarrow> app_event \<Rightarrow> app_state \<Rightarrow> app_state" where
  "app_step c AddPlatform st = st\<lparr>form := addNewPlatform (form st)\<rparr>"
| "app_step c (RemovePlatform n) st =
     (if n \<in> set (platform_cards (form st)) \<and> removable (form st) n then st\<lparr>form := removePlatform n (form st)\<rparr>
      else st)"
| "app_step c (EditPlatform i p) st = st\<lparr>form := edit_platform i p (form st)\<rparr>"
| "app_step c (EditAudience i a) st = st\<lparr>form := edit_audience i a (form st)\<rparr>"
| "app_step c RunAnalysis st = runAnalysis st"
| "app_step c TimerFires st = timer_fires st"
| "app_step c (ConfirmSave analysisName analysisNotes date) st = confirm_save c analysisName analysisNotes date st"
| "app_step c OpenLoad st = open_load st"
| "app_step c (SelectItem i) st = select_item i st"
| "app_step c (DeleteItem i) st = delete_item i st"
| "app_step c ConfirmLoad st = confirm_load c st"
| "app_step c (ExportRecommendations date) st = export_click date st"
| "app_step c FinishAnalysis st =
     st\<lparr>notices := notices st @ [''Analysis completed! You can save your results or start a new analysis.'']\<rparr>"
| "app_step c LoadingTimeout st =
     (if hide_pending (loading st) then st\<lparr>loading := hideLoading (loading st)\<rparr> else st)"

definition app_run :: "codec \<Rightarrow> app_event list \<Rightarrow> app_state \<Rightarrow> app_state" where
  "app_run c evs st = fold (app_step c) evs st"

definition initial_app :: "rng \<Rightarrow> local_storage \<Rightarrow> app_state" where
  "initial_app s ls =
     \<lparr>form = initial_form, engine = \<lparr>analysisResults = None, random_source = s\<rparr>, store = ls,
      timers = [], dialog = [], selected = None, notices = [], downloads = [], loaded = None,
      beyond_model = False, page = initial_view, loading = initial_loading, results_shown = False\<rparr>"

text \<open>A third saved entry for the dialog scenarios.\<close>

definition entry_C :: json where "entry_C = JObj [(''name'', JStr ''C'')]"

text \<open>A page ready to run: a third platform added, all three with content.\<close>

definition ready_app :: app_state where
  "ready_app = app_run example_codec [AddPlatform, EditPlatform 1 (new_platform_inputs\<lparr>content := ''Hi''\<rparr>),
     EditPlatform 2 (new_platform_inputs\<lparr>content := ''Yo''\<rparr>), EditPlatform 3 (new_platform_inputs\<lparr>content := ''Hey''\<rparr>)]
     (initial_app example_rng (empty_store 1000))"


subsection \<open>Handler lemmas\<close>

lemma validate_cases:
  "validateAnalysisData pd ad =
     (if list_ex (\<lambda>k. obj_get ad k = None) (obj_keys pd) then (False, ''Please provide audience data for all platforms'')
      else if list_ex (\<lambda>p. content p = [] \<or> js_trim (content p) = []) (map snd pd)
        then (False, ''Please provide content for all platforms'')
      else if length (obj_keys pd) < 2 then (False, ''Please input data for at least 2 platforms'')
      else (True, ''''))"
  by (simp add: validateAnalysisData_def Let_def)

lemma js_trim_Nil [simp]: "js_trim [] = []"
  by (simp add: js_trim_def)

lemma orphaned_invalid:
  "orphaned f \<Longrightarrow> \<not> fst (validateAnalysisData (getAllPlatformData f) (getAllAudienceData f))"
  unfolding orphaned_iff validate_cases list_ex_iff
  by (auto simp: in_set_conv_nth [of _ "obj_keys _"])

lemma runAnalysis_cases:
  "runAnalysis st =
     (if fst (validateAnalysisData (getAllPlatformData (form st)) (getAllAudienceData (form st)))
      then st\<lparr>loading := showLoading ''Running analysis...'' (loading st),
              timers := timers st @ [(getAllPlatformData (form st), getAllAudienceData (form st))]\<rparr>
      else st\<lparr>loading := hideLoading (showLoading ''Running analysis...'' (loading st)),
              notices := notices st @ [snd (validateAnalysisData (getAllPlatformData (form st)) (getAllAudienceData (form st)))]\<rparr>)"
  by (simp add: runAnalysis_def Let_def split: prod.split)

text \<open>What the timer callback changes: the engine (the retained bundle of the captured
  data, and the random source), the queue, the page, the overlay and the results
  section.\<close>

lemma timer_fires_Cons:
  assumes "timers st = (pd, ad) # rest"
  shows "\<exists>es v ld sh. timer_fires st = st\<lparr>engine := es, timers := rest, page := v, loading := ld, results_shown := sh\<rparr> \<and>
           getResults es = Some (fst (engine_analyze pd ad (engine st))) \<and>
           (ld = loading st \<or> ld = hideLoading (loading st))"
proof -
  obtain r es where e: "engine_analyze pd ad (engine st) = (r, es)" by fastforce
  have g: "getResults es = Some r" using getResults_engine_analyze [of pd ad "engine st"] e by simp
  obtain x v1 rng where d: "run_state (displayAnalysisResults (getAllPlatformData (form st)) (Some r) (page st))
      (random_source es) = ((x, v1), rng)" by (metis prod.exhaust)
  obtain y v2 where d2: "displayRecommendations (getAllPlatformData (form st)) r v1 = (y, v2)" by fastforce
  have g': "getResults (es\<lparr>random_source := rng\<rparr>) = Some r" using g by (simp add: getResults_def)
  show ?thesis
  proof (cases x)
    case Inl
    then show ?thesis using assms e d g'
      by (intro exI [of _ "es\<lparr>random_source := rng\<rparr>"] exI [of _ v1] exI [of _ "loading st"]
            exI [of _ "results_shown st"]) (simp add: timer_fires_def)
  next
    case Inr
    show ?thesis
    proof (cases y)
      case Inl
      then show ?thesis using assms e d d2 g' \<open>x = Inr _\<close>
        by (intro exI [of _ "es\<lparr>random_source := rng\<rparr>"] exI [of _ v2] exI [of _ "loading st"]
              exI [of _ "results_shown st"]) (simp add: timer_fires_def)
    next
      case Inr
      then show ?thesis using assms e d d2 g' \<open>x = Inr _\<close>
        by (intro exI [of _ "es\<lparr>random_source := rng\<rparr>"] exI [of _ v2] exI [of _ "hideLoading (loading st)"]
              exI [of _ True]) (simp add: timer_fires_def)
    qed
  qed
qed

lemma timer_fires_keeps [simp]:
  "form (timer_fires st) = form st" "downloads (timer_fires st) = downloads st" "notices (timer_fires st) = notices st"
  "store (timer_fires st) = store st" "loaded (timer_fires st) = loaded st"
proof -
  have "form (timer_fires st) = form st \<and> downloads (timer_fires st) = downloads st \<and>
        notices (timer_fires st) = notices st \<and> store (timer_fires st) = store st \<and> loaded (timer_fires st) = loaded st"
  proof (cases "timers st")
    case (Cons x rest)
    then obtain pd ad where "timers st = (pd, ad) # rest" by (cases x) auto
    then show ?thesis using timer_fires_Cons [of st pd ad rest] by auto
  qed (simp add: timer_fires_def)
  then show "form (timer_fires st) = form st" "downloads (timer_fires st) = downloads st"
    "notices (timer_fires st) = notices st" "store (timer_fires st) = store st" "loaded (timer_fires st) = loaded st"
    by simp_all
qed

lemma handlers_keep [simp]:
  "form (runAnalysis st) = form st" "engine (runAnalysis st) = engine st" "downloads (runAnalysis st) = downloads st"
  "form (confirm_save c n no d st) = form st" "engine (confirm_save c n no d st) = engine st"
  "timers (confirm_save c n no d st) = timers st"
  "form (open_load st) = form st" "engine (open_load st) = engine st" "timers (open_load st) = timers st"
  "form (select_item i st) = form st" "engine (select_item i st) = engine st" "timers (select_item i st) = timers st"
  "form (delete_item i st) = form st" "engine (delete_item i st) = engine st" "timers (delete_item i st) = timers st"
  "timers (confirm_load c st) = timers st"
  "form (export_click d st) = form st" "engine (export_click d st) = engine st" "timers (export_click d st) = timers st"
  by (simp_all add: runAnalysis_cases confirm_save_def open_load_def select_item_def delete_item_def
      confirm_load_def export_click_def Let_def split: list.split prod.split sum.split json.split option.split)

lemma timers_timer_fires: "timers (timer_fires st) = drop 1 (timers st)"
proof (cases "timers st")
  case (Cons x rest)
  then obtain pd ad where "timers st = (pd, ad) # rest" by (cases x) auto
  then show ?thesis using timer_fires_Cons [of st pd ad rest] by auto
qed (simp add: timer_fires_def)

lemma app_run_simps [simp]:
  "app_run c [] st = st" "app_run c (e # evs) st = app_run c evs (app_step c e st)"
  "app_run c (evs @ evs') st = app_run c evs' (app_run c evs st)"
  by (simp_all add: app_run_def)

lemma app_step_keeps_orphan:
  assumes "e \<noteq> ConfirmLoad" and "form_base (form st)" and "orphaned (form st)"
  shows "form_base (form (app_step c e st)) \<and> orphaned (form (app_step c e st)) \<and>
         (\<exists>n. timers (app_step c e st) = drop n (timers st))"
proof (cases e)
  case RunAnalysis
  then show ?thesis using assms orphaned_invalid [of "form st"]
    by (simp add: runAnalysis_cases) (metis drop0)
next
  case TimerFires
  then show ?thesis using assms by (simp add: timers_timer_fires) blast
qed (use assms form_base_add orphaned_add form_base_remove orphaned_remove form_base_edits orphaned_edits in
     \<open>auto intro: exI [of _ 0]\<close>)

lemma app_step_keeps_engine:
  assumes "e \<noteq> TimerFires" and "e \<noteq> ConfirmLoad"
  shows "engine (app_step c e st) = engine st \<and> (\<exists>ys. timers (app_step c e st) = timers st @ ys)"
  using assms by (cases e) (auto simp: runAnalysis_cases)

lemma app_run_keeps_engine:
  "\<forall>e \<in> set evs. e \<noteq> TimerFires \<and> e \<noteq> ConfirmLoad \<Longrightarrow>
   engine (app_run c evs st) = engine st \<and> (\<exists>ys. timers (app_run c evs st) = timers st @ ys)"
proof (induction evs arbitrary: st)
  case (Cons e evs)
  then obtain ys where "timers (app_step c e st) = timers st @ ys" "engine (app_step c e st) = engine st"
    using app_step_keeps_engine [of e c st] by auto
  moreover obtain zs where "timers (app_run c evs (app_step c e st)) = timers (app_step c e st) @ zs"
      "engine (app_run c evs (app_step c e st)) = engine (app_step c e st)"
    using Cons.IH [of "app_step c e st"] Cons.prems by auto
  ultimately show ?case by (auto intro: exI [of _ "ys @ zs"])
qed simp

lemma confirm_save_no_room:
  assumes "analysisName \<noteq> []" and "storage_inv (store st)" and "\<not> room (store st)"
  shows "confirm_save c analysisName analysisNotes date st =
           st\<lparr>notices := notices st @ [''Analysis saved successfully'']\<rparr>"
  using assms by (simp add: confirm_save_def saveAnalysis_eq)

lemma entries_not_null: "JNull \<notin> set [entry_A, entry_B, entry_C]"
  by (simp add: entry_A_def entry_B_def entry_C_def)

lemma open_load_room:
  assumes "storage_inv (store st)" and "room (store st)" and "JNull \<notin> set (stored_list (store st))"
  shows "open_load st = st\<lparr>dialog := [0..<length (stored_list (store st))], selected := None\<rparr>"
  using assms by (simp add: open_load_def getSaved_inv)

lemma delete_item_room:
  assumes "storage_inv (store st)" and "room (store st)" and "i \<in> set (dialog st)"
    and "i < length (stored_list (store st))"
  obtains s' where "delete_item i st = st\<lparr>store := s', dialog := remove1 i (dialog st),
                      selected := (if selected st = Some i then None else selected st)\<rparr>"
    and "storage_inv s'" and "room s'"
    and "stored_list s' = take i (stored_list (store st)) @ drop (Suc i) (stored_list (store st))"
proof -
  obtain s' where d: "deleteAnalysis (int i) (store st) = (Inr True, s')" and "storage_inv s'"
      and "stored_list s' = take i (stored_list (store st)) @ drop (Suc i) (stored_list (store st))"
    using deleteAnalysis_refines [OF assms(1), of "int i"] assms(2,4) by auto
  moreover have "room s'" using delete_room [OF assms(1) d] by simp
  ultimately show ?thesis using that assms(3) by (simp add: delete_item_def)
qed

lemma confirm_load_room:
  assumes "storage_inv (store st)" and "room (store st)" and "selected st = Some j"
  shows "loaded (confirm_load c st) =
           (if j < length (stored_list (store st)) then Some (stored_list (store st) ! j) else loaded st)"
  using assms by (simp add: confirm_load_def getSaved_inv saved_index_def Let_def split: option.split prod.split sum.split)

lemma open_then_delete:
  assumes "storage_inv (store st)" and "room (store st)" and "i < length (stored_list (store st))"
    and "JNull \<notin> set (stored_list (store st))"
  shows "storage_inv (store (delete_item i (open_load st))) \<and> room (store (delete_item i (open_load st))) \<and>
         stored_list (store (delete_item i (open_load st))) =
           take i (stored_list (store st)) @ drop (Suc i) (stored_list (store st)) \<and>
         dialog (delete_item i (open_load st)) = remove1 i [0..<length (stored_list (store st))] \<and>
         selected (delete_item i (open_load st)) = None \<and> loaded (delete_item i (open_load st)) = loaded st"
proof -
  let ?st1 = "open_load st"
  have st1: "?st1 = st\<lparr>dialog := [0..<length (stored_list (store st))], selected := None\<rparr>"
    by (rule open_load_room [OF assms(1,2,4)])
  have h1: "storage_inv (store ?st1)" "room (store ?st1)" "i \<in> set (dialog ?st1)"
      "i < length (stored_list (store ?st1))"
    using st1 assms by auto
  obtain s2 where "delete_item i ?st1 = ?st1\<lparr>store := s2, dialog := remove1 i (dialog ?st1),
        selected := (if selected ?st1 = Some i then None else selected ?st1)\<rparr>"
      and "storage_inv s2" and "room s2"
      and "stored_list s2 = take i (stored_list (store ?st1)) @ drop (Suc i) (stored_list (store ?st1))"
    by (rule delete_item_room [OF h1])
  then show ?thesis using st1 by simp
qed

text \<open>A valid run followed by its timer: the form is untouched and the engine retains
  the analysis of the form's data.\<close>

lemma run_then_timer:
  assumes "timers st = []"
    and "fst (validateAnalysisData (getAllPlatformData (form st)) (getAllAudienceData (form st)))"
  shows "form (app_run c [RunAnalysis, TimerFires] st) = form st \<and> timers (app_run c [RunAnalysis, TimerFires] st) = [] \<and>
         getResults (engine (app_run c [RunAnalysis, TimerFires] st)) =
           Some (fst (engine_analyze (getAllPlatformData (form st)) (getAllAudienceData (form st)) (engine st))) \<and>
         downloads (app_run c [RunAnalysis, TimerFires] st) = downloads st \<and>
         notices (app_run c [RunAnalysis, TimerFires] st) = notices st"
proof -
  have r: "timers (runAnalysis st) = [(getAllPlatformData (form st), getAllAudienceData (form st))]"
    using assms by (simp add: runAnalysis_cases)
  have "notices (runAnalysis st) = notices st" using assms by (simp add: runAnalysis_cases)
  then show ?thesis using timer_fires_Cons [OF r] timers_timer_fires [of "runAnalysis st"] r by auto
qed

lemma load_saved:
  assumes ok: "form_ok (form st)"
    and keys: "\<forall>k \<in> set (platform_cards (form st)). k < 10 ^ 15"
    and aud: "\<forall>k \<in> set (platform_cards (form st)). js_truthy (Some (json_norm (enc_audience c (audience_inputs (form st) k))))"
    and names: "\<forall>k \<in> set (platform_cards (form st)). CHR ''<'' \<notin> set (name (platform_inputs (form st) k))"
  shows "\<exists>f'. loadAnalysisData c (json_norm (saved_analysis c nm no d st)) f0 = Some (Inr (), f') \<and>
           platform_cards f' = platform_cards (form st) \<and> audience_cards f' = audience_cards (form st) \<and>
           form_ok f' \<and> \<not> inputs_unmodelled f' \<and>
           (\<forall>k \<in> set (platform_cards (form st)).
              platform_inputs f' k = loaded_platform (Some (platform_json (platform_inputs (form st) k))) \<and>
              audience_inputs f' k = dec_audience c (json_norm (enc_audience c (audience_inputs (form st) k))) \<and>
              removable f' k = (2 < k))"
proof -
  let ?f = "form st" let ?xs = "platform_cards ?f"
  let ?P = "Some (platforms_json (getAllPlatformData ?f))"
  let ?A = "Some (JObj (map (\<lambda>ka. (nat_digits (fst ka), json_norm (enc_audience c (snd ka)))) (getAllAudienceData ?f)))"
  let ?pj = "\<lambda>n. platform_json (platform_inputs ?f n)"
  let ?aj = "\<lambda>n. Some (json_norm (enc_audience c (audience_inputs ?f n)))"
  have sorted: "sorted_wrt (<) ?xs" and same: "audience_cards ?f = ?xs" and pos: "\<forall>k \<in> set ?xs. 1 \<le> k"
    using ok by (auto simp: form_ok_def)
  have pd: "getAllPlatformData ?f = map (\<lambda>i. (i, platform_inputs ?f i)) ?xs"
    by (rule getAllPlatformData_sorted [OF sorted])
  have ad: "getAllAudienceData ?f = map (\<lambda>i. (i, audience_inputs ?f i)) ?xs"
    using getAllAudienceData_sorted [of ?f] sorted same by simp
  have props: "js_prop (Some (json_norm (saved_analysis c nm no d st))) ''platformData'' = Inr ?P"
      "js_prop (Some (json_norm (saved_analysis c nm no d st))) ''audienceData'' = Inr ?A"
    by (simp_all add: saved_analysis_def js_prop_def json_norm_platforms audiences_json_def comp_def)
  have forin: "js_for_in ?P = Some ?xs"
    using for_in_platforms [of "getAllPlatformData ?f"] keys pos pd sorted
    by (simp add: comp_def sorted_sort_id strict_sorted_iff)
  have each: "\<forall>n \<in> set ?xs. js_get ?P (nat_digits n) = Some (?pj n) \<and> ?pj n \<noteq> JNull \<and>
                 js_prop ?A (nat_digits n) = Inr (?aj n)"
    using pd ad by (simp add: js_get_def js_prop_def platforms_json_def comp_def map_of_digits_keyed platform_json_def)
  have dist: "distinct ?xs" using sorted by (simp add: strict_sorted_iff)
  let ?f0 = "f0\<lparr>platformCount := 0, platform_cards := [], audience_cards := [], inputs_unmodelled := False\<rparr>"
  obtain f' where f': "load_cards c ?P ?A ?xs ?f0 = (Inr (), f')"
      and facts: "platform_cards f' = ?xs" "audience_cards f' = filter (\<lambda>n. js_truthy (?aj n)) ?xs"
        "platformCount f' = fold max ?xs 0"
        "\<forall>m. platform_inputs f' m = (if m \<in> set ?xs then loaded_platform (Some (?pj m)) else platform_inputs f0 m)"
        "\<forall>m. audience_inputs f' m = (if m \<in> set ?xs \<and> js_truthy (?aj m) then dec_audience c (the (?aj m)) else audience_inputs f0 m)"
        "inputs_unmodelled f' = list_ex (\<lambda>n. name_markup (Some (?pj n))) ?xs"
    using load_cards_ok [OF dist each, of c ?f0]
    by (cases "load_cards c ?P ?A ?xs ?f0") auto
  let ?g = "f'\<lparr>removable := (\<lambda>m. if m \<in> set ?xs then 2 < m else removable f' m)\<rparr>"
  have ld: "loadAnalysisData c (json_norm (saved_analysis c nm no d st)) f0 = Some (Inr (), ?g)"
    using f' props forin by (simp add: loadAnalysisData_def)
  have aud_all: "filter (\<lambda>n. js_truthy (?aj n)) ?xs = ?xs" using aud by (simp add: filter_id_conv)
  have ok': "form_ok ?g"
    using facts(1,2,3) aud_all sorted pos fold_max_ge [of _ ?xs 0] by (auto simp: form_ok_def)
  have "\<not> inputs_unmodelled ?g"
    using facts(6) names by (simp add: list_ex_iff name_markup_json)
  then show ?thesis
    using ld ok' facts aud_all aud same by auto
qed

lemma timer_fires_display_ok:
  assumes "timers st = (pd, ad) # rest"
    and "display_ready (getAllPlatformData (form st)) (fst (engine_analyze pd ad (engine st)))"
    and "keys_on_page (getAllPlatformData (form st))
           (obj_keys (platformRecommendations (recommendations (fst (engine_analyze pd ad (engine st))))))"
  shows "getResults (engine (timer_fires st)) = Some (fst (engine_analyze pd ad (engine st))) \<and>
         timers (timer_fires st) = rest \<and> loading (timer_fires st) = hideLoading (loading st) \<and>
         results_shown (timer_fires st) \<and>
         key_findings_list (page (timer_fires st)) = keyFindings (fst (engine_analyze pd ad (engine st))) \<and>
         strategy_list (page (timer_fires st)) = strategyRecommendations (recommendations (fst (engine_analyze pd ad (engine st)))) \<and>
         next_steps_list (page (timer_fires st)) = nextSteps (recommendations (fst (engine_analyze pd ad (engine st)))) \<and>
         (\<exists>c1. coherence_chart (page (timer_fires st)) = Drawn c1 \<and>
            bar_labels c1 = map (\<lambda>k. name (the (obj_get (getAllPlatformData (form st)) k)))
                              (obj_keys (coh_platformScores (coherence (fst (engine_analyze pd ad (engine st)))))) @ [''Overall''])"
proof -
  let ?pd = "getAllPlatformData (form st)"
  obtain r es where e: "engine_analyze pd ad (engine st) = (r, es)" by fastforce
  have g: "getResults es = Some r" using getResults_engine_analyze [of pd ad "engine st"] e by simp
  obtain c1 c2 c3 coh cons s' where d: "run_state (displayAnalysisResults ?pd (Some r) (page st)) (random_source es) =
      ((Inr (), (page st)\<lparr>coherence_chart := Drawn c1, audience_chart := Drawn c2, consistency_chart := Drawn c3,
                  key_findings_list := keyFindings r, coherence_summary := coh,
                  audience_summary := generateAudienceSummary (audience r), consistency_summary := cons\<rparr>), s')"
    and c1: "bar_labels c1 = map (\<lambda>k. name (the (obj_get ?pd k))) (obj_keys (coh_platformScores (coherence r))) @ [''Overall'']"
    using displayAnalysisResults_ok [of ?pd r "page st" "random_source es"] assms(2) e by auto
  have k: "keys_on_page ?pd (obj_keys (platformRecommendations (recommendations r)))" using assms(3) e by simp
  show ?thesis
    using assms(1) e g d c1 k
    by (simp add: timer_fires_def displayRecommendations_eq Let_def getResults_def del: keys_on_page_cards)
qed

lemma timer_fires_display_fails:
  assumes "timers st = (pd, ad) # rest"
    and "\<not> display_ready (getAllPlatformData (form st)) (fst (engine_analyze pd ad (engine st)))"
  shows "getResults (engine (timer_fires st)) = Some (fst (engine_analyze pd ad (engine st))) \<and>
         timers (timer_fires st) = rest \<and> loading (timer_fires st) = loading st \<and>
         results_shown (timer_fires st) = results_shown st \<and>
         strategy_list (page (timer_fires st)) = strategy_list (page st) \<and>
         key_findings_list (page (timer_fires st)) = key_findings_list (page st)"
proof -
  let ?pd = "getAllPlatformData (form st)"
  obtain r es where e: "engine_analyze pd ad (engine st) = (r, es)" by fastforce
  have g: "getResults es = Some r" using getResults_engine_analyze [of pd ad "engine st"] e by simp
  obtain c1 c2 c3 where d: "run_state (displayAnalysisResults ?pd (Some r) (page st)) (random_source es) =
      ((Inl TypeError, (page st)\<lparr>coherence_chart := c1, audience_chart := c2, consistency_chart := c3\<rparr>), random_source es)"
    using displayAnalysisResults_fails [of ?pd r "page st" "random_source es"] assms(2) e by auto
  show ?thesis using assms(1) e g d by (simp add: timer_fires_def getResults_def)
qed

lemma engine_analyze_fst: "fst (engine_analyze pd ad es) = fst (run_state (analyze pd ad) (random_source es))"
  by (simp add: engine_analyze_def split: prod.split)

lemma run_keys:
  "obj_keys (coh_platformScores (coherence (fst (engine_analyze (getAllPlatformData f) ad es)))) = obj_keys (getAllPlatformData f) \<and>
   set (obj_keys (platformReach (audience (fst (engine_analyze (getAllPlatformData f) ad es))))) = set (obj_keys ad) \<and>
   obj_keys (cons_platformScores (consistency (fst (engine_analyze (getAllPlatformData f) ad es)))) = obj_keys (getAllPlatformData f) \<and>
   set (obj_keys (platformRecommendations (recommendations (fst (engine_analyze (getAllPlatformData f) ad es))))) =
     set (platform_cards f)"
proof -
  have wf: "obj_wf (getAllPlatformData f)" by (simp add: getAllPlatformData_def obj_of_list_wf)
  show ?thesis
    using analyze_display_keys [OF wf, of ad] obj_keys_generateRecommendations [of "getAllPlatformData f" ad]
    by (simp add: always_def engine_analyze_fst analyze_recommendations)
qed

lemma handlers_keep_loading [simp]:
  "loading (confirm_save c n no d st) = loading st" "loading (open_load st) = loading st"
  "loading (select_item i st) = loading st" "loading (delete_item i st) = loading st"
  "loading (confirm_load c st) = loading st" "loading (export_click d st) = loading st"
  by (simp_all add: confirm_save_def open_load_def select_item_def delete_item_def
      confirm_load_def export_click_def Let_def split: list.split prod.split sum.split json.split option.split)

lemma loading_timer_fires: "loading (timer_fires st) = loading st \<or> loading (timer_fires st) = hideLoading (loading st)"
proof (cases "timers st")
  case (Cons x rest)
  then obtain pd ad where "timers st = (pd, ad) # rest" by (cases x) auto
  then show ?thesis using timer_fires_Cons [of st pd ad rest] by auto
qed (simp add: timer_fires_def)

lemma app_step_loading:
  assumes "overlay_shown (loading st) \<longrightarrow> hide_pending (loading st)"
  shows "overlay_shown (loading (app_step c e st)) \<longrightarrow> hide_pending (loading (app_step c e st))"
proof (cases e)
  case TimerFires
  then show ?thesis using assms loading_timer_fires [of st] by (auto simp: hideLoading_def)
qed (use assms in \<open>auto simp: runAnalysis_cases showLoading_def hideLoading_def\<close>)

lemma displayAnalysisResults_keeps_recs:
  assumes "run_state (displayAnalysisResults pd res v) s = ((x, v'), s')"
  shows "strategy_list v' = strategy_list v \<and> platform_rec_cards v' = platform_rec_cards v \<and>
         next_steps_list v' = next_steps_list v"
proof (cases res)
  case (Some r)
  then show ?thesis
    using assms displayAnalysisResults_ok [of pd r v s] displayAnalysisResults_fails [of pd r v s]
    by (cases "display_ready pd r") auto
qed (use assms in \<open>simp add: displayAnalysisResults_def\<close>)

lemmas form_eval = addNewPlatform_def removePlatform_def remove_nth_child_def initial_form_def initial_app_def
  edit_platform_def edit_audience_def

subsection \<open>Removing platforms\<close>

text \<open>The clicks add platform, add platform, remove platform 3, remove platform 4
  from the initial page leave platform card 4 without its audience card: the last
  click's \<open>nth-child(4)\<close> finds no card (three are left) and only the audience card
  goes.\<close>

theorem orphan_trigger:
  "let st = app_run c [AddPlatform, AddPlatform, RemovePlatform 3, RemovePlatform 4] (initial_app s ls) in
   platform_cards (form st) = [1, 2, 4] \<and> audience_cards (form st) = [1, 2] \<and> orphaned (form st)"
  by (simp add: form_eval orphaned_iff, rule exI [of _ 2], simp)

text \<open>C19: once a platform card has lost its audience card at a position below its
  number, no sequence of events other than loading a saved analysis repairs the form:
  it stays orphaned, validation fails on it, and no analysis is scheduled (the queue of
  pending analyses only shrinks).\<close>

theorem orphaned_form_never_analyzed:
  assumes "form_base (form st)" and "orphaned (form st)" and "ConfirmLoad \<notin> set evs"
  shows "orphaned (form (app_run c evs st)) \<and>
         \<not> fst (validateAnalysisData (getAllPlatformData (form (app_run c evs st))) (getAllAudienceData (form (app_run c evs st)))) \<and>
         (\<exists>n. timers (app_run c evs st) = drop n (timers st))"
proof -
  have "form_base (form (app_run c evs st)) \<and> orphaned (form (app_run c evs st)) \<and>
        (\<exists>n. timers (app_run c evs st) = drop n (timers st))"
    using assms
  proof (induction evs arbitrary: st)
    case (Cons e evs)
    then obtain n where n: "timers (app_step c e st) = drop n (timers st)"
      and base: "form_base (form (app_step c e st))" "orphaned (form (app_step c e st))"
      using app_step_keeps_orphan [of e st c] by auto
    then obtain m where "timers (app_run c evs (app_step c e st)) = drop m (timers (app_step c e st))"
      using Cons.IH [OF base] Cons.prems(3) by auto
    then show ?case using Cons.IH [OF base] Cons.prems(3) n by (auto intro: exI [of _ "m + n"])
  qed (auto intro: exI [of _ 0])
  then show ?thesis using orphaned_invalid by blast
qed

theorem orphaned_form_never_analyzed_witness:
  "form_base (form (app_run example_codec [AddPlatform, AddPlatform, RemovePlatform 3, RemovePlatform 4]
                      (initial_app example_rng (empty_store 1000)))) \<and>
   orphaned (form (app_run example_codec [AddPlatform, AddPlatform, RemovePlatform 3, RemovePlatform 4]
                      (initial_app example_rng (empty_store 1000)))) \<and>
   ConfirmLoad \<notin> set [AddPlatform, RunAnalysis] \<and>
   (let st = app_run example_codec [AddPlatform, RunAnalysis]
               (app_run example_codec [AddPlatform, AddPlatform, RemovePlatform 3, RemovePlatform 4]
                  (initial_app example_rng (empty_store 1000))) in
    orphaned (form st) \<and>
    \<not> fst (validateAnalysisData (getAllPlatformData (form st)) (getAllAudienceData (form st))) \<and>
    (\<exists>n. timers st = drop n (timers (app_run example_codec [AddPlatform, AddPlatform, RemovePlatform 3, RemovePlatform 4]
                      (initial_app example_rng (empty_store 1000))))))"
proof -
  let ?st = "app_run example_codec [AddPlatform, AddPlatform, RemovePlatform 3, RemovePlatform 4] (initial_app example_rng (empty_store 1000))"
  have b: "form_base (form ?st)" by (simp add: form_eval form_base_def)
  have o: "orphaned (form ?st)" by (simp add: form_eval orphaned_iff, rule exI [of _ 2], simp)
  have e: "ConfirmLoad \<notin> set [AddPlatform, RunAnalysis]" by simp
  show ?thesis using orphaned_form_never_analyzed [OF b o e] b o e unfolding Let_def by blast
qed

subsection \<open>Validation\<close>

text \<open>C20: validation accepts exactly the data with at least two platforms, content
  that is not blank after trimming on every platform, and an audience entry for every
  platform; the order of the checks only decides the message.\<close>

theorem validateAnalysisData_iff:
  "fst (validateAnalysisData pd ad) \<longleftrightarrow>
     2 \<le> length (obj_keys pd) \<and> (\<forall>p \<in> set (map snd pd). js_trim (content p) \<noteq> []) \<and>
     (\<forall>k \<in> set (obj_keys pd). obj_get ad k \<noteq> None)"
  by (auto simp: validate_cases list_ex_iff) (metis js_trim_Nil snd_conv)

theorem validateAnalysisData_iff_witness:
  "\<not> fst (validateAnalysisData [(1, new_platform_inputs\<lparr>content := ''Hi''\<rparr>), (2, new_platform_inputs\<lparr>content := ''Yo''\<rparr>)]
         [(1, new_audience_inputs)]) \<and>
   \<not> (\<forall>k \<in> set (obj_keys [(1 :: nat, new_platform_inputs\<lparr>content := ''Hi''\<rparr>), (2, new_platform_inputs\<lparr>content := ''Yo''\<rparr>)]).
        obj_get [(1, new_audience_inputs)] k \<noteq> None)"
  using validateAnalysisData_iff [of "[(1, new_platform_inputs\<lparr>content := ''Hi''\<rparr>), (2, new_platform_inputs\<lparr>content := ''Yo''\<rparr>)]"
      "[(1, new_audience_inputs)]"]
  by simp

text \<open>The spec's validation examples (section 8): with one platform (a page
  showing a single platform card, as after loading a one-platform analysis), and with the
  two initial platforms one of which has empty content, the run is refused with its message before
  \<open>analyze\<close> is invoked: nothing is scheduled and the engine is untouched. With one
  platform and empty content the content message wins, as the later check overwrites the
  earlier.\<close>

theorem validation_examples:
  "let p = new_platform_inputs\<lparr>content := ''Hi''\<rparr>;
       st1 = app_run c [EditPlatform 1 p, RunAnalysis]
               ((initial_app s ls)\<lparr>form := initial_form\<lparr>platform_cards := [1], audience_cards := [1]\<rparr>\<rparr>);
       st2 = app_run c [EditPlatform 1 p, RunAnalysis] (initial_app s ls)
   in timers st1 = [] \<and> engine st1 = engine (initial_app s ls) \<and>
      notices st1 = [''Please input data for at least 2 platforms''] \<and>
      timers st2 = [] \<and> engine st2 = engine (initial_app s ls) \<and>
      notices st2 = [''Please provide content for all platforms'']"
  by (simp add: form_eval runAnalysis_cases validate_cases getAllPlatformData_def getAllAudienceData_def
      obj_of_list_def new_platform_inputs_def js_trim_def js_ws_char_def)

subsection \<open>Interleaving of the handlers\<close>

text \<open>C21: the analysis runs on the data read when the button was clicked: whatever
  events other than a timer or a load come between the click and the timer, the engine
  ends up with the analysis of the form as it was at the click.\<close>

theorem analysis_uses_click_time_data:
  assumes "timers st = []"
    and "fst (validateAnalysisData (getAllPlatformData (form st)) (getAllAudienceData (form st)))"
    and "\<forall>e \<in> set evs. e \<noteq> TimerFires \<and> e \<noteq> ConfirmLoad"
  shows "getResults (engine (app_run c (RunAnalysis # evs @ [TimerFires]) st)) =
         Some (fst (engine_analyze (getAllPlatformData (form st)) (getAllAudienceData (form st)) (engine st)))"
proof -
  let ?pd = "getAllPlatformData (form st)" and ?ad = "getAllAudienceData (form st)"
  have run: "timers (app_step c RunAnalysis st) = [(?pd, ?ad)]" "engine (app_step c RunAnalysis st) = engine st"
    using assms(1,2) by (simp_all add: runAnalysis_cases)
  obtain ys where "timers (app_run c evs (app_step c RunAnalysis st)) = (?pd, ?ad) # ys"
      "engine (app_run c evs (app_step c RunAnalysis st)) = engine st"
    using app_run_keeps_engine [OF assms(3), of c "app_step c RunAnalysis st"] run by auto
  then show ?thesis using timer_fires_Cons by fastforce
qed

lemma ready_form:
  "timers ready_app = [] \<and>
   fst (validateAnalysisData (getAllPlatformData (form ready_app)) (getAllAudienceData (form ready_app)))"
  by (simp add: ready_app_def form_eval validate_cases getAllPlatformData_def getAllAudienceData_def obj_of_list_def
      new_platform_inputs_def js_trim_def js_ws_char_def)

theorem analysis_uses_click_time_data_witness:
  "timers ready_app = [] \<and>
   fst (validateAnalysisData (getAllPlatformData (form ready_app)) (getAllAudienceData (form ready_app))) \<and>
   getResults (engine (app_run example_codec (RunAnalysis # [EditPlatform 1 (new_platform_inputs\<lparr>content := ''Changed''\<rparr>)] @ [TimerFires]) ready_app)) =
     Some (fst (engine_analyze (getAllPlatformData (form ready_app)) (getAllAudienceData (form ready_app)) (engine ready_app)))"
proof -
  have e: "\<forall>e \<in> set [EditPlatform 1 (new_platform_inputs\<lparr>content := ''Changed''\<rparr>)]. e \<noteq> TimerFires \<and> e \<noteq> ConfirmLoad" by simp
  show ?thesis using analysis_uses_click_time_data [OF ready_form [THEN conjunct1] ready_form [THEN conjunct2] e]
    ready_form e by blast
qed

text \<open>C22: on a store without room for the availability probe (disabled, or within
  32 characters of its quota) the save handler stores nothing and still shows "Analysis
  saved successfully".\<close>

theorem save_reports_success_without_saving:
  assumes "analysisName \<noteq> []" and "storage_inv (store st)" and "\<not> room (store st)"
  shows "notices (app_step c (ConfirmSave analysisName analysisNotes date) st) =
           notices st @ [''Analysis saved successfully''] \<and>
         store (app_step c (ConfirmSave analysisName analysisNotes date) st) = store st"
  using confirm_save_no_room [OF assms] by simp

theorem save_reports_success_without_saving_witness:
  "''Mine'' \<noteq> [] \<and> storage_inv (store (initial_app example_rng (empty_store 10))) \<and>
   \<not> room (store (initial_app example_rng (empty_store 10))) \<and>
   notices (app_step example_codec (ConfirmSave ''Mine'' [] ''2024'') (initial_app example_rng (empty_store 10))) =
     [''Analysis saved successfully''] \<and>
   stored_list (store (app_step example_codec (ConfirmSave ''Mine'' [] ''2024'') (initial_app example_rng (empty_store 10)))) = []"
proof -
  have s: "store (initial_app example_rng (empty_store 10)) = empty_store 10" by (simp add: initial_app_def)
  have h: "storage_inv (empty_store 10)" "\<not> room (empty_store 10)" "stored_list (empty_store 10) = []"
    by code_simp+
  show ?thesis
    using save_reports_success_without_saving [of "''Mine''" "initial_app example_rng (empty_store 10)" example_codec "[]" "''2024''"]
      s h by (simp add: initial_app_def)
qed

text \<open>C23: a save after editing the form pairs the edited inputs with the results of
  the earlier run: the snapshot's \<open>platformData\<close> is the current form while its
  \<open>analysisResults\<close> is the analysis of the form as it was at the run.\<close>

theorem save_pairs_edited_form_with_earlier_results:
  assumes "timers st = []"
    and "fst (validateAnalysisData (getAllPlatformData (form st)) (getAllAudienceData (form st)))"
  shows "let st' = app_run c [RunAnalysis, TimerFires, EditPlatform i p] st in
     js_get (Some (saved_analysis c analysisName analysisNotes date st')) ''platformData'' =
       Some (platforms_json (getAllPlatformData (edit_platform i p (form st)))) \<and>
     js_get (Some (saved_analysis c analysisName analysisNotes date st')) ''analysisResults'' =
       Some (enc_results c (fst (engine_analyze (getAllPlatformData (form st)) (getAllAudienceData (form st)) (engine st))))"
  using run_then_timer [OF assms, of c]
  by (simp add: saved_analysis_def js_get_def js_prop_def)

theorem save_pairs_edited_form_with_earlier_results_witness:
  "timers ready_app = [] \<and>
   fst (validateAnalysisData (getAllPlatformData (form ready_app)) (getAllAudienceData (form ready_app))) \<and>
   (let st' = app_run example_codec [RunAnalysis, TimerFires, EditPlatform 1 (new_platform_inputs\<lparr>content := ''Changed''\<rparr>)] ready_app in
     js_get (Some (saved_analysis example_codec ''Mine'' [] ''2024'' st')) ''platformData'' =
       Some (platforms_json (getAllPlatformData (edit_platform 1 (new_platform_inputs\<lparr>content := ''Changed''\<rparr>) (form ready_app)))) \<and>
     js_get (Some (saved_analysis example_codec ''Mine'' [] ''2024'' st')) ''analysisResults'' =
       Some (enc_results example_codec (fst (engine_analyze (getAllPlatformData (form ready_app)) (getAllAudienceData (form ready_app)) (engine ready_app)))))"
  using save_pairs_edited_form_with_earlier_results [OF ready_form [THEN conjunct1] ready_form [THEN conjunct2],
      of example_codec 1 "(new_platform_inputs\<lparr>content := ''Changed''\<rparr>)" "''Mine''" "[]" "''2024''"] ready_form
  by blast

subsection \<open>The load dialog\<close>

text \<open>C24: the dialog's delete buttons keep the \<open>data-index\<close> of the list as it was
  opened: on a saved list without \<open>null\<close> entries, after deleting item \<open>i\<close>,
  deleting the item shown at position \<open>j > i\<close> removes the entry after it, entry
  \<open>j + 1\<close>, and entry \<open>j\<close> stays.\<close>

theorem dialog_delete_uses_stale_index:
  assumes "storage_inv (store st)" and "room (store st)" and "i < j"
    and "Suc j < length (stored_list (store st))" and "JNull \<notin> set (stored_list (store st))"
  shows "stored_list (store (app_run c [OpenLoad, DeleteItem i, DeleteItem j] st)) =
           take i (stored_list (store st)) @ drop (Suc i) (take (Suc j) (stored_list (store st))) @
           drop (Suc (Suc j)) (stored_list (store st))"
proof -
  let ?xs = "stored_list (store st)" and ?st2 = "delete_item i (open_load st)"
  have s2: "storage_inv (store ?st2)" "room (store ?st2)"
      "stored_list (store ?st2) = take i ?xs @ drop (Suc i) ?xs"
      "dialog ?st2 = remove1 i [0..<length ?xs]"
    using open_then_delete [OF assms(1,2) _ assms(5)] assms(3,4) by auto
  have h2: "storage_inv (store ?st2)" "room (store ?st2)" "j \<in> set (dialog ?st2)"
      "j < length (stored_list (store ?st2))"
    using s2 assms(3,4) by auto
  obtain s3 where "delete_item j ?st2 = ?st2\<lparr>store := s3, dialog := remove1 j (dialog ?st2),
        selected := (if selected ?st2 = Some j then None else selected ?st2)\<rparr>"
      and "stored_list s3 = take j (stored_list (store ?st2)) @ drop (Suc j) (stored_list (store ?st2))"
    by (rule delete_item_room [OF h2])
  then have "stored_list (store (app_run c [OpenLoad, DeleteItem i, DeleteItem j] st)) =
             take j (take i ?xs @ drop (Suc i) ?xs) @ drop (Suc j) (take i ?xs @ drop (Suc i) ?xs)"
    using s2(3) by simp
  also have "\<dots> = take i ?xs @ drop (Suc i) (take (Suc j) ?xs) @ drop (Suc (Suc j)) ?xs"
    by (rule delete_twice [OF assms(3,4)])
  finally show ?thesis .
qed

theorem dialog_delete_uses_stale_index_witness:
  "storage_inv (store (initial_app example_rng (store_with 1000 [entry_A, entry_B, entry_C]))) \<and>
   room (store (initial_app example_rng (store_with 1000 [entry_A, entry_B, entry_C]))) \<and>
   (0 :: nat) < 1 \<and> Suc 1 < length (stored_list (store (initial_app example_rng (store_with 1000 [entry_A, entry_B, entry_C])))) \<and>
   JNull \<notin> set (stored_list (store (initial_app example_rng (store_with 1000 [entry_A, entry_B, entry_C])))) \<and>
   stored_list (store (app_run example_codec [OpenLoad, DeleteItem 0, DeleteItem 1]
     (initial_app example_rng (store_with 1000 [entry_A, entry_B, entry_C])))) = [entry_B]"
proof -
  have s: "store (initial_app example_rng (store_with 1000 [entry_A, entry_B, entry_C])) = store_with 1000 [entry_A, entry_B, entry_C]"
    by (simp add: initial_app_def)
  have h: "storage_inv (store_with 1000 [entry_A, entry_B, entry_C])" "room (store_with 1000 [entry_A, entry_B, entry_C])"
    "stored_list (store_with 1000 [entry_A, entry_B, entry_C]) = [entry_A, entry_B, entry_C]"
    by code_simp+
  have l: "Suc 1 < length (stored_list (store (initial_app example_rng (store_with 1000 [entry_A, entry_B, entry_C]))))"
    using s h(3) by simp
  show ?thesis
    using dialog_delete_uses_stale_index [of "initial_app example_rng (store_with 1000 [entry_A, entry_B, entry_C])" 0 1 example_codec]
      s h l entries_not_null by simp
qed

text \<open>C25: on a saved list without \<open>null\<close> entries, after a delete in the dialog,
  loading the item shown at position \<open>j > i\<close> loads the entry after it, and nothing
  when that item was the last.\<close>

theorem dialog_load_after_delete:
  assumes "storage_inv (store st)" and "room (store st)" and "i < j"
    and "j < length (stored_list (store st))" and "JNull \<notin> set (stored_list (store st))"
  shows "loaded (app_run c [OpenLoad, DeleteItem i, SelectItem j, ConfirmLoad] st) =
           (if Suc j < length (stored_list (store st)) then Some (stored_list (store st) ! Suc j) else loaded st)"
proof -
  let ?xs = "stored_list (store st)" and ?st2 = "delete_item i (open_load st)"
  have s2: "storage_inv (store ?st2)" "room (store ?st2)"
      "stored_list (store ?st2) = take i ?xs @ drop (Suc i) ?xs"
      "dialog ?st2 = remove1 i [0..<length ?xs]" "loaded ?st2 = loaded st"
    using open_then_delete [OF assms(1,2) _ assms(5)] assms(3,4) by auto
  let ?st3 = "select_item j ?st2"
  have st3: "?st3 = ?st2\<lparr>selected := Some j\<rparr>"
    using s2(4) assms(3,4) by (simp add: select_item_def)
  have "loaded (confirm_load c ?st3) =
          (if j < length (stored_list (store ?st3)) then Some (stored_list (store ?st3) ! j) else loaded ?st3)"
    by (rule confirm_load_room) (use s2 st3 in simp_all)
  moreover have "(take i ?xs @ drop (Suc i) ?xs) ! j = ?xs ! Suc j" if "Suc j < length ?xs"
    using that assms(3) by (simp add: nth_append)
  ultimately show ?thesis using s2 st3 assms(3,4) by auto
qed

theorem dialog_load_after_delete_witness:
  "storage_inv (store (initial_app example_rng (store_with 1000 [entry_A, entry_B, entry_C]))) \<and>
   room (store (initial_app example_rng (store_with 1000 [entry_A, entry_B, entry_C]))) \<and>
   (0 :: nat) < 1 \<and> 1 < length (stored_list (store (initial_app example_rng (store_with 1000 [entry_A, entry_B, entry_C])))) \<and>
   JNull \<notin> set (stored_list (store (initial_app example_rng (store_with 1000 [entry_A, entry_B, entry_C])))) \<and>
   loaded (app_run example_codec [OpenLoad, DeleteItem 0, SelectItem 1, ConfirmLoad]
     (initial_app example_rng (store_with 1000 [entry_A, entry_B, entry_C]))) = Some entry_C"
proof -
  have s: "store (initial_app example_rng (store_with 1000 [entry_A, entry_B, entry_C])) = store_with 1000 [entry_A, entry_B, entry_C]"
    by (simp add: initial_app_def)
  have h: "storage_inv (store_with 1000 [entry_A, entry_B, entry_C])" "room (store_with 1000 [entry_A, entry_B, entry_C])"
    "stored_list (store_with 1000 [entry_A, entry_B, entry_C]) = [entry_A, entry_B, entry_C]"
    by code_simp+
  have l: "1 < length (stored_list (store (initial_app example_rng (store_with 1000 [entry_A, entry_B, entry_C]))))"
    using s h(3) by simp
  show ?thesis
    using dialog_load_after_delete [of "initial_app example_rng (store_with 1000 [entry_A, entry_B, entry_C])" 0 1 example_codec]
      s h l entries_not_null by simp
qed



subsection \<open>The markdown export\<close>

text \<open>Exporting right after a run offers a file whose Key Findings section lists
  the findings of that run, in order.\<close>

theorem export_after_run_lists_findings:
  assumes "timers st = []"
    and "fst (validateAnalysisData (getAllPlatformData (form st)) (getAllAudienceData (form st)))"
  shows "\<exists>pre post. downloads (app_run c [RunAnalysis, TimerFires, ExportRecommendations date] st) =
           downloads st @ [pre @ findings_section (fst (engine_analyze (getAllPlatformData (form st))
                                     (getAllAudienceData (form st)) (engine st))) @ post]"
proof -
  let ?pd = "getAllPlatformData (form st)" and ?ad = "getAllAudienceData (form st)"
  let ?st2 = "app_run c [RunAnalysis, TimerFires] st"
  have st2: "form ?st2 = form st" "getResults (engine ?st2) = Some (fst (engine_analyze ?pd ?ad (engine st)))"
    using run_then_timer [OF assms, of c] by simp_all
  have keys: "\<forall>p \<in> set (obj_keys (platformRecommendations (recommendations (fst (engine_analyze ?pd ?ad (engine st)))))).
      p \<in> set (platform_cards (form st))"
    using obj_keys_generateRecommendations [of ?pd ?ad] by (simp add: engine_analyze_recommendations)
  obtain pre post where "exportRecommendations date (form ?st2) (engine ?st2) =
      Inr (Some (pre @ findings_section (fst (engine_analyze ?pd ?ad (engine st))) @ post))"
    using export_content [OF st2(2) keys, of date] st2(1) by auto
  then show ?thesis by (auto simp: export_click_def)
qed

theorem export_after_run_lists_findings_witness:
  "timers ready_app = [] \<and>
   fst (validateAnalysisData (getAllPlatformData (form ready_app)) (getAllAudienceData (form ready_app))) \<and>
   (\<exists>pre post. downloads (app_run example_codec [RunAnalysis, TimerFires, ExportRecommendations ''1/1/2025''] ready_app) =
      downloads ready_app @ [pre @ findings_section (fst (engine_analyze (getAllPlatformData (form ready_app))
                                   (getAllAudienceData (form ready_app)) (engine ready_app))) @ post])"
  using export_after_run_lists_findings [OF ready_form [THEN conjunct1] ready_form [THEN conjunct2],
      of example_codec "''1/1/2025''"] ready_form
  by blast

text \<open>C28: removing a platform after a run and then exporting offers no file and shows
  no message: the export reads \<open>platformData[platformId].name\<close> for every platform of
  the retained result, and the removed platform's lookup throws.\<close>

theorem export_after_removal_fails:
  assumes "timers st = []"
    and "fst (validateAnalysisData (getAllPlatformData (form st)) (getAllAudienceData (form st)))"
    and "form_base (form st)" and "n \<in> set (platform_cards (form st))" and "removable (form st) n"
    and "n \<le> length (platform_cards (form st))"
  shows "let st' = app_run c [RunAnalysis, TimerFires, RemovePlatform n, ExportRecommendations date] st in
         downloads st' = downloads st \<and> notices st' = notices st"
proof -
  let ?pd = "getAllPlatformData (form st)" and ?ad = "getAllAudienceData (form st)"
  let ?xs = "platform_cards (form st)" and ?r = "fst (engine_analyze ?pd ?ad (engine st))"
  let ?st3 = "app_run c [RunAnalysis, TimerFires, RemovePlatform n] st"
  have n1: "1 \<le> n" using assms(3,4) by (simp add: form_base_def)
  have dist: "distinct ?xs" using assms(3) by (simp add: form_base_def strict_sorted_iff)
  have st3: "form ?st3 = removePlatform n (form st)" "getResults (engine ?st3) = Some ?r"
      "downloads ?st3 = downloads st" "notices ?st3 = notices st"
    using run_then_timer [OF assms(1,2), of c] assms(4,5) by simp_all
  have k: "?xs ! (n - 1) \<in> set (obj_keys (platformRecommendations (recommendations ?r)))"
    using obj_keys_generateRecommendations [of ?pd ?ad] n1 assms(6)
    by (simp add: engine_analyze_recommendations)
  have gone: "?xs ! (n - 1) \<notin> set (platform_cards (form ?st3))"
    using removed_child_gone [OF dist n1 assms(6)] st3(1) by (simp add: removePlatform_def)
  have "exportRecommendations date (form ?st3) (engine ?st3) = Inl TypeError"
    by (rule export_typeerror [OF st3(2) k gone])
  then show ?thesis using st3(3,4) by (simp add: export_click_def)
qed

theorem export_after_removal_fails_witness:
  "timers ready_app = [] \<and>
   fst (validateAnalysisData (getAllPlatformData (form ready_app)) (getAllAudienceData (form ready_app))) \<and>
   form_base (form ready_app) \<and> 3 \<in> set (platform_cards (form ready_app)) \<and> removable (form ready_app) 3 \<and>
   3 \<le> length (platform_cards (form ready_app)) \<and>
   (let st' = app_run example_codec [RunAnalysis, TimerFires, RemovePlatform 3, ExportRecommendations ''1/1/2025''] ready_app in
    downloads st' = downloads ready_app \<and> notices st' = notices ready_app)"
proof -
  have f: "form_base (form ready_app)" "3 \<in> set (platform_cards (form ready_app))" "removable (form ready_app) 3"
      "3 \<le> length (platform_cards (form ready_app))"
    by (simp_all add: ready_app_def form_eval form_base_def)
  show ?thesis
    using export_after_removal_fails [OF ready_form [THEN conjunct1] ready_form [THEN conjunct2] f,
        of example_codec "''1/1/2025''"] ready_form f
    by blast
qed

subsection \<open>Saving and loading the form\<close>

text \<open>C29: save then load restores the form. Loading the stored snapshot of a
  consistent form (as \<open>getSavedAnalyses\<close> returns it) rebuilds the same platform and
  audience cards, with the same platform inputs, remove buttons with listeners on the
  cards numbered above 2, and, on each audience card, what the codec reads back from the
  stored audience object; the form is consistent and within the model. This holds
  provided each value survives its HTML template (no double quote, line break or
  \<open>&\<close> in a name or keywords, no \<open><\<close> in a name, content without carriage return,
  leading line feed or \<open></textarea\<close> end tag, tone and format among the options),
  the platform numbers have at most 15 digits and each stored audience object is
  truthy.\<close>

theorem save_load_roundtrip:
  assumes "form_ok (form st)"
    and "\<forall>k \<in> set (platform_cards (form st)). k < 10 ^ 15 \<and> platform_plain (platform_inputs (form st) k) \<and>
           js_truthy (Some (json_norm (enc_audience c (audience_inputs (form st) k))))"
  shows "\<exists>f'. loadAnalysisData c (json_norm (saved_analysis c analysisName analysisNotes date st)) f0 = Some (Inr (), f') \<and>
           form_ok f' \<and> \<not> inputs_unmodelled f' \<and>
           platform_cards f' = platform_cards (form st) \<and> audience_cards f' = audience_cards (form st) \<and>
           (\<forall>k \<in> set (platform_cards (form st)).
              platform_inputs f' k = platform_inputs (form st) k \<and> removable f' k = (2 < k) \<and>
              audience_inputs f' k = dec_audience c (json_norm (enc_audience c (audience_inputs (form st) k))))"
proof -
  have names: "\<forall>k \<in> set (platform_cards (form st)). CHR ''<'' \<notin> set (name (platform_inputs (form st) k))"
    using assms(2) by (simp add: platform_plain_def)
  show ?thesis
    using load_saved [OF assms(1) _ _ names, of c analysisName analysisNotes date f0] assms(2) loaded_platform_plain
    by fastforce
qed

theorem save_load_roundtrip_witness:
  "form_ok (form ready_app) \<and>
   (\<exists>f'. loadAnalysisData example_codec (json_norm (saved_analysis example_codec ''Mine'' [] ''2024'' ready_app)) initial_form =
           Some (Inr (), f') \<and>
         form_ok f' \<and> \<not> inputs_unmodelled f' \<and>
         platform_cards f' = platform_cards (form ready_app) \<and> audience_cards f' = audience_cards (form ready_app) \<and>
         (\<forall>k \<in> set (platform_cards (form ready_app)).
            platform_inputs f' k = platform_inputs (form ready_app) k \<and> removable f' k = (2 < k) \<and>
            audience_inputs f' k =
              dec_audience example_codec (json_norm (enc_audience example_codec (audience_inputs (form ready_app) k)))))"
proof -
  have ok: "form_ok (form ready_app)" by (simp add: ready_app_def form_eval form_ok_def)
  have h: "\<forall>k \<in> set (platform_cards (form ready_app)). k < 10 ^ 15 \<and> platform_plain (platform_inputs (form ready_app) k) \<and>
           js_truthy (Some (json_norm (enc_audience example_codec (audience_inputs (form ready_app) k))))"
    by (simp add: ready_app_def form_eval example_codec_def new_platform_inputs_def
        platform_plain_def attr_plain_def textarea_plain_def tone_options_def format_options_def CR_def LF_def
        end_tag_at_def js_lower_def js_lower_char_def)
  show ?thesis using save_load_roundtrip [OF ok h, of "''Mine''" "[]" "''2024''" initial_form] ok by blast
qed



subsection \<open>The result display and the loading overlay\<close>

text \<open>C32: a valid run on a consistent form, followed by its timer, displays what it
  computed: the engine retains the bundle, the overlay is hidden with no hide timer left,
  the results section is revealed, the key findings and next steps are listed, and the
  coherence chart has one bar per platform card, labelled with its name, then the
  overall bar.\<close>

theorem run_displays_results:
  assumes "timers st = []" and "form_ok (form st)"
    and "fst (validateAnalysisData (getAllPlatformData (form st)) (getAllAudienceData (form st)))"
  shows "let st' = app_run c [RunAnalysis, TimerFires] st;
             r = fst (engine_analyze (getAllPlatformData (form st)) (getAllAudienceData (form st)) (engine st)) in
     getResults (engine st') = Some r \<and> \<not> overlay_shown (loading st') \<and> \<not> hide_pending (loading st') \<and>
     results_shown st' \<and> key_findings_list (page st') = keyFindings r \<and>
     next_steps_list (page st') = nextSteps (recommendations r) \<and>
     (\<exists>c1. coherence_chart (page st') = Drawn c1 \<and>
        bar_labels c1 = map (\<lambda>k. name (platform_inputs (form st) k)) (platform_cards (form st)) @ [''Overall''])"
proof -
  let ?pd = "getAllPlatformData (form st)" and ?ad = "getAllAudienceData (form st)"
  let ?r = "fst (engine_analyze ?pd ?ad (engine st))" and ?st1 = "runAnalysis st"
  have pos: "\<forall>k \<in> set (platform_cards (form st)). 1 \<le> k" using assms(2) by (simp add: form_ok_def)
  have ok: "audience_cards (form st) = platform_cards (form st)" "sorted_wrt (<) (platform_cards (form st))"
      "\<forall>k \<in> set (platform_cards (form st)). 0 < k"
    using assms(2) pos by (auto simp: form_ok_def Suc_le_eq)
  have st1: "timers ?st1 = [(?pd, ?ad)]" "form ?st1 = form st" "engine ?st1 = engine st"
      "loading ?st1 = showLoading ''Running analysis...'' (loading st)"
    using assms(1,3) by (simp_all add: runAnalysis_cases)
  have pdk: "obj_keys ?pd = platform_cards (form st)"
    using getAllPlatformData_sorted [OF ok(2)] by (simp add: obj_keys_def comp_def)
  note keys = run_keys [of "form st" ?ad "engine st"]
  have ready: "display_ready (getAllPlatformData (form ?st1)) (fst (engine_analyze ?pd ?ad (engine ?st1)))"
    using keys ok pdk st1(2,3) by (simp add: display_ready_cards)
  have recs: "keys_on_page (getAllPlatformData (form ?st1))
      (obj_keys (platformRecommendations (recommendations (fst (engine_analyze ?pd ?ad (engine ?st1))))))"
    using keys ok st1(2,3) by simp
  have labels: "map (\<lambda>k. name (the (obj_get ?pd k))) (obj_keys (coh_platformScores (coherence ?r))) =
      map (\<lambda>k. name (platform_inputs (form st) k)) (platform_cards (form st))"
    using keys pdk by simp
  show ?thesis
    using timer_fires_display_ok [OF st1(1) ready recs] st1 labels
    by (simp add: Let_def showLoading_def hideLoading_def)
qed

theorem run_displays_results_witness:
  "timers ready_app = [] \<and> form_ok (form ready_app) \<and>
   fst (validateAnalysisData (getAllPlatformData (form ready_app)) (getAllAudienceData (form ready_app))) \<and>
   (let st' = app_run example_codec [RunAnalysis, TimerFires] ready_app;
        r = fst (engine_analyze (getAllPlatformData (form ready_app)) (getAllAudienceData (form ready_app)) (engine ready_app)) in
     getResults (engine st') = Some r \<and> \<not> overlay_shown (loading st') \<and> \<not> hide_pending (loading st') \<and>
     results_shown st' \<and> key_findings_list (page st') = keyFindings r \<and>
     next_steps_list (page st') = nextSteps (recommendations r) \<and>
     (\<exists>c1. coherence_chart (page st') = Drawn c1 \<and>
        bar_labels c1 = map (\<lambda>k. name (platform_inputs (form ready_app) k)) (platform_cards (form ready_app)) @ [''Overall'']))"
proof -
  have ok: "form_ok (form ready_app)" by (simp add: ready_app_def form_eval form_ok_def)
  show ?thesis
    using run_displays_results [OF ready_form [THEN conjunct1] ok ready_form [THEN conjunct2], of example_codec]
      ready_form ok by blast
qed

text \<open>C33: removing an analysed platform while the analysis is pending makes the timer
  callback throw in \<open>displayCoherenceChart\<close>: the engine has retained the new bundle
  but the results section is not revealed and the overlay stays up with its hide timer
  pending; only the 10-second timeout hides it.\<close>

theorem removal_during_delay_keeps_overlay:
  assumes "timers st = []" and "form_base (form st)"
    and "fst (validateAnalysisData (getAllPlatformData (form st)) (getAllAudienceData (form st)))"
    and "n \<in> set (platform_cards (form st))" and "removable (form st) n" and "n \<le> length (platform_cards (form st))"
  shows "let st' = app_run c [RunAnalysis, RemovePlatform n, TimerFires] st in
     overlay_shown (loading st') \<and> hide_pending (loading st') \<and> results_shown st' = results_shown st \<and>
     getResults (engine st') =
       Some (fst (engine_analyze (getAllPlatformData (form st)) (getAllAudienceData (form st)) (engine st))) \<and>
     \<not> overlay_shown (loading (app_step c LoadingTimeout st'))"
proof -
  let ?pd = "getAllPlatformData (form st)" and ?ad = "getAllAudienceData (form st)"
  let ?xs = "platform_cards (form st)"
  let ?st2 = "app_run c [RunAnalysis, RemovePlatform n] st"
  have n1: "1 \<le> n" using assms(2,4) by (simp add: form_base_def)
  have dist: "distinct ?xs" using assms(2) by (simp add: form_base_def strict_sorted_iff)
  have st2: "timers ?st2 = [(?pd, ?ad)]" "form ?st2 = removePlatform n (form st)" "engine ?st2 = engine st"
      "loading ?st2 = showLoading ''Running analysis...'' (loading st)" "results_shown ?st2 = results_shown st"
    using assms(1,3,4,5) by (simp_all add: runAnalysis_cases)
  have k: "?xs ! (n - 1) \<in> set (obj_keys (coh_platformScores (coherence (fst (engine_analyze ?pd ?ad (engine st))))))"
    using run_keys [of "form st" ?ad "engine st"] n1 assms(6) by (simp add: obj_keys_def [symmetric])
  have gone: "?xs ! (n - 1) \<notin> set (platform_cards (form ?st2))"
    using removed_child_gone [OF dist n1 assms(6)] st2(2) by (simp add: removePlatform_def)
  have "\<not> display_ready (getAllPlatformData (form ?st2)) (fst (engine_analyze ?pd ?ad (engine ?st2)))"
    using k gone st2(3) by (auto simp: display_ready_cards)
  then show ?thesis
    using timer_fires_display_fails [OF st2(1)] st2 by (simp add: Let_def showLoading_def hideLoading_def)
qed

theorem removal_during_delay_keeps_overlay_witness:
  "timers ready_app = [] \<and> form_base (form ready_app) \<and>
   fst (validateAnalysisData (getAllPlatformData (form ready_app)) (getAllAudienceData (form ready_app))) \<and>
   3 \<in> set (platform_cards (form ready_app)) \<and> removable (form ready_app) 3 \<and> 3 \<le> length (platform_cards (form ready_app)) \<and>
   (let st' = app_run example_codec [RunAnalysis, RemovePlatform 3, TimerFires] ready_app in
     overlay_shown (loading st') \<and> hide_pending (loading st') \<and> results_shown st' = results_shown ready_app \<and>
     getResults (engine st') =
       Some (fst (engine_analyze (getAllPlatformData (form ready_app)) (getAllAudienceData (form ready_app)) (engine ready_app))) \<and>
     \<not> overlay_shown (loading (app_step example_codec LoadingTimeout st')))"
proof -
  have f: "form_base (form ready_app)" "3 \<in> set (platform_cards (form ready_app))" "removable (form ready_app) 3"
      "3 \<le> length (platform_cards (form ready_app))"
    by (simp_all add: ready_app_def form_eval form_base_def)
  show ?thesis
    using removal_during_delay_keeps_overlay [OF ready_form [THEN conjunct1] f(1) ready_form [THEN conjunct2] f(2-4),
        of example_codec] ready_form f
    by blast
qed

text \<open>C34: the loading overlay is never stuck: in every state reachable from the initial
  page a shown overlay has its hide timer pending, and that timer hides it.\<close>

theorem overlay_eventually_hidden:
  "let st = app_run c evs (initial_app s ls) in
     (overlay_shown (loading st) \<longrightarrow> hide_pending (loading st)) \<and>
     \<not> overlay_shown (loading (app_step c LoadingTimeout st))"
proof -
  have "overlay_shown (loading (app_run c evs st)) \<longrightarrow> hide_pending (loading (app_run c evs st))"
    if "overlay_shown (loading st) \<longrightarrow> hide_pending (loading st)" for st
    using that by (induction evs arbitrary: st) (simp_all add: app_step_loading)
  then have "overlay_shown (loading (app_run c evs (initial_app s ls))) \<longrightarrow>
             hide_pending (loading (app_run c evs (initial_app s ls)))"
    by (simp add: initial_app_def initial_loading_def)
  then show ?thesis by (auto simp: Let_def hideLoading_def)
qed

theorem overlay_eventually_hidden_witness:
  "let st = app_run example_codec ([AddPlatform, EditPlatform 1 (new_platform_inputs\<lparr>content := ''Hi''\<rparr>),
              EditPlatform 2 (new_platform_inputs\<lparr>content := ''Yo''\<rparr>), EditPlatform 3 (new_platform_inputs\<lparr>content := ''Hey''\<rparr>)]
              @ [RunAnalysis]) (initial_app example_rng (empty_store 1000)) in
   overlay_shown (loading st) \<and> hide_pending (loading st) \<and> \<not> overlay_shown (loading (app_step example_codec LoadingTimeout st))"
proof -
  let ?evs = "[AddPlatform, EditPlatform 1 (new_platform_inputs\<lparr>content := ''Hi''\<rparr>),
              EditPlatform 2 (new_platform_inputs\<lparr>content := ''Yo''\<rparr>), EditPlatform 3 (new_platform_inputs\<lparr>content := ''Hey''\<rparr>)]
              @ [RunAnalysis]"
  have st: "app_run example_codec ?evs (initial_app example_rng (empty_store 1000)) = runAnalysis ready_app"
    by (simp add: ready_app_def)
  have l: "loading ready_app = initial_loading" by (simp add: ready_app_def initial_app_def)
  have "overlay_shown (loading (runAnalysis ready_app)) \<and> hide_pending (loading (runAnalysis ready_app))"
    using ready_form l by (simp add: runAnalysis_cases showLoading_def)
  then show ?thesis using overlay_eventually_hidden [of example_codec ?evs example_rng "empty_store 1000"] st
    by (simp add: Let_def)
qed

text \<open>C35: loading a saved analysis does not redisplay recommendations: the strategy
  list, the platform cards and the next steps keep what the last run showed, while the
  engine's retained bundle, which the export uses, may become the loaded one.\<close>

theorem load_keeps_recommendations_panel:
  "let st' = app_step c ConfirmLoad st in
     strategy_list (page st') = strategy_list (page st) \<and> platform_rec_cards (page st') = platform_rec_cards (page st) \<and>
     next_steps_list (page st') = next_steps_list (page st) \<and>
     (getResults (engine st') = getResults (engine st) \<or>
      getResults (engine st') = dec_results c (js_get (loaded st') ''analysisResults''))"
  by (auto simp: confirm_load_def getResults_def setResults_def Let_def
      split: option.split prod.split sum.split dest: displayAnalysisResults_keeps_recs)

end
