(* ===== verification/Spec2Isabelle.thy ===== *)
theory Spec2Isabelle
  imports Engine Storage App
begin

text \<open>
  \<^bold>\<open>Attention Economy Navigator: a verification library.\<close>

  The repository is a single-page browser tool (\<open>src/js/\<close>): \<open>app.js\<close> wires the
  page's events, \<open>ui-controller.js\<close> collects the platform and audience forms and
  renders results, \<open>analysis-engine.js\<close> turns the collected data into a result
  bundle (scores drawn with \<open>Math.random\<close>, canned findings and recommendations,
  benchmark ratings), and \<open>storage-manager.js\<close> keeps saved analyses as one JSON
  array in \<open>localStorage\<close>. Control flows from the forms through validation to
  \<open>AnalysisEngine.analyze\<close>, whose result is rendered, retained by the engine, and
  saved or exported through the storage manager.

  \<^bold>\<open>Theories.\<close>
  \<^item> \<open>Prelude\<close>: the JavaScript runtime the code relies on: numbers that may be
    \<open>NaN\<close> (\<open>jsnum\<close>, \<open>js_floor_div\<close>), objects keyed by array indices
    (\<open>jsobj\<close>: a key-sorted association list, since \<open>Object.keys\<close> lists such
    keys ascending), \<open>toLowerCase\<close>/\<open>includes\<close> on strings, and the shared
    list and object lemmas.
  \<^item> \<open>Random_Source\<close>: \<open>Math.random\<close> as a stream of reals consumed through
    \<open>HOL-Library.State_Monad\<close>; its contract (values in \<open>[0, 1)\<close>) is
    \<open>rng_wf\<close>; \<open>keeps_wf\<close>, \<open>ensures\<close> and \<open>always\<close> are the reasoning
    rules every engine proof is built from (a small Hoare logic for the monad, with
    rules for \<open>bind\<close>, \<open>return\<close> and \<open>traverse_list\<close>, which is how
    \<open>forEach\<close> loops are modelled). \<open>getRandomElements\<close> and the sort with the
    comparator \<open>() => 0.5 - Math.random()\<close> live here.
  \<^item> \<open>Benchmark\<close>: \<open>industryBenchmarks\<close>, \<open>compareToBenchmark\<close>,
    \<open>calculatePercentile\<close>; ratings are a \<open>linorder\<close> so that the spec's
    "highest bucket met" is a \<open>Max\<close>.
  \<^item> \<open>Engine\<close>: the records the forms produce and the engine returns, one
    definition per function of \<open>analysis-engine.js\<close> in source order, the module
    state (\<open>engine_state\<close>: retained result and generator) with \<open>analyze\<close>,
    \<open>getResults\<close>, \<open>setResults\<close>, and the spec's documented ranges as
    executable predicates (\<open>coherence_entry_ok\<close>, \<open>overall_ok\<close>, ...).
  \<^item> \<open>Json\<close>: \<open>JSON.stringify\<close> (compact and indented, as the storage manager
    saves and exports) and \<open>JSON.parse\<close> (a recursive-descent parser with fuel) from
    the ECMAScript specification, the print/parse round trip, and the facts that parsed
    values have distinct keys and no \<open>NaN\<close>.
  \<^item> \<open>Storage\<close>: \<open>storage-manager.js\<close>, one definition per function, over an
    explicit \<open>localStorage\<close> (\<open>local_storage\<close>: enabled flag, quota on the total
    length of keys and values, items), with \<open>setItem\<close>/\<open>getItem\<close>/\<open>removeItem\<close>
    from the Web Storage specification. The abstraction \<open>stored_list\<close> (the array
    the stored text parses to), the invariant \<open>storage_inv\<close>, the predicate
    \<open>room\<close> (the availability probe's test item fits), the operation datatype
    \<open>storage_op\<close> with \<open>storage_step\<close>, and the inductive \<open>storage_reach\<close>
    of reachable stores are the specification side.
  \<^item> \<open>Form\<close>: the input form of \<open>ui-controller.js\<close> as \<open>form_state\<close> (the
    counter \<open>platformCount\<close>, the numbers of the platform cards and of the audience
    cards in page order, and the values of their inputs) with \<open>addNewPlatform\<close>,
    \<open>removePlatform\<close> (platform card by position through \<open>nth-child\<close>, audience
    card by number), \<open>getAllPlatformData\<close> and \<open>getAllAudienceData\<close>; the
    predicates \<open>form_ok\<close> (one audience card per platform card), \<open>form_base\<close>
    (the shape every handler keeps) and \<open>orphaned\<close> (a platform card without its
    audience card that no remove button reaches correctly).
  \<^item> \<open>App\<close>: \<open>app.js\<close>: \<open>validateAnalysisData\<close>, \<open>runAnalysis\<close> with
    its \<open>setTimeout\<close> callback, and the save, load, select and delete handlers of the
    dialogs, as one step function \<open>app_step\<close> on \<open>app_state\<close> (form, engine,
    store, pending analyses, dialog items with their \<open>data-index\<close>, selection,
    notifications, the page's displayed results, the loading overlay) over a datatype
    \<open>app_event\<close> of the page's events, timers included, run over event lists by
    \<open>app_run\<close>. The timer callback and the load handler display results through
    \<open>Display\<close>; loading a saved entry calls \<open>Load\<close>. Opening the load dialog
    throws on a \<open>null\<close> entry before any item gets its listeners.
  \<^item> \<open>Load\<close>: \<open>loadAnalysisData\<close> of the UI controller: the form cleared and
    rebuilt from a saved entry's \<open>platformData\<close> (in \<open>for ... in\<close> order, with
    JavaScript's property access and its \<open>TypeError\<close> as an \<open>Inl\<close> value) and
    \<open>audienceData\<close>, each input reading back what the HTML parser makes of the
    interpolated template string; the remove buttons get their listeners only when
    the loop completes. The JSON of the number-carrying objects (audience and result)
    is a parameter \<open>codec\<close>.
  \<^item> \<open>Display\<close>: the result display of the UI controller
    (\<open>displayAnalysisResults\<close>, the three chart routines as the data they hand to
    \<open>Chart\<close> and their tooltip callbacks, \<open>displayKeyFindings\<close>, the three HTML
    summaries, \<open>displayRecommendations\<close>) as updates of a record \<open>page_view\<close>, with
    the \<open>TypeError\<close> of a platform lookup as an \<open>Inl\<close> value that leaves the
    elements written before it; the summaries draw from \<open>Math.random\<close>. The loading
    overlay (\<open>showLoading\<close>, \<open>hideLoading\<close>) is a record \<open>loading_state\<close>
    with its pending 10-second hide timer, which \<open>App\<close> fires as the event
    \<open>LoadingTimeout\<close>.
  \<^item> \<open>Report\<close>: the markdown export \<open>exportRecommendations\<close> of the UI controller,
    section by section as the code appends them, with the uncaught \<open>TypeError\<close> of
    its platform loop as an \<open>Inl\<close> value; \<open>App\<close> offers its file as a download.
  \<^item> \<open>Spec2Isabelle\<close> (this theory): this header and the properties that span
    components.

  \<^bold>\<open>Modelling choices.\<close>
  \<^item> \<open>Math.random\<close> is not modelled as a distribution: a run is a function of the
    stream of values it returns, so every property holds for all streams that keep the
    contract (the bounds) or for all streams (the structural facts). The engine draws
    values in exactly the order JavaScript evaluates the calls.
  \<^item> \<open>Math.floor(Math.random() * n)\<close> is computed on the reals. For \<open>n \<le> 60\<close>
    and a double in \<open>[0, 1)\<close> the rounded product is never \<open>n\<close>, so the range
    of every draw is the same as in the model; rounding can only move a draw to an
    adjacent integer of the same range.
  \<^item> \<open>Math.floor(((s - min) / (max - min)) * 100)\<close> is computed as exact floor
    division. Evaluated in doubles the two agree for all integer scores in
    \<open>[-100, 300]\<close> (checked by exhaustive evaluation), which contains every score
    the engine can produce; far outside (e.g. 329) the double product rounds below an
    integer and the code's percentile is one less.
  \<^item> The sort with an inconsistent comparator has an engine-defined order; the model
    is a stable insertion sort that calls the comparator once per comparison. The
    properties use only that the result is a permutation.
  \<^item> Strings are HOL strings of bytes; \<open>toLowerCase\<close> is modelled on ASCII.
  \<^item> The form numbers (\<open>parseFloat\<close> results, \<open>NaN\<close> already replaced by 0)
    are reals; the engine copies them and does no arithmetic on them.
  \<^item> JSON numbers are integers or \<open>NaN\<close> (written as \<open>null\<close>); a number with a
    fraction or exponent is outside the model and \<open>JSON_parse\<close> rejects it. Strings
    are byte strings, so a \<open>\\u\<close> escape beyond \<open>00ff\<close> is rejected too. Objects
    keep their properties in text order; the ECMAScript rule that puts array-index keys
    first is not modelled, which changes no property here (every object the
    application writes already has its index keys first).
  \<^item> \<open>JSON_parse\<close> runs with fuel \<open>2 * length + 1\<close>: every parser call spends one
    unit and every two nested calls consume a character, so the fuel suffices for every
    text: any larger fuel gives the same result (\<open>JSON_parse_fuel_suffices\<close>).
  \<^item> The quota counts characters of keys and values, as browsers do (in UTF-16 code
    units); its size is a parameter, so every property holds for every quota.

  \<^bold>\<open>What is proved.\<close> For \<open>analyze\<close>: overall scores are the floor of the
  mean of the per-platform scores (C1); every score, sample and overlap lies in its
  documented range (C2--C4); the pairwise entries are one per pair of key positions
  \<open>i < j\<close>, each once, in the order the nested loops visit them (C8). For the
  benchmark: the rating is the highest bucket met (C5), the percentile is in
  \<open>[0, 100]\<close> exactly on a band of scores (C6), and the engine's outputs stay inside
  that band (C7); the spec's threshold examples are the lemma
  \<open>benchmark_spec_examples\<close>. For the helpers: \<open>getRandomElements\<close> returns a
  prefix of a permutation (C9), and the platform-name rule sends any name containing
  \<open>x\<close> to the Twitter advice (C10). For storage: save then list appends the
  normalised entry last on a store with room for the availability probe (C11;
  \<open>save_then_list_near_quota\<close> shows the room is needed); delete then list removes
  exactly the entry at the index (C12); no import that is rejected changes the
  collection (C13); an import into a store without room for the probe loses the saved
  analyses (C14); the store invariant holds on every reachable store, on which no
  operation throws (C15); export then import doubles the collection (C16); stores
  without room refuse every operation unchanged (C17), as \<open>delete_out_of_range\<close>
  does for bad indices. For the form and the page: removing platform \<open>n\<close> keeps the
  cards paired exactly when the button's number is its card's position (C18); once a
  platform card has lost its audience card, no sequence of events short of loading a
  saved analysis lets an analysis run (C19); validation is characterised (C20), and
  \<open>validation_examples\<close> checks the spec's examples; the timer analyses the data
  read at the click, whatever edits come before the timer (C21); the save handler
  announces success when nothing was stored (C22) and pairs the current form with the
  results of an earlier run (C23); after a delete in the load dialog, a later delete
  removes, and a load loads, the entry after the one shown (C24, C25), and one
  \<open>null\<close> among the saved analyses makes the dialog unusable (C26). The export
  throws exactly when the retained result names a platform the form no longer has
  (C27): right after a removal it offers nothing (C28). Saving and then loading a
  consistent form restores its platform inputs and cards when its strings survive
  their HTML templates (C29); a name with a double quote comes back cut before the
  quote (C30); an entry without \<open>audienceData\<close> throws after rebuilding one
  platform card (C31). For the display: a valid run on a consistent form followed by
  its timer shows the results and hides the overlay (C32); a platform removed while
  the analysis is pending makes the timer callback throw, leaving the overlay to the
  10-second timeout (C33); in every reachable state a shown overlay has its hide timer
  pending (C34); loading an analysis leaves the recommendations of the last run on the
  page (C35); a coherence tooltip shows the entry of the first platform bearing the
  bar's name (C36). A load that throws inside its loop leaves every card it has put
  on the page with a remove button that does nothing (C37).

  \<^bold>\<open>Not modelled.\<close> The JSON conversion of the audience and result objects,
  whose numbers are doubles outside the JSON model, is the \<open>codec\<close> parameter of
  \<open>Load\<close> and \<open>App\<close>: every property holds for every codec. Entries whose
  \<open>platformData\<close> keys are not canonical numerals of at most 15 digits make
  \<open>loadAnalysisData\<close> \<open>None\<close> (outside the model); character references
  (strings with \<open>&\<close>), which the HTML parser would decode, are not modelled, and
  the properties that read inputs back exclude them; a platform name holding \<open><\<close>,
  which \<open>loadAnalysisData\<close> also writes unescaped into the cards' headings, may
  swallow or replace the card's inputs: the rebuilt form is marked
  \<open>inputs_unmodelled\<close> and the load handler sets \<open>beyond_model\<close>. Drawing
  the charts is the library's (\<open>Chart\<close> receives the modelled data); the
  notifications are the list \<open>notices\<close> without their toast timing; tab navigation,
  the modal dialogs' showing and hiding, the notification container of \<open>init\<close> and
  the other Bootstrap widgets are DOM glue with no state the properties depend on.
  Timers are events: the analysis timer (2 seconds) and the overlay's hide timer (10
  seconds) may fire in any order relative to the user's events, which covers every order
  the browser can produce; the overlay blocks pointer input but not the keyboard, so no
  user event is excluded while it is shown.
\<close>

section \<open>Properties spanning components\<close>

text \<open>C7: for a non-empty platform set and a generator within its contract, the
  percentiles \<open>analyze\<close> reports for both categories lie in \<open>[0, 100]\<close>: the
  overall scores the engine can produce (coherence in \<open>[60, 89]\<close>, consistency in
  \<open>[55, 89]\<close>) stay inside the band where \<open>calculatePercentile\<close>'s unclamped
  rescale is a percentile, so the spec's open question does not arise from a run of the
  engine (it does for results loaded from storage or set by \<open>setResults\<close>).\<close>

theorem analyze_percentile_in_0_100:
  assumes "obj_wf platformData" and "platformData \<noteq> []" and "rng_wf s"
  shows "let r = fst (run_state (analyze platformData audienceData) s) in
     (case percentile (coh_benchmarkComparison (coherence r)) of
        JsInt p \<Rightarrow> in_range 0 100 p | JsNaN \<Rightarrow> False) \<and>
     (case percentile (cons_benchmarkComparison (consistency r)) of
        JsInt p \<Rightarrow> in_range 0 100 p | JsNaN \<Rightarrow> False)"
proof -
  let ?n = "length (obj_keys platformData)"
  have n: "0 < ?n" using assms(2) by (simp add: obj_keys_def)
  have "ensures (\<lambda>r. (overall_ok 60 89 ?n (coh_overallScore (coherence r)) \<and>
           coh_benchmarkComparison (coherence r) = compareToBenchmark (coh_overallScore (coherence r)) Coherence) \<and>
         True \<and>
         (overall_ok 55 89 ?n (cons_overallScore (consistency r)) \<and>
           cons_benchmarkComparison (consistency r) = compareToBenchmark (cons_overallScore (consistency r)) Consistency))
       (analyze platformData audienceData)"
    by (rule ensures_analyze,
        rule ensures_conj [OF ensures_mono [OF analyzeContentCoherence_in_range [OF assms(1)]]
          ensures_mono [OF always_ensures [OF analyses_shape(1)]]], simp, simp,
        rule always_ensures [OF always_True],
        rule ensures_conj [OF ensures_mono [OF analyzeMessageConsistency_in_range [OF assms(1)]]
          always_ensures [OF analyses_shape(2)]], simp)
  then show ?thesis
    using assms(3) overall_percentile [OF _ n, of 60 89 _ Coherence] overall_percentile [OF _ n, of 55 89 _ Consistency]
    by (simp add: ensures_def industryBenchmarks_def)
qed

theorem analyze_percentile_in_0_100_witness:
  "obj_wf example_platformData \<and> example_platformData \<noteq> [] \<and> rng_wf example_rng \<and>
   (let r = fst (run_state (analyze example_platformData example_audienceData) example_rng) in
     (case percentile (coh_benchmarkComparison (coherence r)) of
        JsInt p \<Rightarrow> in_range 0 100 p | JsNaN \<Rightarrow> False) \<and>
     (case percentile (cons_benchmarkComparison (consistency r)) of
        JsInt p \<Rightarrow> in_range 0 100 p | JsNaN \<Rightarrow> False))"
proof -
  have ne: "example_platformData \<noteq> []" by (simp add: example_platformData_def)
  show ?thesis
    using example_wf(1,3) ne analyze_percentile_in_0_100 [OF example_wf(1) ne example_wf(3)] by blast
qed

end
